(* ===== verification/Prelude.thy ===== *)
theory Prelude
  imports Main
begin

text \<open>
  Shared vocabulary of the BookStore development: the names of the key and money
  types, the two row-list operations every SQL \<open>UPDATE ... WHERE\<close> and
  \<open>DELETE ... WHERE\<close> of \<open>src/server/index.js\<close> is translated to, the generic
  lemmas about them, and the theorem collections the component theories fill.
\<close>

named_theorems handler_defs
  "definitions of HTTP handlers, unfolded when a property is read off a handler"

named_theorems inv_defs
  "definitions of the conjuncts of the database invariant"

type_synonym user_key = nat
type_synonym book_key = nat
type_synonym cart_key = nat
type_synonym order_key = nat
type_synonym timestamp = nat

text \<open>
  Money is counted in cents: the \<open>DECIMAL(\<dots>, 2)\<close> columns \<open>price\<close> and
  \<open>total_amount\<close> and the client-side amounts formatted with \<open>toFixed(2)\<close>.
\<close>

type_synonym cents = int

subsection \<open>Row-list operations\<close>

text \<open>
  A table is the list of its rows in storage order. \<open>UPDATE t SET \<dots> WHERE P\<close>
  rewrites the rows that satisfy \<open>P\<close> in place; \<open>DELETE FROM t WHERE P\<close> keeps
  the others. Both succeed when no row matches.
\<close>

definition update_where :: "('r \<Rightarrow> bool) \<Rightarrow> ('r \<Rightarrow> 'r) \<Rightarrow> 'r list \<Rightarrow> 'r list" where
  "update_where P f rs = map (\<lambda>r. if P r then f r else r) rs"

definition delete_where :: "('r \<Rightarrow> bool) \<Rightarrow> 'r list \<Rightarrow> 'r list" where
  "delete_where P rs = filter (\<lambda>r. \<not> P r) rs"

lemma update_where_Nil [simp]: "update_where P f [] = []"
  by (simp add: update_where_def)

lemma update_where_Cons [simp]:
  "update_where P f (r # rs) = (if P r then f r else r) # update_where P f rs"
  by (simp add: update_where_def)

lemma delete_where_Nil [simp]: "delete_where P [] = []"
  by (simp add: delete_where_def)

lemma delete_where_Cons [simp]:
  "delete_where P (r # rs) = (if P r then delete_where P rs else r # delete_where P rs)"
  by (simp add: delete_where_def)

lemma length_update_where [simp]: "length (update_where P f rs) = length rs"
  by (simp add: update_where_def)

lemma update_where_no_match:
  "\<forall>r\<in>set rs. \<not> P r \<Longrightarrow> update_where P f rs = rs"
  by (induction rs) auto

lemma delete_where_no_match:
  "\<forall>r\<in>set rs. \<not> P r \<Longrightarrow> delete_where P rs = rs"
  by (induction rs) auto

lemma set_delete_where [simp]: "set (delete_where P rs) = {r \<in> set rs. \<not> P r}"
  by (auto simp: delete_where_def)

lemma map_update_where_keep:
  "(\<And>r. P r \<Longrightarrow> g (f r) = g r) \<Longrightarrow> map g (update_where P f rs) = map g rs"
  by (induction rs) auto

lemma filter_update_where_other:
  "(\<And>r. Q r \<Longrightarrow> \<not> P r) \<Longrightarrow> (\<And>r. P r \<Longrightarrow> \<not> Q (f r)) \<Longrightarrow>
   filter Q (update_where P f rs) = filter Q rs"
  by (induction rs) auto

lemma distinct_map_delete_where [intro]:
  "distinct (map g rs) \<Longrightarrow> distinct (map g (delete_where P rs))"
  by (simp add: delete_where_def distinct_map_filter)

lemma set_update_where_mem:
  "x \<in> set (update_where P f rs) \<Longrightarrow> (\<exists>r\<in>set rs. P r \<and> x = f r) \<or> (x \<in> set rs \<and> \<not> P x)"
  by (induction rs) (auto split: if_splits)

lemma update_where_member:
  "u \<in> set rs \<Longrightarrow> P u \<Longrightarrow> f u \<in> set (update_where P f rs)"
  by (induction rs) auto

subsection \<open>Updating one element of a list\<close>

text \<open>
  \<open>xs[i := x]\<close>: a list of requests in flight after one of them moved on.
\<close>

lemma all_set_update:
  assumes "P x" and "\<And>j. j < length ps \<Longrightarrow> j \<noteq> i \<Longrightarrow> P (ps ! j)"
  shows "\<forall>y\<in>set (ps[i := x]). P y"
proof
  fix y
  assume "y \<in> set (ps[i := x])"
  then obtain k where k: "k < length ps" and y: "y = ps[i := x] ! k" by (auto simp: in_set_conv_nth)
  show "P y"
  proof (cases "k = i")
    case True
    with k y assms(1) show ?thesis by simp
  next
    case False
    with k y assms(2) show ?thesis by simp
  qed
qed

lemma sum_list_update_less:
  "i < length xs \<Longrightarrow> (y::nat) < xs ! i \<Longrightarrow> sum_list (xs[i := y]) < sum_list xs"
proof (induction xs arbitrary: i)
  case (Cons x xs)
  then show ?case by (cases i) auto
qed simp

subsection \<open>First row of a result set\<close>

text \<open>
  \<open>results[0]\<close> of a result set: \<open>undefined\<close> in JavaScript when the set is
  empty, written here as \<open>None\<close> (never \<open>hd []\<close>).
\<close>

definition first_row :: "'r list \<Rightarrow> 'r option" where
  "first_row rs = (case rs of [] \<Rightarrow> None | r # _ \<Rightarrow> Some r)"

lemma first_row_simps [simp]:
  "first_row [] = None" "first_row (r # rs) = Some r"
  by (simp_all add: first_row_def)

lemma first_row_Some_mem: "first_row rs = Some r \<Longrightarrow> r \<in> set rs"
  by (cases rs) auto

lemma first_row_None_iff [simp]: "first_row rs = None \<longleftrightarrow> rs = []"
  by (cases rs) auto

lemma first_row_filter_single:
  "distinct (map g rs) \<Longrightarrow> r \<in> set rs \<Longrightarrow> P r \<Longrightarrow> (\<And>s. s \<in> set rs \<Longrightarrow> P s \<Longrightarrow> g s = g r) \<Longrightarrow>
   filter P rs = [r]"
proof (induction rs)
  case Nil
  then show ?case by simp
next
  case (Cons s rs)
  show ?case
  proof (cases "s = r")
    case True
    have "\<not> P t" if "t \<in> set rs" for t
    proof
      assume "P t"
      with Cons.prems(4) that have "g t = g r" by (meson list.set_intros(2))
      with Cons.prems(1) True that show False by (auto simp: image_iff)
    qed
    with True Cons.prems(3) show ?thesis by simp
  next
    case False
    with Cons.prems have r: "r \<in> set rs" by simp
    have "\<not> P s"
    proof
      assume "P s"
      with Cons.prems(4) have "g s = g r" by (meson list.set_intros(1))
      with Cons.prems(1) r show False by (auto simp: image_iff)
    qed
    moreover have "filter P rs = [r]"
    proof (rule Cons.IH)
      show "distinct (map g rs)" using Cons.prems(1) by simp
      show "r \<in> set rs" by (rule r)
      show "P r" by (rule Cons.prems(3))
      show "g t = g r" if "t \<in> set rs" "P t" for t
        using Cons.prems(4) that by (meson list.set_intros(2))
    qed
    ultimately show ?thesis by simp
  qed
qed
end
