(* ===== verification/Db.thy ===== *)
theory Db
  imports Prelude
begin

text \<open>
  The MySQL database behind \<open>src/server/index.js\<close> as the server sees it through
  its one connection \<open>db\<close> (\<open>src/server/db.js\<close>): the five tables as row
  lists, the auto-increment counters, the transaction snapshot of the connection,
  the engine checks that make a statement fail (out-of-range \<open>INT\<close>, an empty
  \<open>VALUES\<close> list, a dangling book reference), the injected failures of the
  environment, and the shapes of the HTTP responses.
\<close>

subsection \<open>Rows\<close>

record user_row =
  user_id :: user_key
  user_name :: string
  user_email :: string
  user_password :: string
  user_created :: timestamp

record book_row =
  book_id :: book_key
  book_title :: string
  book_author :: string
  book_category :: string
  book_price :: cents
  book_stock :: int
  book_rating :: int
  book_reviews :: int
  book_image :: string
  book_description :: string

record cart_row =
  cart_id :: cart_key
  cart_user :: user_key
  cart_book :: book_key
  cart_qty :: int

text \<open>
  The shipping address object of \<open>Checkout.jsx\<close>; the server stores it as
  \<open>JSON.stringify(shipping_address)\<close> and the client parses it back, so the
  column holds the object itself.
\<close>

record shipping =
  ship_name :: string
  ship_email :: string
  ship_address :: string
  ship_city :: string
  ship_zip :: string
  ship_phone :: string

record order_row =
  order_id :: order_key
  order_user :: user_key
  order_total :: cents
  order_ship :: shipping
  order_date :: timestamp

record item_row =
  item_order :: order_key
  item_book :: book_key
  item_qty :: int
  item_price :: cents

record tables =
  users :: "user_row list"
  books :: "book_row list"
  cart :: "cart_row list"
  orders :: "order_row list"
  order_items :: "item_row list"

text \<open>
  The database: the tables, one auto-increment counter per table whose ids the
  code reads (\<open>result.insertId\<close>), and the snapshot taken by
  \<open>db.beginTransaction\<close> on the shared connection. InnoDB does not roll
  auto-increment counters back, so the counters live outside the snapshot.
\<close>

record db =
  tbl :: tables
  next_user :: user_key
  next_cart :: cart_key
  next_order :: order_key
  snapshot :: "tables option"

subsection \<open>The connection: transactions\<close>

text \<open>
  \<open>START TRANSACTION\<close> on a connection that is already in a transaction commits
  that one first, so beginning always replaces the snapshot. \<open>ROLLBACK\<close>
  restores the snapshot (a no-op outside a transaction); \<open>COMMIT\<close> drops it.
\<close>

definition begin_tx :: "db \<Rightarrow> db" where
  "begin_tx d = d\<lparr>snapshot := Some (tbl d)\<rparr>"

definition rollback :: "db \<Rightarrow> db" where
  "rollback d = (case snapshot d of None \<Rightarrow> d | Some t \<Rightarrow> d\<lparr>tbl := t, snapshot := None\<rparr>)"

definition commit :: "db \<Rightarrow> db" where
  "commit d = d\<lparr>snapshot := None\<rparr>"

lemma tbl_rollback [simp]:
  "tbl (rollback d) = (case snapshot d of None \<Rightarrow> tbl d | Some t \<Rightarrow> t)"
  by (simp add: rollback_def split: option.splits)

lemma snapshot_begin_tx [simp]: "snapshot (begin_tx d) = Some (tbl d)"
  and tbl_begin_tx [simp]: "tbl (begin_tx d) = tbl d"
  and counters_begin_tx [simp]: "next_user (begin_tx d) = next_user d"
    "next_cart (begin_tx d) = next_cart d" "next_order (begin_tx d) = next_order d"
  by (simp_all add: begin_tx_def)

lemma snapshot_rollback [simp]: "snapshot (rollback d) = None"
  and counters_rollback [simp]: "next_user (rollback d) = next_user d"
    "next_cart (rollback d) = next_cart d" "next_order (rollback d) = next_order d"
  by (simp_all add: rollback_def split: option.splits)

lemma commit_simps [simp]:
  "snapshot (commit d) = None" "tbl (commit d) = tbl d"
  "next_user (commit d) = next_user d" "next_cart (commit d) = next_cart d"
  "next_order (commit d) = next_order d"
  by (simp_all add: commit_def)

subsection \<open>Engine checks\<close>

text \<open>
  Strict-mode MySQL rejects a value outside a signed 32-bit \<open>INT\<close> column with
  an out-of-range error instead of wrapping it. \<open>cart.quantity\<close> and
  \<open>order_items.quantity\<close> are such columns.
\<close>

definition int_col_ok :: "int \<Rightarrow> bool" where
  "int_col_ok x \<longleftrightarrow> - (2 ^ 31) \<le> x \<and> x < 2 ^ 31"

text \<open>
  \<open>INSERT INTO order_items (\<dots>) VALUES ?\<close> with the nested array of rows:
  mysql2 expands an empty array to nothing, which is a syntax error, and every
  quantity must fit the \<open>INT\<close> column. Whether the schema has a foreign key from
  \<open>order_items.book_id\<close> to \<open>books.id\<close> is not in the repository; a violation
  of it is one of the failures the fault oracle below can inject.
\<close>

definition items_insert_ok :: "item_row list \<Rightarrow> bool" where
  "items_insert_ok rs \<longleftrightarrow> rs \<noteq> [] \<and> (\<forall>r\<in>set rs. int_col_ok (item_qty r))"

subsection \<open>Failures of the environment\<close>

text \<open>
  Every \<open>db.query\<close>, \<open>beginTransaction\<close> and \<open>commit\<close> call of
  \<open>index.js\<close> takes a callback whose \<open>err\<close> branch answers 500. Besides the
  engine checks above, a statement can fail for reasons outside the program (lost
  connection, server down, lock timeout). A fault oracle names which call sites
  fail in a request; the handlers take it as an argument.
\<close>

datatype site =
    RegSelect | RegInsert | LoginSelect
  | BooksSelect | BookSelect
  | CartSelect | CartUpdate | CartInsert | CartList | CartSet | CartDelete
  | TxBegin | OrderInsert | ItemsInsert | CartClear | TxCommit
  | OrdersSelect | PwSelect | PwUpdate | ProfileSelect

type_synonym faults = "site \<Rightarrow> bool"

definition no_faults :: faults where
  "no_faults = (\<lambda>_. False)"

lemma no_faults_simp [simp]: "no_faults q = False"
  by (simp add: no_faults_def)

subsection \<open>Libraries the server calls\<close>

text \<open>
  bcryptjs and jsonwebtoken are not part of the program. They enter the model as a
  record of functions, and each theorem states what it needs of them:
  \<open>pw_hash\<close> is \<open>bcrypt.hash(\<cdot>, 10)\<close> (the salt is abstracted away),
  \<open>pw_compare\<close> is \<open>bcrypt.compare\<close>, \<open>jwt_sign c t\<close> is
  \<open>jwt.sign(c, JWT_SECRET, {expiresIn: "24h"})\<close> at time \<open>t\<close>, and
  \<open>jwt_verify tok t\<close> is \<open>jwt.verify(tok, JWT_SECRET)\<close> at time \<open>t\<close>:
  the decoded claims, or \<open>None\<close> for a malformed, forged or expired token.
\<close>

record claims =
  claim_user :: user_key
  claim_email :: string

record libs =
  pw_hash :: "string \<Rightarrow> string"
  pw_compare :: "string \<Rightarrow> string \<Rightarrow> bool"
  jwt_sign :: "claims \<Rightarrow> timestamp \<Rightarrow> string"
  jwt_verify :: "string \<Rightarrow> timestamp \<Rightarrow> claims option"

text \<open>
  bcrypt hashes only the first 72 bytes of a password: \<open>bcrypt_ok\<close> is the ideal
  behaviour of the library with that truncation, and no more.
\<close>

definition bcrypt_ok :: "libs \<Rightarrow> bool" where
  "bcrypt_ok L \<longleftrightarrow> (\<forall>p q. pw_compare L p (pw_hash L q) \<longleftrightarrow> take 72 p = take 72 q)"

subsection \<open>Responses\<close>

record user_pub =
  pub_id :: user_key
  pub_name :: string
  pub_email :: string

record profile =
  prof_id :: user_key
  prof_name :: string
  prof_email :: string
  prof_created :: timestamp

text \<open>A row of \<open>GET /api/cart\<close>: \<open>c.*\<close> joined with four book columns.\<close>

record cart_view =
  cv_id :: cart_key
  cv_user :: user_key
  cv_book :: book_key
  cv_qty :: int
  cv_title :: string
  cv_author :: string
  cv_price :: cents
  cv_image :: string

text \<open>An element of the \<open>JSON_ARRAYAGG\<close> of \<open>GET /api/orders\<close>.\<close>

record item_view =
  iv_title :: string
  iv_qty :: int
  iv_price :: cents

record order_view =
  ov_order :: order_row
  ov_items :: "item_view list"

datatype payload =
    PMsg string
  | PErr string
  | PRegistered string user_key
  | PLogin string string user_pub
  | PBooks "book_row list"
  | PBook book_row
  | PCart "cart_view list"
  | POrderPlaced string order_key
  | POrders "order_view list"
  | PProfile profile
  | PUndefined

record response =
  status :: nat
  payload :: payload

definition reply :: "nat \<Rightarrow> payload \<Rightarrow> response" where
  "reply s p = \<lparr>status = s, payload = p\<rparr>"

lemma reply_sel [simp]: "status (reply s p) = s" "payload (reply s p) = p"
  by (simp_all add: reply_def)

lemma reply_eq_iff [simp]: "reply s p = reply s' p' \<longleftrightarrow> s = s' \<and> p = p'"
  by (simp add: reply_def)

text \<open>
  What a request produces: a response, or a crash when the handler throws inside an
  asynchronous callback (the \<open>try\<close> around it does not catch it, no response is
  sent, and the rejection is unhandled).
\<close>

datatype outcome = Reply response | Crash string

subsection \<open>Concrete instances for witnesses\<close>

text \<open>
  A library instance that meets \<open>bcrypt_ok\<close> (the "hash" keeps the first 72
  bytes behind a \<open>$2a$\<close> tag) and signs every token as \<open>tok\<close>, and the empty
  database with all counters at 1, as MySQL starts them.
\<close>

definition demo_libs :: libs where
  "demo_libs =
     \<lparr>pw_hash = (\<lambda>p. ''$2a$'' @ take 72 p),
      pw_compare = (\<lambda>p h. h = ''$2a$'' @ take 72 p),
      jwt_sign = (\<lambda>c t. ''tok''),
      jwt_verify = (\<lambda>s t. if s = ''tok'' then Some \<lparr>claim_user = 1, claim_email = ''a@x''\<rparr> else None)\<rparr>"

lemma demo_libs_bcrypt_ok: "bcrypt_ok demo_libs"
  by (auto simp: bcrypt_ok_def demo_libs_def)

definition empty_tables :: tables where
  "empty_tables = \<lparr>users = [], books = [], cart = [], orders = [], order_items = []\<rparr>"

definition empty_db :: db where
  "empty_db = \<lparr>tbl = empty_tables, next_user = 1, next_cart = 1, next_order = 1, snapshot = None\<rparr>"

end
