(* ===== verification/Catalog.thy ===== *)
theory Catalog
  imports Db
begin

text \<open>
  The read-only catalog of \<open>src/server/index.js\<close>: \<open>GET /api/books\<close> (lines
  111-116) and \<open>GET /api/books/:id\<close> (119-127). Neither writes; both return
  their outcome only.
\<close>

definition get_books :: "faults \<Rightarrow> db \<Rightarrow> outcome" where
  "get_books flt d =
     (if flt BooksSelect then Reply (reply 500 (PErr ''Database error''))
      else Reply (reply 200 (PBooks (books (tbl d)))))"

definition get_book :: "faults \<Rightarrow> book_key \<Rightarrow> db \<Rightarrow> outcome" where
  "get_book flt i d =
     (if flt BookSelect then Reply (reply 500 (PErr ''Database error''))
      else
        case first_row (filter (\<lambda>b. book_id b = i) (books (tbl d))) of
          None \<Rightarrow> Reply (reply 404 (PErr ''Book not found''))
        | Some b \<Rightarrow> Reply (reply 200 (PBook b)))"

declare get_books_def [handler_defs] get_book_def [handler_defs]

lemma get_book_found:
  "\<not> flt BookSelect \<Longrightarrow> get_book flt i d = Reply (reply 200 (PBook b)) \<Longrightarrow>
   b \<in> set (books (tbl d)) \<and> book_id b = i"
  by (auto simp: get_book_def dest!: first_row_Some_mem split: option.splits)

lemma get_book_missing:
  "\<not> flt BookSelect \<Longrightarrow> i \<notin> book_id ` set (books (tbl d)) \<Longrightarrow>
   get_book flt i d = Reply (reply 404 (PErr ''Book not found''))"
proof -
  assume "\<not> flt BookSelect" and "i \<notin> book_id ` set (books (tbl d))"
  moreover from this(2) have "filter (\<lambda>b. book_id b = i) (books (tbl d)) = []"
    by (force simp: filter_empty_conv)
  ultimately show ?thesis by (simp add: get_book_def)
qed

end
