(* ===== verification/Auth.thy ===== *)
theory Auth
  imports Db
begin

text \<open>
  The session guard and the credential store of \<open>src/server/index.js\<close>: the
  middleware \<open>authenticateToken\<close> (lines 13-28), \<open>POST /api/register\<close>
  (31-67), \<open>POST /api/login\<close> (70-108), \<open>PUT /api/users/password\<close> (315-345)
  and \<open>GET /api/users/profile\<close> (348-359), with the invariant of the users table
  and the lemmas that the handlers keep it.
\<close>

subsection \<open>The bearer token of a request\<close>

text \<open>
  \<open>String.prototype.split(' ')\<close>: the pieces between single spaces, empty pieces
  included, so that \<open>"".split(' ')\<close> is \<open>[""]\<close>.
\<close>

fun split_acc :: "char \<Rightarrow> string \<Rightarrow> string \<Rightarrow> string list" where
  "split_acc c acc [] = [rev acc]"
| "split_acc c acc (x # xs) =
     (if x = c then rev acc # split_acc c [] xs else split_acc c (x # acc) xs)"

definition js_split :: "char \<Rightarrow> string \<Rightarrow> string list" where
  "js_split c s = split_acc c [] s"

text \<open>
  \<open>const token = authHeader && authHeader.split(' ')[1]\<close>, then
  \<open>if (!token)\<close>: a missing header, an empty header, a header without a second
  piece and an empty second piece all give no token.
\<close>

definition token_of_header :: "string option \<Rightarrow> string option" where
  "token_of_header h =
     (case h of
        None \<Rightarrow> None
      | Some s \<Rightarrow>
          (case drop 1 (js_split (CHR '' '') s) of
             [] \<Rightarrow> None
           | t # _ \<Rightarrow> if t = [] then None else Some t))"

text \<open>
  \<open>authenticateToken\<close>: 401 without a token, 403 when \<open>jwt.verify\<close> fails,
  otherwise the decoded claims become \<open>req.user\<close> and the handler runs.
\<close>

definition authenticate_token ::
  "libs \<Rightarrow> timestamp \<Rightarrow> string option \<Rightarrow> response + claims" where
  "authenticate_token L now h =
     (case token_of_header h of
        None \<Rightarrow> Inl (reply 401 (PErr ''Access token required''))
      | Some tok \<Rightarrow>
          (case jwt_verify L tok now of
             None \<Rightarrow> Inl (reply 403 (PErr ''Invalid token''))
           | Some c \<Rightarrow> Inr c))"

subsection \<open>Users table statements\<close>

definition users_with_email :: "string \<Rightarrow> tables \<Rightarrow> user_row list" where
  "users_with_email e t = filter (\<lambda>u. user_email u = e) (users t)"

definition users_with_id :: "user_key \<Rightarrow> tables \<Rightarrow> user_row list" where
  "users_with_id i t = filter (\<lambda>u. user_id u = i) (users t)"

text \<open>\<open>INSERT INTO users (name, email, password)\<close>: a fresh auto-increment id.\<close>

definition insert_user :: "string \<Rightarrow> string \<Rightarrow> string \<Rightarrow> timestamp \<Rightarrow> db \<Rightarrow> db" where
  "insert_user n e h now d =
     d\<lparr>tbl := (tbl d)\<lparr>users := users (tbl d) @
          [\<lparr>user_id = next_user d, user_name = n, user_email = e,
            user_password = h, user_created = now\<rparr>]\<rparr>,
       next_user := Suc (next_user d)\<rparr>"

definition set_password :: "user_key \<Rightarrow> string \<Rightarrow> db \<Rightarrow> db" where
  "set_password i h d =
     d\<lparr>tbl := (tbl d)\<lparr>users :=
          update_where (\<lambda>u. user_id u = i) (\<lambda>u. u\<lparr>user_password := h\<rparr>) (users (tbl d))\<rparr>\<rparr>"

subsection \<open>Handlers\<close>

definition register ::
  "libs \<Rightarrow> faults \<Rightarrow> timestamp \<Rightarrow> string \<Rightarrow> string \<Rightarrow> string \<Rightarrow> db \<Rightarrow> outcome \<times> db" where
  "register L flt now name email password d =
     (if flt RegSelect then (Reply (reply 500 (PErr ''Database error'')), d)
      else if users_with_email email (tbl d) \<noteq> []
      then (Reply (reply 400 (PErr ''User already exists'')), d)
      else
        let h = pw_hash L password in
        if flt RegInsert then (Reply (reply 500 (PErr ''Registration failed'')), d)
        else (Reply (reply 201 (PRegistered ''User registered successfully'' (next_user d))),
              insert_user name email h now d))"

definition login_response :: "libs \<Rightarrow> timestamp \<Rightarrow> user_row \<Rightarrow> response" where
  "login_response L now u =
     reply 200 (PLogin ''Login successful''
       (jwt_sign L \<lparr>claim_user = user_id u, claim_email = user_email u\<rparr> now)
       \<lparr>pub_id = user_id u, pub_name = user_name u, pub_email = user_email u\<rparr>)"

text \<open>Login reads the database and writes nothing: it returns the outcome only.\<close>

definition login :: "libs \<Rightarrow> faults \<Rightarrow> timestamp \<Rightarrow> string \<Rightarrow> string \<Rightarrow> db \<Rightarrow> outcome" where
  "login L flt now email password d =
     (if flt LoginSelect then Reply (reply 500 (PErr ''Database error''))
      else
        case first_row (users_with_email email (tbl d)) of
          None \<Rightarrow> Reply (reply 401 (PErr ''Invalid credentials''))
        | Some u \<Rightarrow>
            if \<not> pw_compare L password (user_password u)
            then Reply (reply 401 (PErr ''Invalid credentials''))
            else Reply (login_response L now u))"

text \<open>
  \<open>results[0].password\<close> on an empty result throws a \<open>TypeError\<close> inside the
  async callback: a crash, with no response.
\<close>

definition change_password ::
  "libs \<Rightarrow> faults \<Rightarrow> claims \<Rightarrow> string \<Rightarrow> string \<Rightarrow> db \<Rightarrow> outcome \<times> db" where
  "change_password L flt c cur new d =
     (if flt PwSelect then (Reply (reply 500 (PErr ''Database error'')), d)
      else
        case first_row (users_with_id (claim_user c) (tbl d)) of
          None \<Rightarrow> (Crash ''TypeError: results[0] is undefined'', d)
        | Some u \<Rightarrow>
            if \<not> pw_compare L cur (user_password u)
            then (Reply (reply 401 (PErr ''Current password is incorrect'')), d)
            else
              let h = pw_hash L new in
              if flt PwUpdate then (Reply (reply 500 (PErr ''Password update failed'')), d)
              else (Reply (reply 200 (PMsg ''Password updated successfully'')),
                    set_password (claim_user c) h d))"

text \<open>\<open>res.json(results[0])\<close>: an empty result is sent as an undefined body.\<close>

definition profile_get :: "faults \<Rightarrow> claims \<Rightarrow> db \<Rightarrow> outcome" where
  "profile_get flt c d =
     (if flt ProfileSelect then Reply (reply 500 (PErr ''Database error''))
      else
        case first_row (users_with_id (claim_user c) (tbl d)) of
          None \<Rightarrow> Reply (reply 200 PUndefined)
        | Some u \<Rightarrow> Reply (reply 200 (PProfile
            \<lparr>prof_id = user_id u, prof_name = user_name u, prof_email = user_email u,
             prof_created = user_created u\<rparr>)))"

declare register_def [handler_defs] login_def [handler_defs]
  change_password_def [handler_defs] profile_get_def [handler_defs]

subsection \<open>Invariant of the users table\<close>

text \<open>
  Ids are distinct and below the auto-increment counter; emails are distinct (the
  specification's \<open>email (unique)\<close>, kept here by the check in \<open>register\<close>).
\<close>

definition users_inv :: "db \<Rightarrow> bool" where
  "users_inv d \<longleftrightarrow>
     distinct (map user_id (users (tbl d))) \<and>
     (\<forall>k\<in>set (map user_id (users (tbl d))). k < next_user d) \<and>
     distinct (map user_email (users (tbl d)))"

declare users_inv_def [inv_defs]

subsection \<open>Splitting the header\<close>

lemma split_acc_no_sep: "c \<notin> set xs \<Longrightarrow> split_acc c acc xs = [rev acc @ xs]"
  by (induction xs arbitrary: acc) auto

lemma split_acc_sep:
  "c \<notin> set a \<Longrightarrow> split_acc c acc (a @ c # b) = (rev acc @ a) # split_acc c [] b"
  by (induction a arbitrary: acc) auto

text \<open>
  C14: the server reads back the token the client sends as
  \<open>Authorization: Bearer <token>\<close> (\<open>AuthContext.jsx\<close>), for every token without
  a space. The scheme word itself is never checked: any space-free word in front of
  the token is accepted the same way.
\<close>

theorem token_of_header_scheme:
  assumes "CHR '' '' \<notin> set scheme" and "CHR '' '' \<notin> set tok" and "tok \<noteq> []"
  shows "token_of_header (Some (scheme @ CHR '' '' # tok)) = Some tok"
  using assms by (simp add: token_of_header_def js_split_def split_acc_sep split_acc_no_sep)

lemma token_of_header_bearer:
  "CHR '' '' \<notin> set tok \<Longrightarrow> tok \<noteq> [] \<Longrightarrow> token_of_header (Some (''Bearer '' @ tok)) = Some tok"
  by (simp add: token_of_header_def js_split_def split_acc_no_sep)

theorem token_of_header_scheme_witness:
  "token_of_header (Some (''Basic'' @ CHR '' '' # ''abc''))
     = Some ''abc''"
  by (rule token_of_header_scheme) simp_all

subsection \<open>The guard\<close>

text \<open>
  C13: a protected handler runs exactly when the header carries a token that
  \<open>jwt.verify\<close> accepts now, and it runs with the claims decoded from that token.
\<close>

theorem authenticate_token_Inr:
  "authenticate_token L now h = Inr c \<longleftrightarrow>
     (\<exists>tok. token_of_header h = Some tok \<and> jwt_verify L tok now = Some c)"
  by (auto simp: authenticate_token_def split: option.splits)

lemma authenticate_token_Inl_status:
  "authenticate_token L now h = Inl r \<Longrightarrow>
   (status r = 401 \<and> token_of_header h = None) \<or>
   (status r = 403 \<and> (\<exists>tok. token_of_header h = Some tok \<and> jwt_verify L tok now = None))"
  by (auto simp: authenticate_token_def split: option.splits)

subsection \<open>The users table\<close>

lemma users_with_email_unique:
  assumes "users_inv d" "u \<in> set (users (tbl d))" "user_email u = e"
  shows "users_with_email e (tbl d) = [u]"
  using assms unfolding users_inv_def users_with_email_def
  by (intro first_row_filter_single [where g = user_email]) auto

lemma users_with_id_unique:
  assumes "users_inv d" "u \<in> set (users (tbl d))" "user_id u = i"
  shows "users_with_id i (tbl d) = [u]"
  using assms unfolding users_inv_def users_with_id_def
  by (intro first_row_filter_single [where g = user_id]) auto

lemma set_password_keys:
  "map user_id (users (tbl (set_password i h d))) = map user_id (users (tbl d))"
  "map user_email (users (tbl (set_password i h d))) = map user_email (users (tbl d))"
  by (simp_all add: set_password_def map_update_where_keep)

lemma set_password_simps [simp]:
  "next_user (set_password i h d) = next_user d"
  "snapshot (set_password i h d) = snapshot d"
  by (simp_all add: set_password_def)

lemma set_password_users_inv: "users_inv d \<Longrightarrow> users_inv (set_password i h d)"
  unfolding users_inv_def set_password_keys set_password_simps by simp

lemma set_password_member:
  "u \<in> set (users (tbl d)) \<Longrightarrow> user_id u = i \<Longrightarrow>
   u\<lparr>user_password := h\<rparr> \<in> set (users (tbl (set_password i h d)))"
  unfolding set_password_def by (simp add: update_where_member)

lemma register_preserves_users_inv:
  assumes "users_inv d" and "register L flt now n e p d = (res, d')"
  shows "users_inv d'"
proof (cases "flt RegSelect \<or> users_with_email e (tbl d) \<noteq> [] \<or> flt RegInsert")
  case True
  with assms show ?thesis by (auto simp: register_def Let_def split: if_splits)
next
  case False
  then have d': "d' = insert_user n e (pw_hash L p) now d"
    using assms(2) by (simp add: register_def Let_def)
  from False have "e \<notin> user_email ` set (users (tbl d))"
    by (auto simp: users_with_email_def filter_empty_conv)
  with assms(1) show ?thesis
    by (auto simp: d' users_inv_def insert_user_def)
qed

lemma change_password_preserves_users_inv:
  "users_inv d \<Longrightarrow> change_password L flt c cur new d = (res, d') \<Longrightarrow> users_inv d'"
  by (auto simp: change_password_def Let_def set_password_users_inv
      split: if_splits option.splits)

subsection \<open>Registration and login\<close>

text \<open>
  C15: registering an email that is already stored answers 400 and changes
  nothing.
\<close>

theorem register_existing:
  "\<not> flt RegSelect \<Longrightarrow> users_with_email e (tbl d) \<noteq> [] \<Longrightarrow>
   register L flt now n e p d = (Reply (reply 400 (PErr ''User already exists'')), d)"
  by (simp add: register_def)

definition demo_user :: user_row where
  "demo_user = \<lparr>user_id = 1, user_name = ''Ann'', user_email = ''a@x'',
                user_password = ''$2a$pw'', user_created = 0\<rparr>"

definition demo_users_db :: db where
  "demo_users_db = empty_db\<lparr>tbl := empty_tables\<lparr>users := [demo_user]\<rparr>, next_user := 2\<rparr>"

theorem register_existing_witness:
  "register demo_libs no_faults 5 ''Bob'' ''a@x'' ''pw2'' demo_users_db
     = (Reply (reply 400 (PErr ''User already exists'')), demo_users_db)"
  by (rule register_existing)
    (simp_all add: demo_users_db_def empty_db_def empty_tables_def demo_user_def
      users_with_email_def)

text \<open>
  C16: login answers 200 only after \<open>bcrypt.compare\<close> accepted the password
  against the stored hash of the account with that email, and the token it issues
  binds that account's id and email.
\<close>

theorem login_200_checked:
  assumes "login L flt now e p d = Reply r" and "status r = 200"
  shows "\<exists>u\<in>set (users (tbl d)). user_email u = e \<and> pw_compare L p (user_password u) \<and>
           r = login_response L now u"
  using assms
  by (auto simp: login_def users_with_email_def login_response_def
      dest!: first_row_Some_mem split: if_splits option.splits)

theorem login_200_checked_witness:
  "\<exists>u\<in>set (users (tbl demo_users_db)). user_email u = ''a@x'' \<and>
     pw_compare demo_libs ''pw'' (user_password u) \<and>
     login_response demo_libs 7 demo_user = login_response demo_libs 7 u"
proof -
  have l: "login demo_libs no_faults 7 ''a@x'' ''pw'' demo_users_db
             = Reply (login_response demo_libs 7 demo_user)"
    by (simp add: login_def demo_users_db_def empty_db_def empty_tables_def demo_user_def
        users_with_email_def demo_libs_def)
  have "status (login_response demo_libs 7 demo_user) = 200"
    by (simp add: login_response_def)
  from login_200_checked [OF l this] show ?thesis by metis
qed

text \<open>
  With a bcrypt that behaves ideally, a login whose password differs from the
  registered one in its first 72 bytes is refused with 401 and no token.
\<close>

theorem login_wrong_password:
  assumes "bcrypt_ok L" "users_inv d" "u \<in> set (users (tbl d))" "user_email u = e"
    and "user_password u = pw_hash L q" and "take 72 p \<noteq> take 72 q"
    and "\<not> flt LoginSelect"
  shows "login L flt now e p d = Reply (reply 401 (PErr ''Invalid credentials''))"
  using assms users_with_email_unique [OF assms(2-4)]
  by (simp add: login_def bcrypt_ok_def)

theorem login_wrong_password_witness:
  "login demo_libs no_faults 3 ''a@x'' ''guess'' demo_users_db
     = Reply (reply 401 (PErr ''Invalid credentials''))"
proof (rule login_wrong_password [where q = "''pw''"])
  show "bcrypt_ok demo_libs" by (rule demo_libs_bcrypt_ok)
  show "users_inv demo_users_db"
    by (simp add: users_inv_def demo_users_db_def empty_db_def empty_tables_def demo_user_def)
  show "demo_user \<in> set (users (tbl demo_users_db))"
    by (simp add: demo_users_db_def)
qed (simp_all add: demo_user_def demo_libs_def)

text \<open>
  C18: registering a fresh email answers 201 with the next id, and a later login
  with the same email and password succeeds for the new account.
\<close>

theorem register_then_login:
  assumes "bcrypt_ok L" and "\<not> flt RegSelect" and "\<not> flt RegInsert" and "\<not> flt' LoginSelect"
    and "users_with_email e (tbl d) = []"
    and "register L flt now n e p d = (res, d')"
  shows "res = Reply (reply 201 (PRegistered ''User registered successfully'' (next_user d))) \<and>
         login L flt' now' e p d' =
           Reply (login_response L now' \<lparr>user_id = next_user d, user_name = n, user_email = e,
                    user_password = pw_hash L p, user_created = now\<rparr>)"
  using assms
  by (auto simp: register_def login_def insert_user_def users_with_email_def bcrypt_ok_def
      filter_empty_conv)

theorem register_then_login_witness:
  "login demo_libs no_faults 9 ''b@x'' ''secret''
     (snd (register demo_libs no_faults 4 ''Bob'' ''b@x'' ''secret'' demo_users_db)) =
   Reply (login_response demo_libs 9 \<lparr>user_id = 2, user_name = ''Bob'', user_email = ''b@x'',
            user_password = pw_hash demo_libs ''secret'', user_created = 4\<rparr>)"
proof -
  obtain res d' where r: "register demo_libs no_faults 4 ''Bob'' ''b@x'' ''secret'' demo_users_db
      = (res, d')" by fastforce
  have e: "users_with_email ''b@x'' (tbl demo_users_db) = []"
    by (simp add: users_with_email_def demo_users_db_def empty_db_def empty_tables_def demo_user_def)
  have "next_user demo_users_db = 2" by (simp add: demo_users_db_def)
  with register_then_login [OF demo_libs_bcrypt_ok _ _ _ e r] r show ?thesis by simp
qed

text \<open>
  C19: after a password change accepted against the current password, login with the
  new password succeeds and login with the old one (if it differs in its first 72
  bytes) is refused.
\<close>

theorem change_password_then_login:
  assumes "bcrypt_ok L" and "users_inv d" and "u \<in> set (users (tbl d))"
    and "user_id u = claim_user c" and "user_password u = pw_hash L old"
    and "take 72 cur = take 72 old"
    and "\<not> flt PwSelect" and "\<not> flt PwUpdate" and "\<not> flt' LoginSelect"
    and "change_password L flt c cur new d = (res, d')"
  shows "res = Reply (reply 200 (PMsg ''Password updated successfully'')) \<and>
         login L flt' now (user_email u) new d' =
           Reply (login_response L now (u\<lparr>user_password := pw_hash L new\<rparr>)) \<and>
         (take 72 old \<noteq> take 72 new \<longrightarrow>
            login L flt' now (user_email u) old d' = Reply (reply 401 (PErr ''Invalid credentials'')))"
proof -
  have uid: "users_with_id (claim_user c) (tbl d) = [u]"
    using users_with_id_unique assms(2-4) by blast
  with assms have res: "res = Reply (reply 200 (PMsg ''Password updated successfully''))"
    and d': "d' = set_password (claim_user c) (pw_hash L new) d"
    by (auto simp: change_password_def bcrypt_ok_def)
  have inv': "users_inv d'" using d' assms(2) set_password_users_inv by simp
  have mem: "u\<lparr>user_password := pw_hash L new\<rparr> \<in> set (users (tbl d'))"
    using d' assms(3,4) set_password_member by simp
  have one: "users_with_email (user_email u) (tbl d') = [u\<lparr>user_password := pw_hash L new\<rparr>]"
    using users_with_email_unique [OF inv' mem] by simp
  show ?thesis
    using res one assms(1,9) by (auto simp: login_def bcrypt_ok_def)
qed

theorem change_password_then_login_witness:
  "login demo_libs no_faults 8 ''a@x'' ''new''
     (snd (change_password demo_libs no_faults \<lparr>claim_user = 1, claim_email = ''a@x''\<rparr>
             ''pw'' ''new'' demo_users_db)) =
   Reply (login_response demo_libs 8 (demo_user\<lparr>user_password := pw_hash demo_libs ''new''\<rparr>))"
proof -
  obtain res d' where r: "change_password demo_libs no_faults \<lparr>claim_user = 1, claim_email = ''a@x''\<rparr>
             ''pw'' ''new'' demo_users_db = (res, d')" by fastforce
  have inv: "users_inv demo_users_db"
    by (simp add: users_inv_def demo_users_db_def empty_db_def empty_tables_def demo_user_def)
  have mem: "demo_user \<in> set (users (tbl demo_users_db))"
    by (simp add: demo_users_db_def)
  have "user_password demo_user = pw_hash demo_libs ''pw''"
    by (simp add: demo_user_def demo_libs_def)
  from change_password_then_login [where flt' = no_faults and now = 8,
      OF demo_libs_bcrypt_ok inv mem _ this _ _ _ _ r]
  show ?thesis using r by (simp add: demo_user_def)
qed

end
