(* ===== verification/Cart.thy ===== *)
theory Cart
  imports Auth
begin

text \<open>
  The cart ledger of \<open>src/server/index.js\<close>: \<open>POST /api/cart\<close> (lines
  130-165), \<open>GET /api/cart\<close> (168-182), \<open>PUT /api/cart/:id\<close> (185-197) and
  \<open>DELETE /api/cart/:id\<close> (200-207); the statements on the \<open>cart\<close> table; the
  invariant (one line per user and book, fresh ids); the abstraction of the table
  to a map from (user, book) to quantity and the refinement lemmas for each
  handler.
\<close>

subsection \<open>Cart table statements\<close>

definition cart_lines :: "user_key \<Rightarrow> book_key \<Rightarrow> tables \<Rightarrow> cart_row list" where
  "cart_lines u b t = filter (\<lambda>r. cart_user r = u \<and> cart_book r = b) (cart t)"

definition set_cart_qty :: "cart_key \<Rightarrow> int \<Rightarrow> db \<Rightarrow> db" where
  "set_cart_qty i q d =
     d\<lparr>tbl := (tbl d)\<lparr>cart :=
          update_where (\<lambda>r. cart_id r = i) (\<lambda>r. r\<lparr>cart_qty := q\<rparr>) (cart (tbl d))\<rparr>\<rparr>"

definition insert_cart :: "user_key \<Rightarrow> book_key \<Rightarrow> int \<Rightarrow> db \<Rightarrow> db" where
  "insert_cart u b q d =
     d\<lparr>tbl := (tbl d)\<lparr>cart := cart (tbl d) @
          [\<lparr>cart_id = next_cart d, cart_user = u, cart_book = b, cart_qty = q\<rparr>]\<rparr>,
       next_cart := Suc (next_cart d)\<rparr>"

definition delete_cart_line :: "cart_key \<Rightarrow> db \<Rightarrow> db" where
  "delete_cart_line i d =
     d\<lparr>tbl := (tbl d)\<lparr>cart := delete_where (\<lambda>r. cart_id r = i) (cart (tbl d))\<rparr>\<rparr>"

text \<open>\<open>DELETE FROM cart WHERE user_id = ?\<close>, the third statement of an order.\<close>

definition clear_cart :: "user_key \<Rightarrow> db \<Rightarrow> db" where
  "clear_cart u d =
     d\<lparr>tbl := (tbl d)\<lparr>cart := delete_where (\<lambda>r. cart_user r = u) (cart (tbl d))\<rparr>\<rparr>"

text \<open>
  The join of \<open>GET /api/cart\<close>: each line of the user with the title, author,
  price and image of its book; a line whose book is missing is dropped by the inner
  join.
\<close>

definition cart_view_of :: "cart_row \<Rightarrow> book_row \<Rightarrow> cart_view" where
  "cart_view_of r b =
     \<lparr>cv_id = cart_id r, cv_user = cart_user r, cv_book = cart_book r, cv_qty = cart_qty r,
      cv_title = book_title b, cv_author = book_author b, cv_price = book_price b,
      cv_image = book_image b\<rparr>"

definition cart_rows :: "user_key \<Rightarrow> tables \<Rightarrow> cart_view list" where
  "cart_rows u t =
     concat (map (\<lambda>r. map (cart_view_of r) (filter (\<lambda>b. book_id b = cart_book r) (books t)))
                 (filter (\<lambda>r. cart_user r = u) (cart t)))"

subsection \<open>Handlers\<close>

text \<open>
  \<open>POST /api/cart\<close>: read the line of (user, book); if there is one, write
  \<open>results[0].quantity + quantity\<close> back to it, otherwise insert a new line.
  Neither branch checks the sign of the quantity or the stock of the book.
\<close>

definition add_to_cart :: "faults \<Rightarrow> claims \<Rightarrow> book_key \<Rightarrow> int \<Rightarrow> db \<Rightarrow> outcome \<times> db" where
  "add_to_cart flt c b q d =
     (if flt CartSelect then (Reply (reply 500 (PErr ''Database error'')), d)
      else
        case first_row (cart_lines (claim_user c) b (tbl d)) of
          Some r \<Rightarrow>
            let newQty = cart_qty r + q in
            if flt CartUpdate \<or> \<not> int_col_ok newQty
            then (Reply (reply 500 (PErr ''Update failed'')), d)
            else (Reply (reply 200 (PMsg ''Cart updated'')), set_cart_qty (cart_id r) newQty d)
        | None \<Rightarrow>
            if flt CartInsert \<or> \<not> int_col_ok q
            then (Reply (reply 500 (PErr ''Add to cart failed'')), d)
            else (Reply (reply 200 (PMsg ''Added to cart'')), insert_cart (claim_user c) b q d))"

definition get_cart :: "faults \<Rightarrow> claims \<Rightarrow> db \<Rightarrow> outcome" where
  "get_cart flt c d =
     (if flt CartList then Reply (reply 500 (PErr ''Database error''))
      else Reply (reply 200 (PCart (cart_rows (claim_user c) (tbl d)))))"

text \<open>
  \<open>PUT /api/cart/:id\<close> and \<open>DELETE /api/cart/:id\<close> select the line by its id
  alone: the caller's identity \<open>c\<close> is not used.
\<close>

definition update_cart :: "faults \<Rightarrow> claims \<Rightarrow> cart_key \<Rightarrow> int \<Rightarrow> db \<Rightarrow> outcome \<times> db" where
  "update_cart flt c i q d =
     (if flt CartSet \<or> \<not> int_col_ok q then (Reply (reply 500 (PErr ''Update failed'')), d)
      else (Reply (reply 200 (PMsg ''Cart updated'')), set_cart_qty i q d))"

definition delete_cart :: "faults \<Rightarrow> claims \<Rightarrow> cart_key \<Rightarrow> db \<Rightarrow> outcome \<times> db" where
  "delete_cart flt c i d =
     (if flt CartDelete then (Reply (reply 500 (PErr ''Delete failed'')), d)
      else (Reply (reply 200 (PMsg ''Item removed from cart'')), delete_cart_line i d))"

declare add_to_cart_def [handler_defs] get_cart_def [handler_defs]
  update_cart_def [handler_defs] delete_cart_def [handler_defs]

subsection \<open>Invariant and abstraction\<close>

text \<open>
  Line ids are distinct and below the counter, and there is at most one line per
  (user, book): the specification's uniqueness of \<open>CartLine\<close>, kept by the
  read-then-write of \<open>POST /api/cart\<close> when requests do not interleave.
\<close>

definition cart_key_of :: "cart_row \<Rightarrow> user_key \<times> book_key" where
  "cart_key_of r = (cart_user r, cart_book r)"

definition cart_inv :: "db \<Rightarrow> bool" where
  "cart_inv d \<longleftrightarrow>
     distinct (map cart_id (cart (tbl d))) \<and>
     (\<forall>k\<in>set (map cart_id (cart (tbl d))). k < next_cart d) \<and>
     distinct (map cart_key_of (cart (tbl d)))"

declare cart_inv_def [inv_defs]

text \<open>The abstract cart: (user, book) to quantity.\<close>

definition cart_abs :: "tables \<Rightarrow> user_key \<times> book_key \<Rightarrow> int option" where
  "cart_abs t = map_of (map (\<lambda>r. (cart_key_of r, cart_qty r)) (cart t))"

text \<open>The ledger operation the specification describes: increment or create.\<close>

definition spec_add :: "(user_key \<times> book_key \<Rightarrow> int option) \<Rightarrow> user_key \<Rightarrow> book_key \<Rightarrow> int \<Rightarrow>
    (user_key \<times> book_key \<Rightarrow> int option)" where
  "spec_add m u b q = m((u, b) \<mapsto> (case m (u, b) of None \<Rightarrow> q | Some q0 \<Rightarrow> q0 + q))"

subsection \<open>Properties\<close>

definition demo_book :: book_row where
  "demo_book = \<lparr>book_id = 7, book_title = ''Dune'', book_author = ''Herbert'',
     book_category = ''Science Fiction'', book_price = 999, book_stock = 5, book_rating = 4,
     book_reviews = 10, book_image = ''dune.jpg'', book_description = ''Desert''\<rparr>"

definition demo_line :: cart_row where
  "demo_line = \<lparr>cart_id = 1, cart_user = 1, cart_book = 7, cart_qty = 2\<rparr>"

definition demo_cart_db :: db where
  "demo_cart_db = empty_db\<lparr>tbl := empty_tables\<lparr>users := [demo_user], books := [demo_book],
     cart := [demo_line]\<rparr>, next_user := 2, next_cart := 2\<rparr>"

definition claims1 :: claims where
  "claims1 = \<lparr>claim_user = 1, claim_email = ''a@x''\<rparr>"

definition claims2 :: claims where
  "claims2 = \<lparr>claim_user = 2, claim_email = ''b@x''\<rparr>"

lemma demo_cart_db_cart_inv: "cart_inv demo_cart_db"
  by (simp add: cart_inv_def demo_cart_db_def empty_db_def empty_tables_def demo_line_def
      cart_key_of_def)

lemmas demo_cart_simps = demo_cart_db_def empty_db_def empty_tables_def demo_line_def
  demo_book_def demo_user_def claims1_def claims2_def cart_key_of_def

lemma cart_key_of_upd [simp]: "cart_key_of (r\<lparr>cart_qty := q\<rparr>) = cart_key_of r"
  by (simp add: cart_key_of_def)

lemma cart_key_of_simp [simp]:
  "cart_key_of \<lparr>cart_id = i, cart_user = u, cart_book = b, cart_qty = q\<rparr> = (u, b)"
  by (simp add: cart_key_of_def)

lemma cart_lines_alt: "cart_lines u b t = filter (\<lambda>r. cart_key_of r = (u, b)) (cart t)"
  by (simp add: cart_lines_def cart_key_of_def)

lemma cart_lines_unique:
  assumes "cart_inv d" "r \<in> set (cart (tbl d))" "cart_key_of r = (u, b)"
  shows "cart_lines u b (tbl d) = [r]"
  using assms unfolding cart_inv_def cart_lines_alt
  by (intro first_row_filter_single [where g = cart_key_of]) auto

lemma cart_abs_None_iff: "cart_abs t k = None \<longleftrightarrow> k \<notin> cart_key_of ` set (cart t)"
  by (auto simp: cart_abs_def map_of_eq_None_iff image_image)

lemma cart_lines_Nil_iff: "cart_lines u b t = [] \<longleftrightarrow> cart_abs t (u, b) = None"
  by (auto simp: cart_lines_alt cart_abs_None_iff filter_empty_conv image_iff)

lemma cart_abs_Some:
  assumes "distinct (map cart_key_of (cart t))" "r \<in> set (cart t)"
  shows "cart_abs t (cart_key_of r) = Some (cart_qty r)"
  using assms unfolding cart_abs_def
  by (intro map_of_is_SomeI) (auto simp: comp_def image_iff)

lemma map_of_update_qty:
  assumes "distinct (map cart_id xs)" "r \<in> set xs" "cart_id r = i"
    and "distinct (map cart_key_of xs)"
  shows "map_of (map (\<lambda>r. (cart_key_of r, cart_qty r))
            (update_where (\<lambda>r. cart_id r = i) (\<lambda>r. r\<lparr>cart_qty := q\<rparr>) xs))
         = (map_of (map (\<lambda>r. (cart_key_of r, cart_qty r)) xs))(cart_key_of r \<mapsto> q)"
  using assms
proof (induction xs)
  case Nil
  then show ?case by simp
next
  case (Cons s xs)
  show ?case
  proof (cases "s = r")
    case True
    with Cons.prems have "i \<notin> set (map cart_id xs)" by simp
    then have "\<forall>t\<in>set xs. cart_id t \<noteq> i" by (auto simp: image_iff)
    then have "update_where (\<lambda>r. cart_id r = i) (\<lambda>r. r\<lparr>cart_qty := q\<rparr>) xs = xs"
      by (rule update_where_no_match)
    with True Cons.prems(3) show ?thesis by (simp add: fun_eq_iff)
  next
    case False
    with Cons.prems have r: "r \<in> set xs" and si: "cart_id s \<noteq> i" by auto
    from Cons.prems(4) r have ks: "cart_key_of s \<noteq> cart_key_of r" by auto
    have IH: "map_of (map (\<lambda>r. (cart_key_of r, cart_qty r))
            (update_where (\<lambda>r. cart_id r = i) (\<lambda>r. r\<lparr>cart_qty := q\<rparr>) xs))
         = (map_of (map (\<lambda>r. (cart_key_of r, cart_qty r)) xs))(cart_key_of r \<mapsto> q)"
      using Cons.prems(1,3,4) r by (intro Cons.IH) simp_all
    show ?thesis using si ks by (simp add: IH fun_eq_iff)
  qed
qed

lemma cart_abs_set_cart_qty:
  assumes "cart_inv d" "r \<in> set (cart (tbl d))" "cart_id r = i"
  shows "cart_abs (tbl (set_cart_qty i q d)) = (cart_abs (tbl d))(cart_key_of r \<mapsto> q)"
  using assms map_of_update_qty [of "cart (tbl d)" r i q]
  by (simp add: cart_abs_def set_cart_qty_def cart_inv_def)

lemma cart_abs_insert_cart:
  "cart_abs (tbl d) (u, b) = None \<Longrightarrow>
   cart_abs (tbl (insert_cart u b q d)) = (cart_abs (tbl d))((u, b) \<mapsto> q)"
  by (auto simp: cart_abs_def insert_cart_def map_add_def fun_eq_iff
      split: option.splits)

text \<open>
  C7: on every successful \<open>POST /api/cart\<close> the cart, read as a map from
  (user, book) to quantity, changes exactly as the ledger's \<open>addItem\<close> does:
  the quantity is added to an existing line, or a line with it is created.
\<close>

theorem add_to_cart_refines:
  assumes "cart_inv d" and "add_to_cart flt c b q d = (Reply r, d')" and "status r = 200"
  shows "cart_abs (tbl d') = spec_add (cart_abs (tbl d)) (claim_user c) b q"
proof (cases "cart_lines (claim_user c) b (tbl d)")
  case Nil
  then have "cart_abs (tbl d) (claim_user c, b) = None" by (simp add: cart_lines_Nil_iff)
  with assms Nil show ?thesis
    by (auto simp: add_to_cart_def spec_add_def cart_abs_insert_cart split: if_splits)
next
  case (Cons s ss)
  then have "s \<in> set (cart_lines (claim_user c) b (tbl d))" by simp
  then have s: "s \<in> set (cart (tbl d))" "cart_key_of s = (claim_user c, b)"
    by (auto simp: cart_lines_alt)
  have "cart_lines (claim_user c) b (tbl d) = [s]"
    by (rule cart_lines_unique [OF assms(1) s])
  moreover have "cart_abs (tbl d) (claim_user c, b) = Some (cart_qty s)"
    using cart_abs_Some [of "tbl d" s] assms(1) s by (simp add: cart_inv_def)
  ultimately show ?thesis
    using assms s cart_abs_set_cart_qty [OF assms(1) s(1) refl]
    by (auto simp: add_to_cart_def spec_add_def Let_def split: if_splits)
qed

theorem add_to_cart_refines_witness:
  "cart_abs (tbl (snd (add_to_cart no_faults claims1 7 3 demo_cart_db))) =
   spec_add (cart_abs (tbl demo_cart_db)) 1 7 3"
proof -
  obtain r d' where e: "add_to_cart no_faults claims1 7 3 demo_cart_db = (Reply r, d')"
    and st: "status r = 200"
    by (simp add: add_to_cart_def demo_cart_simps cart_lines_def int_col_ok_def)
  from add_to_cart_refines [OF demo_cart_db_cart_inv e st] e show ?thesis
    by (simp add: claims1_def)
qed


lemma set_cart_qty_keys:
  "map cart_id (cart (tbl (set_cart_qty i q d))) = map cart_id (cart (tbl d))"
  "map cart_key_of (cart (tbl (set_cart_qty i q d))) = map cart_key_of (cart (tbl d))"
  by (simp_all add: set_cart_qty_def map_update_where_keep)

lemma set_cart_qty_simps [simp]:
  "next_cart (set_cart_qty i q d) = next_cart d" "snapshot (set_cart_qty i q d) = snapshot d"
  "users (tbl (set_cart_qty i q d)) = users (tbl d)"
  by (simp_all add: set_cart_qty_def)

lemma set_cart_qty_cart_inv: "cart_inv d \<Longrightarrow> cart_inv (set_cart_qty i q d)"
  unfolding cart_inv_def set_cart_qty_keys set_cart_qty_simps by simp

lemma insert_cart_cart_inv:
  "cart_inv d \<Longrightarrow> cart_lines u b (tbl d) = [] \<Longrightarrow> cart_inv (insert_cart u b q d)"
  by (auto simp: cart_inv_def insert_cart_def cart_lines_alt filter_empty_conv image_iff)

lemma delete_cart_line_cart_inv: "cart_inv d \<Longrightarrow> cart_inv (delete_cart_line i d)"
  by (auto simp: cart_inv_def delete_cart_line_def)

lemma clear_cart_cart_inv: "cart_inv d \<Longrightarrow> cart_inv (clear_cart u d)"
  by (auto simp: cart_inv_def clear_cart_def)

lemma add_to_cart_cart_inv:
  "cart_inv d \<Longrightarrow> add_to_cart flt c b q d = (res, d') \<Longrightarrow> cart_inv d'"
  by (auto simp: add_to_cart_def Let_def set_cart_qty_cart_inv insert_cart_cart_inv
      split: if_splits option.splits)

lemma update_cart_cart_inv:
  "cart_inv d \<Longrightarrow> update_cart flt c i q d = (res, d') \<Longrightarrow> cart_inv d'"
  by (auto simp: update_cart_def set_cart_qty_cart_inv split: if_splits)

lemma delete_cart_cart_inv:
  "cart_inv d \<Longrightarrow> delete_cart flt c i d = (res, d') \<Longrightarrow> cart_inv d'"
  by (auto simp: delete_cart_def delete_cart_line_cart_inv split: if_splits)

lemma filter_update_where_comm:
  "(\<And>r. Q r \<Longrightarrow> P (f r) = P r) \<Longrightarrow>
   filter P (update_where Q f rs) = update_where Q f (filter P rs)"
  by (induction rs) auto

text \<open>
  C6: adding a book twice to a cart without it (quantities q1, then q2) answers
  "Added to cart", then "Cart updated", and leaves exactly one line for that book,
  with quantity q1 + q2 and the id of the first insert.
\<close>

theorem add_to_cart_twice:
  assumes "cart_inv d" and "cart_lines (claim_user c) b (tbl d) = []"
    and "int_col_ok q1" and "int_col_ok (q1 + q2)"
    and "add_to_cart no_faults c b q1 d = (res1, d1)"
    and "add_to_cart no_faults c b q2 d1 = (res2, d2)"
  shows "res1 = Reply (reply 200 (PMsg ''Added to cart'')) \<and>
         res2 = Reply (reply 200 (PMsg ''Cart updated'')) \<and>
         cart_lines (claim_user c) b (tbl d2) =
           [\<lparr>cart_id = next_cart d, cart_user = claim_user c, cart_book = b, cart_qty = q1 + q2\<rparr>]"
proof -
  let ?r = "\<lparr>cart_id = next_cart d, cart_user = claim_user c, cart_book = b, cart_qty = q1\<rparr>"
  have d1: "d1 = insert_cart (claim_user c) b q1 d" and r1: "res1 = Reply (reply 200 (PMsg ''Added to cart''))"
    using assms(2,3,5) by (simp_all add: add_to_cart_def)
  have l1: "cart_lines (claim_user c) b (tbl d1) = [?r]"
    using assms(2) by (simp add: d1 insert_cart_def cart_lines_def)
  have "d2 = set_cart_qty (next_cart d) (q1 + q2) d1"
    and r2: "res2 = Reply (reply 200 (PMsg ''Cart updated''))"
    using assms(4,6) l1 by (simp_all add: add_to_cart_def)
  then have "cart_lines (claim_user c) b (tbl d2) =
      update_where (\<lambda>r. cart_id r = next_cart d) (\<lambda>r. r\<lparr>cart_qty := q1 + q2\<rparr>) [?r]"
    using l1 by (simp add: set_cart_qty_def cart_lines_def filter_update_where_comm)
  with r1 r2 show ?thesis by simp
qed

theorem add_to_cart_twice_witness:
  "cart_lines 1 7 (tbl (snd (add_to_cart no_faults claims1 7 2
      (snd (add_to_cart no_faults claims1 7 1 demo_users_db))))) =
   [\<lparr>cart_id = 1, cart_user = 1, cart_book = 7, cart_qty = 3\<rparr>]"
proof -
  have inv: "cart_inv demo_users_db"
    by (simp add: cart_inv_def demo_users_db_def empty_db_def empty_tables_def)
  have none: "cart_lines (claim_user claims1) 7 (tbl demo_users_db) = []"
    by (simp add: cart_lines_def demo_users_db_def empty_tables_def)
  obtain res1 d1 where e1: "add_to_cart no_faults claims1 7 1 demo_users_db = (res1, d1)"
    by fastforce
  obtain res2 d2 where e2: "add_to_cart no_faults claims1 7 2 d1 = (res2, d2)"
    by fastforce
  have "int_col_ok 1" "int_col_ok (1 + 2)" by (simp_all add: int_col_ok_def)
  from add_to_cart_twice [OF inv none this e1 e2] e1 e2 show ?thesis
    by (simp add: claims1_def demo_users_db_def empty_db_def)
qed

text \<open>
  C9: \<open>PUT /api/cart/:id\<close> does not check who owns the line: a caller whose
  user id differs from the line's owner overwrites the quantity of that other
  user's line.
\<close>

theorem update_cart_ignores_owner:
  assumes "cart_inv d" and "r \<in> set (cart (tbl d))" and "claim_user c \<noteq> cart_user r"
    and "\<not> flt CartSet" and "int_col_ok q"
    and "update_cart flt c (cart_id r) q d = (res, d')"
  shows "res = Reply (reply 200 (PMsg ''Cart updated'')) \<and>
         cart_abs (tbl d') = (cart_abs (tbl d))((cart_user r, cart_book r) \<mapsto> q)"
  using assms cart_abs_set_cart_qty [OF assms(1,2) refl, of q]
  by (auto simp: update_cart_def cart_key_of_def)

theorem update_cart_ignores_owner_witness:
  "cart_abs (tbl (snd (update_cart no_faults claims2 1 50 demo_cart_db))) (1, 7) = Some 50"
proof -
  obtain res d' where e: "update_cart no_faults claims2 (cart_id demo_line) 50 demo_cart_db = (res, d')"
    by fastforce
  have "demo_line \<in> set (cart (tbl demo_cart_db))" "claim_user claims2 \<noteq> cart_user demo_line"
    "int_col_ok 50"
    by (simp_all add: demo_cart_simps int_col_ok_def)
  from update_cart_ignores_owner [OF demo_cart_db_cart_inv this(1,2) _ this(3) e] e
  show ?thesis by (simp add: demo_line_def)
qed

text \<open>
  Removing a cart line id that does not exist answers 200 and leaves the
  database unchanged (idempotent removal).
\<close>

lemma delete_cart_absent:
  "\<forall>r\<in>set (cart (tbl d)). cart_id r \<noteq> i \<Longrightarrow> \<not> flt CartDelete \<Longrightarrow>
   delete_cart flt c i d = (Reply (reply 200 (PMsg ''Item removed from cart'')), d)"
  by (simp add: delete_cart_def delete_cart_line_def delete_where_no_match)

text \<open>
  C11: when the new quantity \<open>results[0].quantity + quantity\<close> falls outside the
  signed 32-bit \<open>INT\<close> column, \<open>POST /api/cart\<close> answers 500 and changes
  nothing.
\<close>

theorem add_to_cart_overflow:
  assumes "cart_inv d" and "r \<in> set (cart (tbl d))" and "cart_key_of r = (claim_user c, b)"
    and "\<not> flt CartSelect" and "\<not> int_col_ok (cart_qty r + q)"
  shows "add_to_cart flt c b q d = (Reply (reply 500 (PErr ''Update failed'')), d)"
  using assms cart_lines_unique [OF assms(1-3)] by (simp add: add_to_cart_def)

theorem add_to_cart_overflow_witness:
  "add_to_cart no_faults claims1 7 (2 ^ 31 - 2) demo_cart_db =
     (Reply (reply 500 (PErr ''Update failed'')), demo_cart_db)"
  by (rule add_to_cart_overflow [OF demo_cart_db_cart_inv, where r = demo_line])
    (simp_all add: demo_cart_simps int_col_ok_def)

text \<open>
  C12: \<open>POST /api/cart\<close> accepts a quantity of zero or less and stores a cart
  line with it, although the specification requires positive quantities.
\<close>

theorem add_to_cart_nonpositive:
  assumes "cart_lines (claim_user c) b (tbl d) = []" and "\<not> flt CartSelect" and "\<not> flt CartInsert"
    and "q \<le> 0" and "int_col_ok q"
  shows "add_to_cart flt c b q d = (Reply (reply 200 (PMsg ''Added to cart'')), insert_cart (claim_user c) b q d) \<and>
         cart_abs (tbl (insert_cart (claim_user c) b q d)) (claim_user c, b) = Some q"
proof -
  have "cart_abs (tbl d) (claim_user c, b) = None"
    using assms(1) by (simp add: cart_lines_Nil_iff)
  then show ?thesis using assms by (simp add: add_to_cart_def cart_abs_insert_cart)
qed

theorem add_to_cart_nonpositive_witness:
  "add_to_cart no_faults claims1 8 (-1) demo_cart_db =
     (Reply (reply 200 (PMsg ''Added to cart'')), insert_cart 1 8 (-1) demo_cart_db) \<and>
   cart_abs (tbl (insert_cart 1 8 (-1) demo_cart_db)) (1, 8) = Some (-1)"
  using add_to_cart_nonpositive [of claims1 8 demo_cart_db no_faults "-1"]
  by (simp add: demo_cart_simps cart_lines_def int_col_ok_def)

text \<open>
  C21: every row \<open>GET /api/cart\<close> returns belongs to the caller and shows the
  id, quantity and book of one of the caller's stored lines.
\<close>

theorem get_cart_own_lines:
  "get_cart flt c d = Reply r \<Longrightarrow> payload r = PCart vs \<Longrightarrow> v \<in> set vs \<Longrightarrow>
   cv_user v = claim_user c \<and>
   (\<exists>l\<in>set (cart (tbl d)). cv_id v = cart_id l \<and> cv_qty v = cart_qty l \<and> cv_book v = cart_book l)"
  by (fastforce simp: get_cart_def cart_rows_def cart_view_of_def split: if_splits)

theorem get_cart_own_lines_witness:
  "get_cart no_faults claims1 demo_cart_db =
     Reply (reply 200 (PCart [cart_view_of demo_line demo_book])) \<and>
   cv_user (cart_view_of demo_line demo_book) = 1"
proof -
  have g: "get_cart no_faults claims1 demo_cart_db =
      Reply (reply 200 (PCart [cart_view_of demo_line demo_book]))"
    by (simp add: get_cart_def cart_rows_def demo_cart_simps)
  from get_cart_own_lines [OF g, of "[cart_view_of demo_line demo_book]"] g
  show ?thesis by (simp add: claims1_def)
qed

end
