(* ===== verification/Orders.thy ===== *)
theory Orders
  imports Cart
begin

text \<open>
  The order placement transaction \<open>POST /api/orders\<close> (\<open>src/server/index.js\<close>
  lines 210-285) and the order history \<open>GET /api/orders\<close> (288-312): the
  statements on \<open>orders\<close> and \<open>order_items\<close>, the handler as the chain of
  callbacks it is (begin, insert the order, insert its items, clear the cart,
  commit, with a rollback on every error branch), the abstract effect of a placed
  order, and the invariant of the two tables.
\<close>

subsection \<open>Statements\<close>

text \<open>An element of \<open>req.body.items\<close>: \<open>{book_id, quantity, price}\<close>.\<close>

record item_in =
  in_book :: book_key
  in_qty :: int
  in_price :: cents

text \<open>\<open>items.map(item => [orderId, item.book_id, item.quantity, item.price])\<close>.\<close>

definition item_rows :: "order_key \<Rightarrow> item_in list \<Rightarrow> item_row list" where
  "item_rows oid items =
     map (\<lambda>it. \<lparr>item_order = oid, item_book = in_book it, item_qty = in_qty it,
                item_price = in_price it\<rparr>) items"

definition new_order :: "order_key \<Rightarrow> user_key \<Rightarrow> cents \<Rightarrow> shipping \<Rightarrow> timestamp \<Rightarrow> order_row" where
  "new_order oid u amount ship now =
     \<lparr>order_id = oid, order_user = u, order_total = amount, order_ship = ship, order_date = now\<rparr>"

text \<open>
  \<open>INSERT INTO orders (user_id, total_amount, shipping_address)\<close>: the
  auto-increment id, and \<open>order_date\<close> defaulting to the current time.
\<close>

definition insert_order :: "user_key \<Rightarrow> cents \<Rightarrow> shipping \<Rightarrow> timestamp \<Rightarrow> db \<Rightarrow> db" where
  "insert_order u amount ship now d =
     d\<lparr>tbl := (tbl d)\<lparr>orders := orders (tbl d) @ [new_order (next_order d) u amount ship now]\<rparr>,
       next_order := Suc (next_order d)\<rparr>"

definition insert_items :: "item_row list \<Rightarrow> db \<Rightarrow> db" where
  "insert_items rs d = d\<lparr>tbl := (tbl d)\<lparr>order_items := order_items (tbl d) @ rs\<rparr>\<rparr>"

subsection \<open>The transaction\<close>

text \<open>
  Each callback of the chain is one branch: an error answers 500 after
  \<open>db.rollback\<close> (the \<open>beginTransaction\<close> error answers before any
  transaction exists), and the last callback commits. \<open>total_amount\<close> and the
  item prices are the client's; nothing is recomputed from the catalog.
\<close>

definition create_order ::
  "faults \<Rightarrow> timestamp \<Rightarrow> claims \<Rightarrow> item_in list \<Rightarrow> cents \<Rightarrow> shipping \<Rightarrow> db \<Rightarrow> outcome \<times> db" where
  "create_order flt now c items amount ship d =
     (if flt TxBegin then (Reply (reply 500 (PErr ''Transaction failed'')), d)
      else
        let d1 = begin_tx d in
        if flt OrderInsert then (Reply (reply 500 (PErr ''Order creation failed'')), rollback d1)
        else
          let oid = next_order d1;
              d2 = insert_order (claim_user c) amount ship now d1;
              rows = item_rows oid items in
          if flt ItemsInsert \<or> \<not> items_insert_ok rows
          then (Reply (reply 500 (PErr ''Order items failed'')), rollback d2)
          else
            let d3 = insert_items rows d2 in
            if flt CartClear then (Reply (reply 500 (PErr ''Cart clear failed'')), rollback d3)
            else
              let d4 = clear_cart (claim_user c) d3 in
              if flt TxCommit then (Reply (reply 500 (PErr ''Commit failed'')), rollback d4)
              else (Reply (reply 200 (POrderPlaced ''Order placed successfully'' oid)), commit d4))"

declare create_order_def [handler_defs]

text \<open>
  The specification's view of a placed order (section 4.4): one new order row, one
  item row per input line with the input's price, and the user's whole cart
  deleted, all at once.
\<close>

definition placed :: "user_key \<Rightarrow> order_key \<Rightarrow> item_in list \<Rightarrow> cents \<Rightarrow> shipping \<Rightarrow> timestamp \<Rightarrow>
    tables \<Rightarrow> tables" where
  "placed u oid items amount ship now t =
     t\<lparr>orders := orders t @ [new_order oid u amount ship now],
       order_items := order_items t @ item_rows oid items,
       cart := delete_where (\<lambda>r. cart_user r = u) (cart t)\<rparr>"

subsection \<open>Order history\<close>

text \<open>
  The query of \<open>GET /api/orders\<close>: orders of the user joined (inner joins) with
  their items and the items' books, grouped by order, newest first. An order whose
  join is empty has no group and is not returned. Rows with equal dates keep their
  storage order.
\<close>

definition order_item_views :: "tables \<Rightarrow> order_row \<Rightarrow> item_view list" where
  "order_item_views t od =
     concat (map (\<lambda>i. map (\<lambda>b. \<lparr>iv_title = book_title b, iv_qty = item_qty i, iv_price = item_price i\<rparr>)
                          (filter (\<lambda>b. book_id b = item_book i) (books t)))
                 (filter (\<lambda>i. item_order i = order_id od) (order_items t)))"

definition newest_first :: "order_row list \<Rightarrow> order_row list" where
  "newest_first os = sort_key (\<lambda>od. - int (order_date od)) os"

definition order_views :: "user_key \<Rightarrow> tables \<Rightarrow> order_view list" where
  "order_views u t =
     map (\<lambda>od. \<lparr>ov_order = od, ov_items = order_item_views t od\<rparr>)
       (filter (\<lambda>od. order_item_views t od \<noteq> [])
          (newest_first (filter (\<lambda>od. order_user od = u) (orders t))))"

definition list_orders :: "faults \<Rightarrow> claims \<Rightarrow> db \<Rightarrow> outcome" where
  "list_orders flt c d =
     (if flt OrdersSelect then Reply (reply 500 (PErr ''Database error''))
      else Reply (reply 200 (POrders (order_views (claim_user c) (tbl d)))))"

declare list_orders_def [handler_defs]

subsection \<open>Invariant of the order tables\<close>

text \<open>
  Order ids are distinct and below the counter, and every item row belongs to a
  stored order.
\<close>

definition orders_inv :: "db \<Rightarrow> bool" where
  "orders_inv d \<longleftrightarrow>
     distinct (map order_id (orders (tbl d))) \<and>
     (\<forall>k\<in>set (map order_id (orders (tbl d))). k < next_order d) \<and>
     (\<forall>i\<in>set (order_items (tbl d)). item_order i \<in> set (map order_id (orders (tbl d))))"

declare orders_inv_def [inv_defs]

subsection \<open>Properties\<close>

definition demo_ship :: shipping where
  "demo_ship = \<lparr>ship_name = ''Ann'', ship_email = ''a@x'', ship_address = ''1 Main St'',
     ship_city = ''Town'', ship_zip = ''12345'', ship_phone = ''555''\<rparr>"

definition demo_items :: "item_in list" where
  "demo_items = [\<lparr>in_book = 7, in_qty = 2, in_price = 999\<rparr>]"

lemmas demo_order_simps = demo_cart_simps demo_ship_def demo_items_def

lemma insert_order_simps [simp]:
  "snapshot (insert_order u amount ship now d) = snapshot d"
  "tbl (insert_order u amount ship now d) =
     (tbl d)\<lparr>orders := orders (tbl d) @ [new_order (next_order d) u amount ship now]\<rparr>"
  "next_order (insert_order u amount ship now d) = Suc (next_order d)"
  "next_user (insert_order u amount ship now d) = next_user d"
  "next_cart (insert_order u amount ship now d) = next_cart d"
  by (simp_all add: insert_order_def)

lemma insert_items_simps [simp]:
  "snapshot (insert_items rs d) = snapshot d"
  "tbl (insert_items rs d) = (tbl d)\<lparr>order_items := order_items (tbl d) @ rs\<rparr>"
  "next_order (insert_items rs d) = next_order d"
  "next_user (insert_items rs d) = next_user d"
  "next_cart (insert_items rs d) = next_cart d"
  by (simp_all add: insert_items_def)

lemma clear_cart_simps [simp]:
  "snapshot (clear_cart u d) = snapshot d"
  "tbl (clear_cart u d) = (tbl d)\<lparr>cart := delete_where (\<lambda>r. cart_user r = u) (cart (tbl d))\<rparr>"
  "next_order (clear_cart u d) = next_order d"
  "next_user (clear_cart u d) = next_user d"
  "next_cart (clear_cart u d) = next_cart d"
  by (simp_all add: clear_cart_def)

lemma order_views_mem:
  "ov \<in> set (order_views u t) \<Longrightarrow> ov_order ov \<in> set (orders t) \<and> order_user (ov_order ov) = u"
  by (auto simp: order_views_def newest_first_def)

lemma create_order_shape:
  assumes "create_order flt now c items amount ship d = (res, d')" and "snapshot d = None"
  shows "snapshot d' = None \<and> next_user d' = next_user d \<and> next_cart d' = next_cart d \<and>
         next_order d \<le> next_order d' \<and>
    ((res = Reply (reply 200 (POrderPlaced ''Order placed successfully'' (next_order d))) \<and>
      tbl d' = placed (claim_user c) (next_order d) items amount ship now (tbl d) \<and>
      next_order d' = Suc (next_order d)) \<or>
     (\<exists>msg. res = Reply (reply 500 (PErr msg)) \<and> tbl d' = tbl d))"
  using assms
  by (auto simp: create_order_def Let_def placed_def split: if_splits)

text \<open>
  C1: the order transaction is atomic. Started with no transaction open, every
  run of \<open>POST /api/orders\<close>, whichever statements fail, ends with no
  transaction open and either answers 200 with the new order id after the three
  writes of a placed order (order row, item rows, the user's cart deleted), or
  answers 500 with every table as it was.
\<close>

theorem create_order_atomic:
  assumes "create_order flt now c items amount ship d = (res, d')" and "snapshot d = None"
  shows "snapshot d' = None \<and>
    ((res = Reply (reply 200 (POrderPlaced ''Order placed successfully'' (next_order d))) \<and>
      tbl d' = placed (claim_user c) (next_order d) items amount ship now (tbl d)) \<or>
     (\<exists>msg. res = Reply (reply 500 (PErr msg)) \<and> tbl d' = tbl d))"
  using create_order_shape [OF assms] by blast

theorem create_order_atomic_witness:
  "snapshot (snd (create_order no_faults 10 claims1 demo_items 2198 demo_ship demo_cart_db)) = None \<and>
   ((fst (create_order no_faults 10 claims1 demo_items 2198 demo_ship demo_cart_db) =
       Reply (reply 200 (POrderPlaced ''Order placed successfully'' 1)) \<and>
     tbl (snd (create_order no_faults 10 claims1 demo_items 2198 demo_ship demo_cart_db)) =
       placed 1 1 demo_items 2198 demo_ship 10 (tbl demo_cart_db)) \<or>
    (\<exists>msg. fst (create_order no_faults 10 claims1 demo_items 2198 demo_ship demo_cart_db) =
       Reply (reply 500 (PErr msg)) \<and>
     tbl (snd (create_order no_faults 10 claims1 demo_items 2198 demo_ship demo_cart_db)) =
       tbl demo_cart_db))"
proof -
  obtain res d' where e: "create_order no_faults 10 claims1 demo_items 2198 demo_ship demo_cart_db
      = (res, d')" by fastforce
  have "snapshot demo_cart_db = None" "next_order demo_cart_db = 1" "claim_user claims1 = 1"
    by (simp_all add: demo_cart_simps)
  with create_order_atomic [OF e this(1)] e show ?thesis by simp
qed

text \<open>
  C2: when no statement fails and the item rows are insertable (at least one item,
  quantities within \<open>INT\<close>), the order is placed: the answer carries the next order
  id, the tables are those of \<open>placed\<close> (the prices stored are the ones the client
  sent, and the whole cart of the user is deleted), the counter advances and the
  transaction is closed.
\<close>

theorem create_order_success:
  assumes "\<not> flt TxBegin" "\<not> flt OrderInsert" "\<not> flt ItemsInsert" "\<not> flt CartClear"
    "\<not> flt TxCommit" and "items_insert_ok (item_rows (next_order d) items)"
  shows "create_order flt now c items amount ship d =
    (Reply (reply 200 (POrderPlaced ''Order placed successfully'' (next_order d))),
     d\<lparr>tbl := placed (claim_user c) (next_order d) items amount ship now (tbl d),
       next_order := Suc (next_order d), snapshot := None\<rparr>)"
  using assms
  by (simp add: create_order_def Let_def placed_def begin_tx_def commit_def insert_order_def
      insert_items_def clear_cart_def)

theorem create_order_success_witness:
  "create_order no_faults 10 claims1 demo_items 2198 demo_ship demo_cart_db =
    (Reply (reply 200 (POrderPlaced ''Order placed successfully'' 1)),
     demo_cart_db\<lparr>tbl := placed 1 1 demo_items 2198 demo_ship 10 (tbl demo_cart_db),
       next_order := 2, snapshot := None\<rparr>)"
proof -
  have "items_insert_ok (item_rows (next_order demo_cart_db) demo_items)"
    by (simp add: items_insert_ok_def item_rows_def demo_order_simps int_col_ok_def)
  from create_order_success [OF _ _ _ _ _ this, of no_faults 10 claims1 2198 demo_ship]
  show ?thesis by (simp add: demo_order_simps)
qed

text \<open>
  C23: an order with an empty item list is never placed: the \<open>VALUES\<close> list of
  the item insert is empty, the statement fails, and the transaction is rolled
  back, so the specification's zero-item orders cannot arise through this handler.
\<close>

theorem create_order_empty_items:
  assumes "create_order flt now c [] amount ship d = (res, d')" and "snapshot d = None"
  shows "(\<exists>msg. res = Reply (reply 500 (PErr msg))) \<and> tbl d' = tbl d \<and> snapshot d' = None"
  using assms
  by (auto simp: create_order_def Let_def items_insert_ok_def item_rows_def split: if_splits)

theorem create_order_empty_items_witness:
  "(\<exists>msg. fst (create_order no_faults 10 claims1 [] 0 demo_ship demo_cart_db) = Reply (reply 500 (PErr msg))) \<and>
   tbl (snd (create_order no_faults 10 claims1 [] 0 demo_ship demo_cart_db)) = tbl demo_cart_db \<and>
   snapshot (snd (create_order no_faults 10 claims1 [] 0 demo_ship demo_cart_db)) = None"
proof -
  obtain res d' where e: "create_order no_faults 10 claims1 [] 0 demo_ship demo_cart_db = (res, d')"
    by fastforce
  have "snapshot demo_cart_db = None" by (simp add: demo_cart_simps)
  from create_order_empty_items [OF e this] e show ?thesis by simp
qed

text \<open>
  C4: the order history does not depend on current book prices: changing the
  price of any book leaves every order and every item price shown by
  \<open>GET /api/orders\<close> unchanged (prices are the snapshots of \<open>order_items\<close>).
\<close>

theorem order_views_price_independent:
  "order_views u (t\<lparr>books := map (\<lambda>b. b\<lparr>book_price := f b\<rparr>) (books t)\<rparr>) = order_views u t"
  by (simp add: order_views_def order_item_views_def filter_map comp_def)

text \<open>
  C5: an order none of whose item rows joins with a stored book (for example an
  order with zero items) never appears in \<open>GET /api/orders\<close>: the inner joins
  drop it, while the specification requires every order to be listed.
\<close>

theorem order_views_drop_unjoined:
  assumes "\<forall>i\<in>set (order_items t). item_order i = order_id od \<longrightarrow> item_book i \<notin> book_id ` set (books t)"
  shows "od \<notin> ov_order ` set (order_views u t)"
proof -
  have "order_item_views t od = []"
    using assms by (force simp: order_item_views_def filter_empty_conv)
  then show ?thesis by (auto simp: order_views_def)
qed

theorem order_views_drop_unjoined_witness:
  "new_order 1 1 2198 demo_ship 10 \<notin> ov_order ` set (order_views 1
     (placed 1 1 [] 2198 demo_ship 10 (tbl demo_cart_db)))"
  by (rule order_views_drop_unjoined) (simp add: placed_def item_rows_def demo_order_simps)

text \<open>
  C22: \<open>GET /api/orders\<close> lists only stored orders of the caller, newest first.
\<close>

theorem list_orders_own_newest_first:
  assumes "list_orders flt c d = Reply r" and "payload r = POrders vs"
  shows "(\<forall>v\<in>set vs. order_user (ov_order v) = claim_user c \<and> ov_order v \<in> set (orders (tbl d))) \<and>
         sorted_wrt (\<lambda>a b. order_date (ov_order b) \<le> order_date (ov_order a)) vs"
proof -
  from assms have vs: "vs = order_views (claim_user c) (tbl d)"
    by (auto simp: list_orders_def split: if_splits)
  let ?os = "filter (\<lambda>od. order_user od = claim_user c) (orders (tbl d))"
  have "sorted (map (\<lambda>od. - int (order_date od)) (newest_first ?os))"
    by (simp add: newest_first_def)
  then have "sorted_wrt (\<lambda>a b. order_date b \<le> order_date a) (newest_first ?os)"
    by (simp add: sorted_map sorted_wrt_iff_nth_less)
  then have "sorted_wrt (\<lambda>a b. order_date b \<le> order_date a)
      (filter (\<lambda>od. order_item_views (tbl d) od \<noteq> []) (newest_first ?os))"
    by (rule sorted_wrt_filter)
  then show ?thesis
    by (auto simp: vs order_views_def sorted_wrt_map newest_first_def)
qed

theorem list_orders_own_newest_first_witness:
  "order_user (ov_order (hd (order_views 1 (placed 1 1 demo_items 2198 demo_ship 10 (tbl demo_cart_db))))) = 1 \<and>
   ov_order (hd (order_views 1 (placed 1 1 demo_items 2198 demo_ship 10 (tbl demo_cart_db))))
     = new_order 1 1 2198 demo_ship 10"
proof -
  let ?t = "placed 1 1 demo_items 2198 demo_ship 10 (tbl demo_cart_db)"
  let ?d = "demo_cart_db\<lparr>tbl := ?t\<rparr>"
  have vs: "order_views 1 ?t =
      [\<lparr>ov_order = new_order 1 1 2198 demo_ship 10,
        ov_items = [\<lparr>iv_title = ''Dune'', iv_qty = 2, iv_price = 999\<rparr>]\<rparr>]"
    by (simp add: order_views_def order_item_views_def newest_first_def placed_def item_rows_def
        new_order_def demo_order_simps)
  have l: "list_orders no_faults claims1 ?d = Reply (reply 200 (POrders (order_views 1 ?t)))"
    by (simp add: list_orders_def claims1_def)
  from list_orders_own_newest_first [OF l] vs show ?thesis by (simp add: claims1_def)
qed

lemma create_order_orders_inv:
  assumes "orders_inv d" and "snapshot d = None"
    and "create_order flt now c items amount ship d = (res, d')"
  shows "orders_inv d'"
proof -
  note sh = create_order_shape [OF assms(3,2)]
  show ?thesis
  proof (cases "tbl d' = tbl d")
    case True
    with sh assms(1) show ?thesis by (auto simp: orders_inv_def)
  next
    case False
    with sh have t: "tbl d' = placed (claim_user c) (next_order d) items amount ship now (tbl d)"
      and n: "next_order d' = Suc (next_order d)" by auto
    from assms(1) have fresh: "next_order d \<notin> set (map order_id (orders (tbl d)))"
      by (auto simp: orders_inv_def)
    with assms(1) t n show ?thesis
      by (auto simp: orders_inv_def placed_def new_order_def item_rows_def less_Suc_eq)
  qed
qed

end
