(* ===== verification/Server.thy ===== *)
theory Server
  imports Catalog Orders
begin

text \<open>
  The Express application of \<open>src/server/index.js\<close> as one step function: the
  routes, the \<open>authenticateToken\<close> middleware in front of the protected ones,
  the database a deployment starts from, the states reachable by any sequence of
  requests, and the invariant every reachable state satisfies.
\<close>

section \<open>The server as one step function\<close>

text \<open>
  The routes of \<open>src/server/index.js\<close>: the two public ones that write or read
  users, the catalog, and the protected ones behind \<open>authenticateToken\<close>.
\<close>

datatype request =
    Register string string string
  | Login string string
  | GetBooks
  | GetBook book_key
  | AddCart book_key int
  | GetCart
  | UpdateCart cart_key int
  | DeleteCart cart_key
  | PlaceOrder "item_in list" cents shipping
  | GetOrders
  | ChangePassword string string
  | GetProfile

text \<open>The middleware runs first; a rejected request reaches no handler.\<close>

definition with_auth ::
  "libs \<Rightarrow> timestamp \<Rightarrow> string option \<Rightarrow> db \<Rightarrow> (claims \<Rightarrow> outcome \<times> db) \<Rightarrow> outcome \<times> db" where
  "with_auth L now h d k =
     (case authenticate_token L now h of Inl r \<Rightarrow> (Reply r, d) | Inr c \<Rightarrow> k c)"

fun serve :: "libs \<Rightarrow> faults \<Rightarrow> timestamp \<Rightarrow> string option \<Rightarrow> request \<Rightarrow> db \<Rightarrow> outcome \<times> db" where
  "serve L flt now h (Register n e p) d = register L flt now n e p d"
| "serve L flt now h (Login e p) d = (login L flt now e p d, d)"
| "serve L flt now h GetBooks d = (get_books flt d, d)"
| "serve L flt now h (GetBook i) d = (get_book flt i d, d)"
| "serve L flt now h (AddCart b q) d = with_auth L now h d (\<lambda>c. add_to_cart flt c b q d)"
| "serve L flt now h GetCart d = with_auth L now h d (\<lambda>c. (get_cart flt c d, d))"
| "serve L flt now h (UpdateCart i q) d = with_auth L now h d (\<lambda>c. update_cart flt c i q d)"
| "serve L flt now h (DeleteCart i) d = with_auth L now h d (\<lambda>c. delete_cart flt c i d)"
| "serve L flt now h (PlaceOrder its amt sh) d =
     with_auth L now h d (\<lambda>c. create_order flt now c its amt sh d)"
| "serve L flt now h GetOrders d = with_auth L now h d (\<lambda>c. (list_orders flt c d, d))"
| "serve L flt now h (ChangePassword cur new) d =
     with_auth L now h d (\<lambda>c. change_password L flt c cur new d)"
| "serve L flt now h GetProfile d = with_auth L now h d (\<lambda>c. (profile_get flt c d, d))"

text \<open>
  The database a deployment starts from: the catalog loaded, every other table
  empty, no transaction open.
\<close>

definition initial_db :: "book_row list \<Rightarrow> db" where
  "initial_db bs = empty_db\<lparr>tbl := empty_tables\<lparr>books := bs\<rparr>\<rparr>"

inductive reachable :: "libs \<Rightarrow> book_row list \<Rightarrow> db \<Rightarrow> bool" for L bs where
  start: "reachable L bs (initial_db bs)"
| step: "reachable L bs d \<Longrightarrow> serve L flt now h rq d = (res, d') \<Longrightarrow> reachable L bs d'"

definition db_inv :: "db \<Rightarrow> bool" where
  "db_inv d \<longleftrightarrow> users_inv d \<and> cart_inv d \<and> orders_inv d \<and> snapshot d = None"

section \<open>The database invariant\<close>

lemma users_inv_cong:
  "users (tbl d') = users (tbl d) \<Longrightarrow> next_user d' = next_user d \<Longrightarrow> users_inv d' = users_inv d"
  by (simp add: users_inv_def)

lemma cart_inv_cong:
  "cart (tbl d') = cart (tbl d) \<Longrightarrow> next_cart d' = next_cart d \<Longrightarrow> cart_inv d' = cart_inv d"
  by (simp add: cart_inv_def)

lemma orders_inv_cong:
  "orders (tbl d') = orders (tbl d) \<Longrightarrow> order_items (tbl d') = order_items (tbl d) \<Longrightarrow>
   next_order d' = next_order d \<Longrightarrow> orders_inv d' = orders_inv d"
  by (simp add: orders_inv_def)

lemma register_frame:
  "register L flt now n e p d = (res, d') \<Longrightarrow>
   cart (tbl d') = cart (tbl d) \<and> orders (tbl d') = orders (tbl d) \<and>
   order_items (tbl d') = order_items (tbl d) \<and> next_cart d' = next_cart d \<and>
   next_order d' = next_order d \<and> snapshot d' = snapshot d"
  by (auto simp: register_def insert_user_def Let_def split: if_splits)

lemma change_password_frame:
  "change_password L flt c cur new d = (res, d') \<Longrightarrow>
   cart (tbl d') = cart (tbl d) \<and> orders (tbl d') = orders (tbl d) \<and>
   order_items (tbl d') = order_items (tbl d) \<and> next_cart d' = next_cart d \<and>
   next_order d' = next_order d \<and> snapshot d' = snapshot d"
  by (auto simp: change_password_def set_password_def Let_def split: if_splits option.splits)

lemma cart_ops_frame:
  "users (tbl (set_cart_qty i q d)) = users (tbl d) \<and> orders (tbl (set_cart_qty i q d)) = orders (tbl d) \<and>
   order_items (tbl (set_cart_qty i q d)) = order_items (tbl d) \<and>
   next_user (set_cart_qty i q d) = next_user d \<and> next_order (set_cart_qty i q d) = next_order d"
  "users (tbl (insert_cart u b q d)) = users (tbl d) \<and> orders (tbl (insert_cart u b q d)) = orders (tbl d) \<and>
   order_items (tbl (insert_cart u b q d)) = order_items (tbl d) \<and>
   next_user (insert_cart u b q d) = next_user d \<and> next_order (insert_cart u b q d) = next_order d \<and>
   snapshot (insert_cart u b q d) = snapshot d"
  "users (tbl (delete_cart_line i d)) = users (tbl d) \<and> orders (tbl (delete_cart_line i d)) = orders (tbl d) \<and>
   order_items (tbl (delete_cart_line i d)) = order_items (tbl d) \<and>
   next_user (delete_cart_line i d) = next_user d \<and> next_order (delete_cart_line i d) = next_order d \<and>
   snapshot (delete_cart_line i d) = snapshot d"
  by (simp_all add: set_cart_qty_def insert_cart_def delete_cart_line_def)

lemma add_to_cart_frame:
  "add_to_cart flt c b q d = (res, d') \<Longrightarrow>
   users (tbl d') = users (tbl d) \<and> orders (tbl d') = orders (tbl d) \<and>
   order_items (tbl d') = order_items (tbl d) \<and> next_user d' = next_user d \<and>
   next_order d' = next_order d \<and> snapshot d' = snapshot d"
  by (auto simp: add_to_cart_def Let_def cart_ops_frame split: if_splits option.splits)

lemma update_cart_frame:
  "update_cart flt c i q d = (res, d') \<Longrightarrow>
   users (tbl d') = users (tbl d) \<and> orders (tbl d') = orders (tbl d) \<and>
   order_items (tbl d') = order_items (tbl d) \<and> next_user d' = next_user d \<and>
   next_order d' = next_order d \<and> snapshot d' = snapshot d"
  by (auto simp: update_cart_def cart_ops_frame split: if_splits)

lemma delete_cart_frame:
  "delete_cart flt c i d = (res, d') \<Longrightarrow>
   users (tbl d') = users (tbl d) \<and> orders (tbl d') = orders (tbl d) \<and>
   order_items (tbl d') = order_items (tbl d) \<and> next_user d' = next_user d \<and>
   next_order d' = next_order d \<and> snapshot d' = snapshot d"
  by (auto simp: delete_cart_def cart_ops_frame split: if_splits)

lemma create_order_db_inv:
  assumes "db_inv d" and "create_order flt now c items amt ship d = (res, d')"
  shows "db_inv d'"
proof -
  from assms(1) have sn: "snapshot d = None" by (simp add: db_inv_def)
  note sh = create_order_shape [OF assms(2) sn]
  have "orders_inv d'" using create_order_orders_inv assms sn by (auto simp: db_inv_def)
  moreover have "users_inv d'"
  proof (cases "tbl d' = tbl d")
    case True
    with sh assms(1) show ?thesis using users_inv_cong [of d' d] by (simp add: db_inv_def)
  next
    case False
    with sh assms(1) show ?thesis using users_inv_cong [of d' d] by (auto simp: db_inv_def placed_def)
  qed
  moreover have "cart_inv d'"
  proof (cases "tbl d' = tbl d")
    case True
    with sh assms(1) show ?thesis using cart_inv_cong [of d' d] by (simp add: db_inv_def)
  next
    case False
    with sh have "tbl d' = placed (claim_user c) (next_order d) items amt ship now (tbl d)" by auto
    with sh assms(1) show ?thesis by (auto simp: db_inv_def cart_inv_def placed_def)
  qed
  ultimately show ?thesis using sh by (simp add: db_inv_def)
qed

lemma db_inv_users_step:
  assumes "db_inv d" and "users_inv d'"
    and "cart (tbl d') = cart (tbl d) \<and> orders (tbl d') = orders (tbl d) \<and>
         order_items (tbl d') = order_items (tbl d) \<and> next_cart d' = next_cart d \<and>
         next_order d' = next_order d \<and> snapshot d' = snapshot d"
  shows "db_inv d'"
proof -
  from assms(3) have "cart_inv d' = cart_inv d" "orders_inv d' = orders_inv d"
    by (intro cart_inv_cong orders_inv_cong; simp)+
  with assms show ?thesis by (simp add: db_inv_def)
qed

lemma db_inv_cart_step:
  assumes "db_inv d" and "cart_inv d'"
    and "users (tbl d') = users (tbl d) \<and> orders (tbl d') = orders (tbl d) \<and>
         order_items (tbl d') = order_items (tbl d) \<and> next_user d' = next_user d \<and>
         next_order d' = next_order d \<and> snapshot d' = snapshot d"
  shows "db_inv d'"
proof -
  from assms(3) have "users_inv d' = users_inv d" "orders_inv d' = orders_inv d"
    by (intro users_inv_cong orders_inv_cong; simp)+
  with assms show ?thesis by (simp add: db_inv_def)
qed

lemma register_db_inv:
  assumes "db_inv d" and "register L flt now n e p d = (res, d')"
  shows "db_inv d'"
proof -
  from assms(1) have "users_inv d" by (simp add: db_inv_def)
  from register_preserves_users_inv [OF this assms(2)] have i: "users_inv d'" .
  show ?thesis by (rule db_inv_users_step [OF assms(1) i register_frame [OF assms(2)]])
qed

lemma change_password_db_inv:
  assumes "db_inv d" and "change_password L flt c cur new d = (res, d')"
  shows "db_inv d'"
proof -
  from assms(1) have "users_inv d" by (simp add: db_inv_def)
  from change_password_preserves_users_inv [OF this assms(2)] have i: "users_inv d'" .
  show ?thesis by (rule db_inv_users_step [OF assms(1) i change_password_frame [OF assms(2)]])
qed

lemma add_to_cart_db_inv:
  assumes "db_inv d" and "add_to_cart flt c b q d = (res, d')"
  shows "db_inv d'"
proof -
  from assms(1) have "cart_inv d" by (simp add: db_inv_def)
  from add_to_cart_cart_inv [OF this assms(2)] have i: "cart_inv d'" .
  show ?thesis by (rule db_inv_cart_step [OF assms(1) i add_to_cart_frame [OF assms(2)]])
qed

lemma update_cart_db_inv:
  assumes "db_inv d" and "update_cart flt c i q d = (res, d')"
  shows "db_inv d'"
proof -
  from assms(1) have "cart_inv d" by (simp add: db_inv_def)
  from update_cart_cart_inv [OF this assms(2)] have i: "cart_inv d'" .
  show ?thesis by (rule db_inv_cart_step [OF assms(1) i update_cart_frame [OF assms(2)]])
qed

lemma delete_cart_db_inv:
  assumes "db_inv d" and "delete_cart flt c i d = (res, d')"
  shows "db_inv d'"
proof -
  from assms(1) have "cart_inv d" by (simp add: db_inv_def)
  from delete_cart_cart_inv [OF this assms(2)] have i: "cart_inv d'" .
  show ?thesis by (rule db_inv_cart_step [OF assms(1) i delete_cart_frame [OF assms(2)]])
qed

lemma with_auth_db_inv:
  assumes "with_auth L now h d k = (res, d')" and "db_inv d"
    and "\<And>c res' d''. k c = (res', d'') \<Longrightarrow> db_inv d''"
  shows "db_inv d'"
proof (cases "authenticate_token L now h")
  case (Inl r)
  with assms(1,2) show ?thesis by (simp add: with_auth_def)
next
  case (Inr c)
  with assms(1) have "k c = (res, d')" by (simp add: with_auth_def)
  then show ?thesis by (rule assms(3))
qed

lemma serve_db_inv:
  assumes "db_inv d" and "serve L flt now h rq d = (res, d')"
  shows "db_inv d'"
  using assms(2)
proof (cases rq)
  case (Register n e p)
  with assms(2) show ?thesis by (simp add: register_db_inv [OF assms(1)])
next
  case (AddCart b q)
  with assms(2) show ?thesis
    by (auto elim: with_auth_db_inv [OF _ assms(1)] intro: add_to_cart_db_inv [OF assms(1)])
next
  case (UpdateCart i q)
  with assms(2) show ?thesis
    by (auto elim: with_auth_db_inv [OF _ assms(1)] intro: update_cart_db_inv [OF assms(1)])
next
  case (DeleteCart i)
  with assms(2) show ?thesis
    by (auto elim: with_auth_db_inv [OF _ assms(1)] intro: delete_cart_db_inv [OF assms(1)])
next
  case (PlaceOrder its amt sh)
  with assms(2) show ?thesis
    by (auto elim: with_auth_db_inv [OF _ assms(1)] intro: create_order_db_inv [OF assms(1)])
next
  case (ChangePassword cur new)
  with assms(2) show ?thesis
    by (auto elim: with_auth_db_inv [OF _ assms(1)] intro: change_password_db_inv [OF assms(1)])
qed (use assms in \<open>auto elim: with_auth_db_inv\<close>)

text \<open>
  C8: in every state the server can reach from its initial database, whatever the
  requests, headers, times and failed statements on the way, the database invariant
  holds: user ids and emails are unique, there is at most one cart line per user
  and book, cart and order ids are fresh and unique, every item row belongs to a
  stored order, and no transaction is left open.
\<close>

theorem reachable_db_inv: "reachable L bs d \<Longrightarrow> db_inv d"
proof (induction rule: reachable.induct)
  case start
  show ?case
    by (simp add: db_inv_def users_inv_def cart_inv_def orders_inv_def initial_db_def
        empty_db_def empty_tables_def)
next
  case (step d flt now h rq res d')
  from step.IH step.hyps(2) show ?case by (rule serve_db_inv)
qed

theorem reachable_db_inv_witness:
  "db_inv (snd (serve demo_libs no_faults 0 None (Register ''Ann'' ''a@x'' ''pw'') (initial_db [demo_book])))"
proof -
  obtain res d' where e: "serve demo_libs no_faults 0 None (Register ''Ann'' ''a@x'' ''pw'')
      (initial_db [demo_book]) = (res, d')" by fastforce
  have "reachable demo_libs [demo_book] d'"
    by (rule reachable.step [OF reachable.start e])
  from reachable_db_inv [OF this] e show ?thesis by simp
qed

end
