(* ===== verification/Session.thy ===== *)
theory Session
  imports Auth
begin

text \<open>
  The client's session state, \<open>src/client/src/context/AuthContext.jsx\<close>: the
  React state \<open>token\<close>, \<open>user\<close> and \<open>cartCount\<close>, the \<open>localStorage\<close>
  entry \<open>token\<close>, and the default \<open>Authorization\<close> header of the global axios
  client, which every later request carries. Each function of the context is a
  transition of this state, given the server's answer where it waits for one
  (axios rejects every non-2xx answer, which the \<open>catch\<close> branches handle).
\<close>

record session =
  s_token :: "string option"
  s_user :: "user_pub option"
  s_cart_count :: int
  s_storage :: "string option"
  s_header :: "string option"

definition bearer :: "string \<Rightarrow> string" where
  "bearer tok = ''Bearer '' @ tok"

text \<open>\<open>isAuthenticated: !!token\<close>.\<close>

definition is_authenticated :: "session \<Rightarrow> bool" where
  "is_authenticated s \<longleftrightarrow> s_token s \<noteq> None"

text \<open>The provider mounts with the token read from \<open>localStorage\<close>.\<close>

definition session_init :: "string option \<Rightarrow> session" where
  "session_init st =
     \<lparr>s_token = st, s_user = None, s_cart_count = 0, s_storage = st, s_header = None\<rparr>"

definition ok_status :: "response \<Rightarrow> bool" where
  "ok_status r \<longleftrightarrow> 200 \<le> status r \<and> status r < 300"

text \<open>
  \<open>logout\<close>: clear the stored token, the state and the default header.
\<close>

definition logout :: "session \<Rightarrow> session" where
  "logout s = s\<lparr>s_storage := None, s_token := None, s_user := None, s_cart_count := 0,
                s_header := None\<rparr>"

text \<open>
  \<open>login(email, password)\<close> after the answer of \<open>POST /api/login\<close>: on success
  store the token, set the state and the default header and the user; on failure
  remove the stored token and the default header, and return the server's error
  message or the fixed one. The \<open>token\<close> state is left as it was on failure.
\<close>

definition login_answer :: "session \<Rightarrow> response \<Rightarrow> session \<times> (bool \<times> string)" where
  "login_answer s r =
     (case payload r of
        PLogin m tok u \<Rightarrow>
          if ok_status r
          then (s\<lparr>s_storage := Some tok, s_token := Some tok, s_header := Some (bearer tok),
                   s_user := Some u\<rparr>, (True, ''''))
          else (s\<lparr>s_storage := None, s_header := None\<rparr>, (False, ''Login failed. Please check your credentials.''))
      | PErr e \<Rightarrow> (s\<lparr>s_storage := None, s_header := None\<rparr>, (False, e))
      | _ \<Rightarrow> (s\<lparr>s_storage := None, s_header := None\<rparr>,
              (False, ''Login failed. Please check your credentials.'')))"

text \<open>
  \<open>fetchCartCount\<close> after the answer of \<open>GET /api/cart\<close>: without a token
  nothing happens; otherwise the count becomes the sum of the quantities of the
  rows, or 0 when the request failed.
\<close>

definition fetch_cart_count :: "session \<Rightarrow> response \<Rightarrow> session" where
  "fetch_cart_count s r =
     (if s_token s = None then s
      else case payload r of
             PCart vs \<Rightarrow>
               if ok_status r then s\<lparr>s_cart_count := foldl (\<lambda>n v. n + cv_qty v) 0 vs\<rparr>
               else s\<lparr>s_cart_count := 0\<rparr>
           | _ \<Rightarrow> s\<lparr>s_cart_count := 0\<rparr>)"

definition update_cart_count :: "int \<Rightarrow> session \<Rightarrow> session" where
  "update_cart_count ch s = s\<lparr>s_cart_count := max 0 (s_cart_count s + ch)\<rparr>"

definition reset_cart_count :: "session \<Rightarrow> session" where
  "reset_cart_count s = s\<lparr>s_cart_count := 0\<rparr>"

text \<open>
  The effect on \<open>[token]\<close>: with a token, set the default header and fetch the
  profile; its answer sets the user (and the cart count is fetched next), a failure
  logs out. Without a token the count is reset.
\<close>

definition profile_answer :: "session \<Rightarrow> response \<Rightarrow> session" where
  "profile_answer s r =
     (case payload r of
        PProfile p \<Rightarrow>
          if ok_status r
          then s\<lparr>s_user := Some \<lparr>pub_id = prof_id p, pub_name = prof_name p, pub_email = prof_email p\<rparr>\<rparr>
          else logout s
      | _ \<Rightarrow> if ok_status r then s\<lparr>s_user := None\<rparr> else logout s)"

definition token_effect :: "session \<Rightarrow> session" where
  "token_effect s =
     (case s_token s of
        None \<Rightarrow> s\<lparr>s_cart_count := 0\<rparr>
      | Some t \<Rightarrow> s\<lparr>s_header := Some (bearer t)\<rparr>)"

text \<open>The events of the provider, one per function or effect of the context.\<close>

datatype session_event =
    LoginAnswer response
  | Logout
  | FetchCount response
  | UpdateCount int
  | ResetCount
  | ProfileAnswer response
  | TokenEffect

fun session_step :: "session \<Rightarrow> session_event \<Rightarrow> session" where
  "session_step s (LoginAnswer r) = fst (login_answer s r)"
| "session_step s Logout = logout s"
| "session_step s (FetchCount r) = fetch_cart_count s r"
| "session_step s (UpdateCount ch) = update_cart_count ch s"
| "session_step s ResetCount = reset_cart_count s"
| "session_step s (ProfileAnswer r) = profile_answer s r"
| "session_step s TokenEffect = token_effect s"

subsection \<open>Properties\<close>

text \<open>The guard's rejections (401, 403) are never a 2xx answer.\<close>

lemma guard_reply_not_ok: "authenticate_token L now h = Inl r \<Longrightarrow> \<not> ok_status r"
  by (auto simp: authenticate_token_def ok_status_def reply_def split: option.splits)

text \<open>
  The session is consistent when the stored token is the token of the state and the
  default header carries exactly that token.
\<close>

definition consistent :: "session \<Rightarrow> bool" where
  "consistent s \<longleftrightarrow> s_storage s = s_token s \<and> s_header s = map_option bearer (s_token s)"

definition login_ok :: "response \<Rightarrow> bool" where
  "login_ok r \<longleftrightarrow> (case payload r of PLogin _ _ _ \<Rightarrow> ok_status r | _ \<Rightarrow> False)"

definition failed_login :: "session_event \<Rightarrow> bool" where
  "failed_login e \<longleftrightarrow> (case e of LoginAnswer r \<Rightarrow> \<not> login_ok r | _ \<Rightarrow> False)"

lemma login_answer_result: "fst (snd (login_answer s r)) \<longleftrightarrow> login_ok r"
  by (auto simp: login_answer_def login_ok_def split: payload.splits)

lemma login_answer_fail_state:
  "\<not> login_ok r \<Longrightarrow> fst (login_answer s r) = s\<lparr>s_storage := None, s_header := None\<rparr>"
  by (auto simp: login_answer_def login_ok_def split: payload.splits if_splits)

text \<open>
  C24: every function of the auth context keeps the stored token, the token state
  and the default \<open>Authorization\<close> header in agreement, except a failed login,
  which removes the stored token and the header but keeps the token state.
\<close>

theorem session_step_consistent:
  "consistent s \<Longrightarrow> \<not> failed_login e \<Longrightarrow> consistent (session_step s e)"
proof (cases e)
  case (LoginAnswer r)
  assume c: "consistent s" and nf: "\<not> failed_login e"
  with LoginAnswer have "login_ok r" by (simp add: failed_login_def)
  then show ?thesis using LoginAnswer
    by (auto simp: login_answer_def login_ok_def consistent_def split: payload.splits if_splits)
next
  case (ProfileAnswer r)
  then show "consistent s \<Longrightarrow> \<not> failed_login e \<Longrightarrow> ?thesis"
    by (auto simp: profile_answer_def logout_def consistent_def split: payload.splits)
qed (auto simp: consistent_def logout_def fetch_cart_count_def update_cart_count_def
    reset_cart_count_def token_effect_def split: payload.splits option.splits)

lemma foldl_qty_nonneg:
  "0 \<le> n \<Longrightarrow> \<forall>v\<in>set vs. 0 \<le> cv_qty v \<Longrightarrow> 0 \<le> foldl (\<lambda>n v. n + cv_qty v) n vs"
  by (induction vs arbitrary: n) auto

definition count_ok :: "session_event \<Rightarrow> bool" where
  "count_ok e \<longleftrightarrow> (case e of FetchCount r \<Rightarrow>
      (case payload r of PCart vs \<Rightarrow> \<forall>v\<in>set vs. 0 \<le> cv_qty v | _ \<Rightarrow> True) | _ \<Rightarrow> True)"

text \<open>
  The cart count of the navigation bar stays non-negative under every event,
  as long as the cart rows the server returns have non-negative quantities;
  \<open>updateCartCount\<close> clamps at 0 but \<open>fetchCartCount\<close> sums whatever the
  server sends.
\<close>

theorem session_count_nonneg:
  "0 \<le> s_cart_count s \<Longrightarrow> count_ok e \<Longrightarrow> 0 \<le> s_cart_count (session_step s e)"
  by (cases e)
    (auto simp: count_ok_def login_answer_def logout_def fetch_cart_count_def
      update_cart_count_def reset_cart_count_def profile_answer_def token_effect_def
      foldl_qty_nonneg split: payload.splits option.splits)

definition demo_login_answer :: response where
  "demo_login_answer = reply 200 (PLogin ''Login successful'' ''tok''
     \<lparr>pub_id = 1, pub_name = ''Ann'', pub_email = ''a@x''\<rparr>)"

theorem session_step_consistent_witness:
  "consistent (session_step (session_init None) (LoginAnswer demo_login_answer))"
proof (rule session_step_consistent)
  show "consistent (session_init None)" by (simp add: consistent_def session_init_def)
  show "\<not> failed_login (LoginAnswer demo_login_answer)"
    by (simp add: failed_login_def login_ok_def demo_login_answer_def ok_status_def)
qed

theorem session_count_nonneg_witness:
  "0 \<le> s_cart_count (session_step (session_init (Some ''tok''))
      (FetchCount (reply 200 (PCart [\<lparr>cv_id = 1, cv_user = 1, cv_book = 7, cv_qty = 2,
         cv_title = ''Dune'', cv_author = ''Herbert'', cv_price = 999, cv_image = ''img''\<rparr>]))))"
  by (rule session_count_nonneg) (simp_all add: session_init_def count_ok_def)

end
