(* ===== verification/Forms.thy ===== *)
theory Forms
  imports Server Session
begin

text \<open>
  The login and signup forms, \<open>src/client/src/components/login.jsx\<close> and
  \<open>signup.jsx\<close>, with the two functions of \<open>AuthContext.jsx\<close> they call
  (\<open>login\<close>, \<open>signup\<close>) run against the server's step function, and the
  navigation bar \<open>navbar.jsx\<close> as a view of the session. A submission is one
  call of \<open>handleSubmit\<close>: the form's checks, the request, and what the form
  does with the answer (navigate, or show an error). The \<open>required\<close> attributes
  make the browser refuse a submission with an empty field before
  \<open>handleSubmit\<close> runs; the handlers' own checks are modelled, with the same
  effect of sending nothing. The browser's \<open>type="email"\<close> check is not
  modelled: the model sends a request for every non-empty address, a superset of
  what a browser sends.
\<close>

section \<open>Calls of the auth context\<close>

text \<open>
  \<open>login(email, password)\<close> (lines 53-87): the answer goes through
  \<open>login_answer\<close>; when the server gives no answer the \<open>catch\<close> also clears the
  stored token and the header and returns the fixed message.
\<close>

definition login_call ::
  "libs \<Rightarrow> faults \<Rightarrow> timestamp \<Rightarrow> session \<Rightarrow> string \<Rightarrow> string \<Rightarrow> db \<Rightarrow> session \<times> (bool \<times> string)" where
  "login_call L flt now s email password d =
     (case fst (serve L flt now (s_header s) (Login email password) d) of
        Reply r \<Rightarrow> login_answer s r
      | Crash _ \<Rightarrow> (s\<lparr>s_storage := None, s_header := None\<rparr>,
                   (False, ''Login failed. Please check your credentials.'')))"

text \<open>
  \<open>signup(name, email, password)\<close> (lines 89-106): \<open>POST /api/register\<close>;
  success carries the server's message, failure its error or the fixed one.
\<close>

definition signup_call ::
  "libs \<Rightarrow> faults \<Rightarrow> timestamp \<Rightarrow> session \<Rightarrow> string \<Rightarrow> string \<Rightarrow> string \<Rightarrow> db \<Rightarrow> (bool \<times> string) \<times> db" where
  "signup_call L flt now s name email password d =
     (case serve L flt now (s_header s) (Register name email password) d of
        (Reply r, d') \<Rightarrow>
          (if ok_status r
           then (True, (case payload r of PRegistered m _ \<Rightarrow> m | _ \<Rightarrow> []))
           else (False, (case payload r of PErr e \<Rightarrow> e | _ \<Rightarrow> ''Signup failed. Please try again.'')), d')
      | (Crash _, d') \<Rightarrow> ((False, ''Signup failed. Please try again.''), d'))"

text \<open>
  \<open>changePassword(currentPassword, newPassword)\<close> (lines 116-131):
  \<open>PUT /api/users/password\<close> with the session's header; success on a 2xx
  answer, otherwise the server's error (an empty one counts as missing) or the
  fixed message.
\<close>

definition change_password_call ::
  "libs \<Rightarrow> faults \<Rightarrow> timestamp \<Rightarrow> session \<Rightarrow> string \<Rightarrow> string \<Rightarrow> db \<Rightarrow> (bool \<times> string) \<times> db" where
  "change_password_call L flt now s cur new d =
     (case serve L flt now (s_header s) (ChangePassword cur new) d of
        (Reply r, d') \<Rightarrow>
          (if ok_status r then (True, [])
           else (False, (case payload r of PErr e \<Rightarrow> if e = [] then ''Password change failed'' else e
                                         | _ \<Rightarrow> ''Password change failed'')), d')
      | (Crash _, d') \<Rightarrow> ((False, ''Password change failed''), d'))"

section \<open>The forms\<close>

datatype form_result = FormError string | NavigateTo string

record login_form =
  lf_email :: string
  lf_password :: string

datatype login_field = LEmail | LPassword

text \<open>\<open>handleChange\<close> of \<open>login.jsx\<close> (lines 17-22): the input's \<open>name\<close> selects the field.\<close>

fun login_change :: "login_form \<Rightarrow> login_field \<Rightarrow> string \<Rightarrow> login_form" where
  "login_change f LEmail v = f\<lparr>lf_email := v\<rparr>"
| "login_change f LPassword v = f\<lparr>lf_password := v\<rparr>"

text \<open>\<open>handleSubmit\<close> of \<open>login.jsx\<close> (lines 24-52).\<close>

definition login_submit ::
  "libs \<Rightarrow> faults \<Rightarrow> timestamp \<Rightarrow> session \<Rightarrow> login_form \<Rightarrow> db \<Rightarrow> session \<times> form_result" where
  "login_submit L flt now s f d =
     (if lf_email f = [] \<or> lf_password f = [] then (s, FormError ''Please fill in all fields'')
      else
        let (s', (ok, err)) = login_call L flt now s (lf_email f) (lf_password f) d in
        if ok then (s', NavigateTo ''/'')
        else (s', FormError (if err = [] then ''Invalid email or password'' else err)))"

record signup_form =
  sf_name :: string
  sf_email :: string
  sf_password :: string
  sf_confirm :: string

datatype signup_field = SName | SEmail | SPassword | SConfirm

text \<open>\<open>handleChange\<close> of \<open>signup.jsx\<close> (lines 19-24): the input's \<open>id\<close> selects the field.\<close>

fun signup_change :: "signup_form \<Rightarrow> signup_field \<Rightarrow> string \<Rightarrow> signup_form" where
  "signup_change f SName v = f\<lparr>sf_name := v\<rparr>"
| "signup_change f SEmail v = f\<lparr>sf_email := v\<rparr>"
| "signup_change f SPassword v = f\<lparr>sf_password := v\<rparr>"
| "signup_change f SConfirm v = f\<lparr>sf_confirm := v\<rparr>"

text \<open>
  \<open>handleSubmit\<close> of \<open>signup.jsx\<close> (lines 26-52): the confirmation must match
  and the password must have at least six characters (\<open>length\<close> counts UTF-16
  code units; characters are bytes here), then \<open>signup\<close>; success alerts and
  navigates to the login page.
\<close>

definition signup_submit ::
  "libs \<Rightarrow> faults \<Rightarrow> timestamp \<Rightarrow> session \<Rightarrow> signup_form \<Rightarrow> db \<Rightarrow> form_result \<times> db" where
  "signup_submit L flt now s f d =
     (if sf_password f \<noteq> sf_confirm f then (FormError ''Passwords do not match'', d)
      else if length (sf_password f) < 6 then (FormError ''Password must be at least 6 characters'', d)
      else
        let ((ok, msg), d') = signup_call L flt now s (sf_name f) (sf_email f) (sf_password f) d in
        if ok then (NavigateTo ''/login'', d') else (FormError msg, d'))"

section \<open>The navigation bar\<close>

datatype nav_right = ProfileButton "string option" "(string \<times> string) option" | LoginSignupLinks

record nav_view =
  nv_links :: "string list"
  nv_badge :: "int option"
  nv_right :: nav_right

text \<open>
  What \<open>NavBar\<close> renders (lines 41-103) for a session and the
  \<open>showProfileMenu\<close> state: "My Orders" only when authenticated, the count as a
  badge only when positive, the user's name and the dropdown or the two links.
\<close>

definition nav_render :: "session \<Rightarrow> bool \<Rightarrow> nav_view" where
  "nav_render s menu =
     \<lparr>nv_links = [''Browse'', ''Cart''] @ (if is_authenticated s then [''My Orders''] else []),
      nv_badge = (if 0 < s_cart_count s then Some (s_cart_count s) else None),
      nv_right =
        (if is_authenticated s
         then ProfileButton (map_option pub_name (s_user s))
                (if menu then Some (case s_user s of None \<Rightarrow> ([], []) | Some u \<Rightarrow> (pub_name u, pub_email u))
                 else None)
         else LoginSignupLinks)\<rparr>"

text \<open>\<open>handleBrowseClick\<close> (lines 19-21) and \<open>handleProfileClick\<close> (lines 31-33).\<close>

definition nav_browse_target :: string where
  "nav_browse_target = ''/''"

definition nav_profile_click :: "bool \<Rightarrow> bool" where
  "nav_profile_click menu = (\<not> menu)"

text \<open>\<open>handleCartClick\<close> (lines 23-29).\<close>

definition nav_cart_target :: "session \<Rightarrow> string" where
  "nav_cart_target s = (if is_authenticated s then ''/cart'' else ''/login'')"

text \<open>\<open>handleLogout\<close> (lines 35-39): log out, go home, close the menu.\<close>

definition nav_logout :: "session \<Rightarrow> session \<times> string \<times> bool" where
  "nav_logout s = (logout s, ''/'', False)"

text \<open>
  \<open>fetchCartCount()\<close> of the auth context (lines 32-43), as the pages call it
  after an action: nothing without a token; otherwise the sum of the quantities of
  \<open>GET /api/cart\<close>, or 0 when the request fails or gets no answer.
\<close>

definition fetch_count_call :: "libs \<Rightarrow> faults \<Rightarrow> timestamp \<Rightarrow> session \<Rightarrow> db \<Rightarrow> session" where
  "fetch_count_call L flt now s d =
     (if s_token s = None then s
      else case fst (serve L flt now (s_header s) GetCart d) of
             Reply r \<Rightarrow> fetch_cart_count s r
           | Crash _ \<Rightarrow> s\<lparr>s_cart_count := 0\<rparr>)"

text \<open>The effect of \<open>navbar.jsx\<close> lines 13-17: when authenticated, \<open>fetchCartCount\<close>.\<close>

definition nav_refresh :: "libs \<Rightarrow> faults \<Rightarrow> timestamp \<Rightarrow> session \<Rightarrow> db \<Rightarrow> session" where
  "nav_refresh L flt now s d = (if is_authenticated s then fetch_count_call L flt now s d else s)"

section \<open>Rendered forms\<close>

record form_state =
  fs_error :: string
  fs_loading :: bool

record form_view =
  fv_error :: "string option"
  fv_disabled :: bool
  fv_button :: string

text \<open>
  What both forms render from their \<open>error\<close> and \<open>loading\<close> states
  (\<open>login.jsx\<close> lines 54-115, \<open>signup.jsx\<close> lines 54-127): the error box only
  for a non-empty message, every input and the button disabled while loading, and
  the button's label.
\<close>

definition login_render :: "form_state \<Rightarrow> form_view" where
  "login_render st =
     \<lparr>fv_error = (if fs_error st = [] then None else Some (fs_error st)), fv_disabled = fs_loading st,
      fv_button = (if fs_loading st then ''Logging in...'' else ''Login'')\<rparr>"

definition signup_render :: "form_state \<Rightarrow> form_view" where
  "signup_render st =
     \<lparr>fv_error = (if fs_error st = [] then None else Some (fs_error st)), fv_disabled = fs_loading st,
      fv_button = (if fs_loading st then ''Creating Account...'' else ''Sign Up'')\<rparr>"

text \<open>
  The form's states after a submission: the message of an error, none otherwise
  (the login form clears it first, line 26); the loading flag is cleared at the
  end (\<open>finally\<close>, or the last line of the signup handler).
\<close>

definition form_after :: "form_result \<Rightarrow> form_state" where
  "form_after r = (case r of FormError e \<Rightarrow> \<lparr>fs_error = e, fs_loading = False\<rparr>
                           | NavigateTo _ \<Rightarrow> \<lparr>fs_error = [], fs_loading = False\<rparr>)"

section \<open>Routes\<close>

text \<open>
  The route table of \<open>src/client/src/App.jsx\<close> (lines 21-42). The three
  protected pages are wrapped in \<open>PrivateRoute\<close>, whose module
  (\<open>./components/PrivateRoute\<close>) is not part of the repository; the wrapper
  is kept as a constructor without behaviour. A path is a list of segments.
\<close>

datatype route_page = BrowsePage | LoginPage | SignupPage | BookPage string | CartPage | CheckoutPage
  | OrdersPage

datatype route_target = Public route_page | Private route_page | NoRoute

fun route :: "string list \<Rightarrow> route_target" where
  "route [] = Public BrowsePage"
| "route [p] =
     (if p = ''login'' then Public LoginPage
      else if p = ''signup'' then Public SignupPage
      else if p = ''cart'' then Private CartPage
      else if p = ''checkout'' then Private CheckoutPage
      else if p = ''my-orders'' then Private OrdersPage
      else NoRoute)"
| "route [p, i] = (if p = ''book'' then Public (BookPage i) else NoRoute)"
| "route _ = NoRoute"

section \<open>Properties\<close>

text \<open>Every place the bar can send the user to is a route of the table.\<close>

lemma nav_targets_routed:
  "route [drop 1 (nav_cart_target s)] \<noteq> NoRoute \<and> route [] \<noteq> NoRoute \<and> route [''my-orders''] \<noteq> NoRoute"
  by (simp add: nav_cart_target_def)

text \<open>A login that the form reports as successful leaves the session authenticated.\<close>

lemma login_answer_ok_token:
  "login_answer s r = (s', (True, e)) \<Longrightarrow> is_authenticated s'"
  by (auto simp: login_answer_def is_authenticated_def split: payload.splits if_splits)

lemma login_submit_home_authenticated:
  assumes "login_submit L flt now s f d = (s', NavigateTo p)"
  shows "is_authenticated s'"
proof -
  obtain s1 ok err where c: "login_call L flt now s (lf_email f) (lf_password f) d = (s1, (ok, err))"
    by (metis prod.exhaust)
  with assms have "ok" "s' = s1" by (auto simp: login_submit_def split: if_splits)
  with c show ?thesis
    by (auto simp: login_call_def login_answer_ok_token split: outcome.splits)
qed

text \<open>
  With an accepted token, the count \<open>fetchCartCount\<close> sets is the sum of the
  quantities of the user's lines whose book exists (the inner join of
  \<open>GET /api/cart\<close>).
\<close>

lemma fetch_count_call_sum:
  assumes "s_token s \<noteq> None" and "authenticate_token L now (s_header s) = Inr c" and "\<not> flt CartList"
  shows "s_cart_count (fetch_count_call L flt now s d) =
           foldl (\<lambda>n v. n + cv_qty v) 0 (cart_rows (claim_user c) (tbl d))"
  using assms by (auto simp: fetch_count_call_def with_auth_def get_cart_def fetch_cart_count_def
      ok_status_def reply_def)

text \<open>After "Logout" the bar shows the two links, no badge and no "My Orders".\<close>

lemma nav_after_logout:
  "nav_render (fst (nav_logout s)) m =
     \<lparr>nv_links = [''Browse'', ''Cart''], nv_badge = None, nv_right = LoginSignupLinks\<rparr>"
  by (simp add: nav_render_def nav_logout_def logout_def is_authenticated_def)

text \<open>
  The server itself accepts any password: \<open>POST /api/register\<close> with a
  one-character password creates the user.
\<close>

lemma register_accepts_short_password:
  "fst (register demo_libs no_faults 0 ''n'' ''b@x'' ''a'' empty_db) =
     Reply (reply 201 (PRegistered ''User registered successfully'' 1))"
  by (simp add: register_def no_faults_def users_with_email_def empty_db_def empty_tables_def)

text \<open>
  C39: an account is created through the signup form only with a confirmed
  password of at least six characters: a submission whose confirmation differs or
  whose password is shorter leaves the users table as it was. The rule lives only
  in the form; the server accepts any password
  (\<open>register_accepts_short_password\<close>).
\<close>

theorem signup_register_checked:
  assumes "signup_submit L flt now s f d = (res, d')" and "users (tbl d') \<noteq> users (tbl d)"
  shows "sf_password f = sf_confirm f \<and> 6 \<le> length (sf_password f)"
  using assms by (auto simp: signup_submit_def split: if_splits)

definition demo_signup :: signup_form where
  "demo_signup = \<lparr>sf_name = ''n'', sf_email = ''b@x'', sf_password = ''secret'', sf_confirm = ''secret''\<rparr>"

theorem signup_register_checked_witness:
  "sf_password demo_signup = sf_confirm demo_signup \<and> 6 \<le> length (sf_password demo_signup)"
proof -
  obtain res d' where e: "signup_submit demo_libs no_faults 0 (session_init None) demo_signup empty_db = (res, d')"
    by fastforce
  have "users (tbl d') \<noteq> users (tbl empty_db)"
    using e by (auto simp: signup_submit_def signup_call_def demo_signup_def register_def no_faults_def
        users_with_email_def insert_user_def empty_db_def empty_tables_def Let_def ok_status_def reply_def)
  from signup_register_checked [OF e this] show ?thesis .
qed

text \<open>
  A password change the context reports as successful passed the server's check:
  the token was accepted and the current password matched the stored hash of the
  token's user, whose password is now the hash of the new one.
\<close>

lemma change_password_call_ok:
  assumes "change_password_call L flt now s cur new d = ((True, m), d')"
  shows "\<exists>c u. authenticate_token L now (s_header s) = Inr c \<and> u \<in> set (users (tbl d)) \<and>
           user_id u = claim_user c \<and> pw_compare L cur (user_password u) \<and>
           d' = set_password (claim_user c) (pw_hash L new) d"
proof (cases "authenticate_token L now (s_header s)")
  case (Inl r)
  with assms guard_reply_not_ok [OF Inl] show ?thesis
    by (auto simp: change_password_call_def with_auth_def)
next
  case (Inr c)
  with assms show ?thesis
    by (auto simp: change_password_call_def with_auth_def change_password_def Let_def ok_status_def
        users_with_id_def dest!: first_row_Some_mem split: if_splits option.splits outcome.splits)
qed

end
