(* ===== verification/Client.thy ===== *)
theory Client
  imports Orders
begin

text \<open>
  The client side of checkout, \<open>src/client/src/components/Checkout.jsx\<close>: the
  items the page holds (the buy-now book of \<open>BookDetail.jsx\<close>, or the rows of
  \<open>GET /api/cart\<close>), the amounts it shows and sends, and the body of
  \<open>POST /api/orders\<close> it builds from them. Money is in cents; the
  \<open>toFixed(2)\<close> rounding of the tax is written out on cents.
\<close>

subsection \<open>Checkout items\<close>

text \<open>
  \<open>cartItems\<close> of the page: with \<open>location.state.book\<close> (Buy Now) it is the
  book object spread with the chosen quantity, so its \<open>id\<close> is the book id;
  otherwise it is the response of \<open>GET /api/cart\<close>, whose rows are \<open>c.*\<close>
  joined with book columns, so their \<open>id\<close> is the id of the cart line.
\<close>

datatype checkout_source = BuyNow book_row int | FromCart "cart_view list"

record checkout_item =
  ci_id :: nat
  ci_title :: string
  ci_qty :: int
  ci_price :: cents

fun checkout_items :: "checkout_source \<Rightarrow> checkout_item list" where
  "checkout_items (BuyNow b q) =
     [\<lparr>ci_id = book_id b, ci_title = book_title b, ci_qty = q, ci_price = book_price b\<rparr>]"
| "checkout_items (FromCart vs) =
     map (\<lambda>v. \<lparr>ci_id = cv_id v, ci_title = cv_title v, ci_qty = cv_qty v, ci_price = cv_price v\<rparr>) vs"

text \<open>\<open>items: cartItems.map(item => ({book_id: item.id, quantity: item.quantity, price: item.price}))\<close>.\<close>

definition order_body_items :: "checkout_item list \<Rightarrow> item_in list" where
  "order_body_items its = map (\<lambda>it. \<lparr>in_book = ci_id it, in_qty = ci_qty it, in_price = ci_price it\<rparr>) its"

subsection \<open>Amounts\<close>

text \<open>
  \<open>subtotal = cartItems.reduce((sum, item) => sum + item.price * item.quantity, 0)\<close>,
  \<open>tax = +(subtotal * 0.1).toFixed(2)\<close>, \<open>total = (subtotal + tax).toFixed(2)\<close>.
  \<open>toFixed(2)\<close> picks the nearest cent and, on a tie, the larger one: on cents,
  one tenth rounded half up.
\<close>

definition subtotal :: "checkout_item list \<Rightarrow> cents" where
  "subtotal its = foldl (\<lambda>s it. s + ci_price it * ci_qty it) 0 its"

definition tax :: "cents \<Rightarrow> cents" where
  "tax s = (s + 5) div 10"

definition checkout_total :: "checkout_item list \<Rightarrow> cents" where
  "checkout_total its = subtotal its + tax (subtotal its)"

text \<open>
  \<open>handleSubmit\<close>: the body \<open>{items, total_amount, shipping_address}\<close> of
  \<open>POST /api/orders\<close>.
\<close>

definition checkout_body :: "checkout_source \<Rightarrow> shipping \<Rightarrow> item_in list \<times> cents \<times> shipping" where
  "checkout_body src ship =
     (order_body_items (checkout_items src), checkout_total (checkout_items src), ship)"

end
