(* ===== verification/Json.thy ===== *)
theory Json
  imports Prelude
begin

text \<open>
  The two JSON functions of the JavaScript runtime the program relies on where it
  stores and reads back the shipping address: \<open>JSON.stringify\<close>, which
  \<open>POST /api/orders\<close> (\<open>src/server/index.js\<close> line 221) applies to the
  \<open>shipping_address\<close> of the body before the text column stores it, and
  \<open>JSON.parse\<close>, which \<open>MyOrders.jsx\<close> applies to the column when it arrives
  as a string. Both are modelled from the ECMAScript specification (they are not
  code of the repository): values are the JSON data model with integer numbers;
  \<open>JSON.parse\<close> is the JSON grammar with its whitespace, written as a
  recursive-descent parser with fuel. A parse error is a value of
  \<open>json_error\<close>: \<open>Syntax\<close> is the \<open>SyntaxError\<close> the runtime throws,
  \<open>Unsupported\<close> marks input outside the model (a fraction or an exponent, a
  \<open>\u\<close> escape above 255: characters are bytes here), \<open>OutOfFuel\<close> the end of
  the fuel, which the theorems below show never happens at the fuel the parser is
  given.
\<close>

datatype json = JNull | JBool bool | JNum int | JStr string | JArr "json list"
  | JObj "(string \<times> json) list"

datatype json_error = Syntax | Unsupported | OutOfFuel

type_synonym 'a parse = "json_error + ('a \<times> string)"

subsection \<open>Characters\<close>

abbreviation dq :: char where "dq \<equiv> CHR 0x22"

abbreviation bsl :: char where "bsl \<equiv> CHR 0x5C"

definition is_digit :: "char \<Rightarrow> bool" where
  "is_digit c \<longleftrightarrow> (48::nat) \<le> of_char c \<and> (of_char c :: nat) \<le> 57"

definition is_ws :: "char \<Rightarrow> bool" where
  "is_ws c \<longleftrightarrow> c = CHR '' '' \<or> c = CHR 0x09 \<or> c = CHR 0x0A \<or> c = CHR 0x0D"

definition skip_ws :: "string \<Rightarrow> string" where
  "skip_ws s = dropWhile is_ws s"

definition hex_digit :: "nat \<Rightarrow> char" where
  "hex_digit n = (if n < 10 then char_of (48 + n) else char_of (87 + n))"

definition hex_val :: "char \<Rightarrow> nat option" where
  "hex_val c =
     (let n = of_char c in
      if 48 \<le> n \<and> n \<le> 57 then Some (n - 48)
      else if 97 \<le> n \<and> n \<le> 102 then Some (n - 87)
      else if 65 \<le> n \<and> n \<le> 70 then Some (n - 55)
      else None)"

fun hex4 :: "string \<Rightarrow> nat option" where
  "hex4 (a # b # c # d # _) =
     (case (hex_val a, hex_val b, hex_val c, hex_val d) of
        (Some x, Some y, Some z, Some w) \<Rightarrow> Some (((x * 16 + y) * 16 + z) * 16 + w)
      | _ \<Rightarrow> None)"
| "hex4 _ = None"

subsection \<open>\<open>JSON.stringify\<close>\<close>

text \<open>
  QuoteJSONString: the two-character escapes for backspace, tab, newline, form feed,
  carriage return, quote and backslash, \<open>\u00xx\<close> in lower-case hexadecimal for
  the other control characters, every other character as it is.
\<close>

definition short_escapes :: "(char \<times> char) list" where
  "short_escapes =
     [(CHR 0x08, CHR ''b''), (CHR 0x09, CHR ''t''), (CHR 0x0A, CHR ''n''), (CHR 0x0C, CHR ''f''),
      (CHR 0x0D, CHR ''r''), (dq, dq), (bsl, bsl)]"

definition escape_char :: "char \<Rightarrow> string" where
  "escape_char c =
     (case map_of short_escapes c of
        Some e \<Rightarrow> [bsl, e]
      | None \<Rightarrow>
          if of_char c < (32::nat)
          then [bsl, CHR ''u'', CHR ''0'', CHR ''0'', hex_digit (of_char c div 16), hex_digit (of_char c mod 16)]
          else [c])"

definition quote :: "string \<Rightarrow> string" where
  "quote s = dq # concat (map escape_char s) @ [dq]"

fun nat_str :: "nat \<Rightarrow> string" where
  "nat_str n = (if n < 10 then [char_of (48 + n)] else nat_str (n div 10) @ [char_of (48 + n mod 10)])"

declare nat_str.simps [simp del]

definition int_str :: "int \<Rightarrow> string" where
  "int_str i = (if i < 0 then CHR ''-'' # nat_str (nat (- i)) else nat_str (nat i))"

fun commas :: "string list \<Rightarrow> string" where
  "commas [] = []"
| "commas [x] = x"
| "commas (x # xs) = x @ CHR '','' # commas xs"

fun json_stringify :: "json \<Rightarrow> string" where
  "json_stringify JNull = ''null''"
| "json_stringify (JBool b) = (if b then ''true'' else ''false'')"
| "json_stringify (JNum i) = int_str i"
| "json_stringify (JStr s) = quote s"
| "json_stringify (JArr vs) = CHR ''['' # commas (map json_stringify vs) @ '']''"
| "json_stringify (JObj ms) =
     CHR ''{'' # commas (map (\<lambda>(k, v). quote k @ CHR '':'' # json_stringify v) ms) @ ''}''"

subsection \<open>\<open>JSON.parse\<close>\<close>

definition cons_res :: "char \<Rightarrow> string parse \<Rightarrow> string parse" where
  "cons_res c r = (case r of Inl e \<Rightarrow> Inl e | Inr (x, rest) \<Rightarrow> Inr (c # x, rest))"

text \<open>The escapes of the grammar: those \<open>JSON.stringify\<close> writes, and \<open>\/\<close>.\<close>

definition unescape :: "char \<Rightarrow> char option" where
  "unescape e = map_of (map (\<lambda>(c, e). (e, c)) short_escapes @ [(CHR ''/'', CHR ''/'')]) e"

text \<open>
  The characters of a string literal after its opening quote, up to and including
  the closing one. A raw control character is a syntax error, as in the grammar.
\<close>

fun parse_str :: "string \<Rightarrow> string parse" where
  "parse_str [] = Inl Syntax"
| "parse_str (c # cs) =
     (if c = dq then Inr ([], cs)
      else if c = bsl then
        (case cs of
           [] \<Rightarrow> Inl Syntax
         | e # cs' \<Rightarrow>
             if e = CHR ''u'' then
               (case hex4 cs' of
                  None \<Rightarrow> Inl Syntax
                | Some n \<Rightarrow> if n < 256 then cons_res (char_of n) (parse_str (drop 4 cs'))
                            else Inl Unsupported)
             else (case unescape e of
                     None \<Rightarrow> Inl Syntax
                   | Some d \<Rightarrow> cons_res d (parse_str cs')))
      else if of_char c < (32::nat) then Inl Syntax
      else cons_res c (parse_str cs))"

definition digits_val :: "string \<Rightarrow> nat" where
  "digits_val ds = foldl (\<lambda>a d. 10 * a + (of_char d - 48)) 0 ds"

text \<open>
  A number: an optional minus, then \<open>0\<close> or digits without a leading zero. A
  fraction or an exponent after it is outside the model.
\<close>

definition parse_num :: "string \<Rightarrow> json parse" where
  "parse_num s =
     (let neg = (s \<noteq> [] \<and> hd s = CHR ''-'');
          s1 = (if neg then tl s else s);
          ds = takeWhile is_digit s1;
          r = dropWhile is_digit s1
      in if ds = [] then Inl Syntax
         else if hd ds = CHR ''0'' \<and> 1 < length ds then Inl Syntax
         else if r \<noteq> [] \<and> (hd r = CHR ''.'' \<or> hd r = CHR ''e'' \<or> hd r = CHR ''E'') then Inl Unsupported
         else Inr (JNum (if neg then - int (digits_val ds) else int (digits_val ds)), r))"

text \<open>
  A value, the elements of an array after its \<open>[\<close>, the members of an object
  after its \<open>{\<close>; every call spends one unit of fuel.
\<close>

fun parse_value :: "nat \<Rightarrow> string \<Rightarrow> json parse"
and parse_elems :: "nat \<Rightarrow> json list \<Rightarrow> string \<Rightarrow> json parse"
and parse_members :: "nat \<Rightarrow> (string \<times> json) list \<Rightarrow> string \<Rightarrow> json parse" where
  "parse_value 0 s0 = Inl OutOfFuel"
| "parse_value (Suc n) s0 =
     (let s = skip_ws s0 in
      if s = [] then Inl Syntax
      else let c = hd s; r = tl s in
      if c = CHR ''{'' then
        (if skip_ws r \<noteq> [] \<and> hd (skip_ws r) = CHR ''}'' then Inr (JObj [], tl (skip_ws r))
         else parse_members n [] r)
      else if c = CHR ''['' then
        (if skip_ws r \<noteq> [] \<and> hd (skip_ws r) = CHR '']'' then Inr (JArr [], tl (skip_ws r))
         else parse_elems n [] r)
      else if c = dq then
        (case parse_str r of Inl e \<Rightarrow> Inl e | Inr (x, r') \<Rightarrow> Inr (JStr x, r'))
      else if c = CHR ''-'' \<or> is_digit c then parse_num s
      else if take 4 s = ''true'' then Inr (JBool True, drop 4 s)
      else if take 5 s = ''false'' then Inr (JBool False, drop 5 s)
      else if take 4 s = ''null'' then Inr (JNull, drop 4 s)
      else Inl Syntax)"
| "parse_elems 0 acc s = Inl OutOfFuel"
| "parse_elems (Suc n) acc s =
     (case parse_value n s of
        Inl e \<Rightarrow> Inl e
      | Inr (v, r) \<Rightarrow>
          let r' = skip_ws r in
          if r' \<noteq> [] \<and> hd r' = CHR '','' then parse_elems n (acc @ [v]) (tl r')
          else if r' \<noteq> [] \<and> hd r' = CHR '']'' then Inr (JArr (acc @ [v]), tl r')
          else Inl Syntax)"
| "parse_members 0 acc s0 = Inl OutOfFuel"
| "parse_members (Suc n) acc s0 =
     (let s = skip_ws s0 in
      if s = [] \<or> hd s \<noteq> dq then Inl Syntax
      else case parse_str (tl s) of
        Inl e \<Rightarrow> Inl e
      | Inr (k, r1) \<Rightarrow>
          let r2 = skip_ws r1 in
          if r2 = [] \<or> hd r2 \<noteq> CHR '':'' then Inl Syntax
          else case parse_value n (tl r2) of
            Inl e \<Rightarrow> Inl e
          | Inr (v, r3) \<Rightarrow>
              let r4 = skip_ws r3 in
              if r4 \<noteq> [] \<and> hd r4 = CHR '','' then parse_members n (acc @ [(k, v)]) (tl r4)
              else if r4 \<noteq> [] \<and> hd r4 = CHR ''}'' then Inr (JObj (acc @ [(k, v)]), tl r4)
              else Inl Syntax)"

text \<open>
  \<open>JSON.parse(s)\<close>: one value, then only whitespace. Every call consumes input
  or is followed by one that does, so twice the length of the input, plus one, is
  enough fuel (\<open>json_parse_never_out_of_fuel\<close>).
\<close>

definition json_parse :: "string \<Rightarrow> json_error + json" where
  "json_parse s =
     (case parse_value (2 * length s + 1) s of
        Inl e \<Rightarrow> Inl e
      | Inr (v, r) \<Rightarrow> if skip_ws r = [] then Inr v else Inl Syntax)"

subsection \<open>Shapes of printed values\<close>

text \<open>
  What may follow a value inside printed JSON (\<open>json_stop\<close>) and what a printed
  value starts with (\<open>json_start\<close>): the side conditions of the round trip.
\<close>

definition json_stop :: "string \<Rightarrow> bool" where
  "json_stop r \<longleftrightarrow> r = [] \<or> hd r = CHR '','' \<or> hd r = CHR '']'' \<or> hd r = CHR ''}''"

definition json_start :: "string \<Rightarrow> bool" where
  "json_start x \<longleftrightarrow> x \<noteq> [] \<and> \<not> is_ws (hd x) \<and> hd x \<noteq> CHR '']'' \<and> hd x \<noteq> CHR ''}''"

abbreviation json_rt :: "json \<Rightarrow> bool" where
  "json_rt v \<equiv> \<forall>rest m. json_stop rest \<longrightarrow> 2 * length (json_stringify v @ rest) < m \<longrightarrow>
      parse_value m (json_stringify v @ rest) = Inr (v, rest)"

subsection \<open>The parser consumes input\<close>

lemma length_skip_ws: "length (skip_ws s) \<le> length s"
  by (simp add: skip_ws_def length_dropWhile_le)

lemma cons_res_Inr: "cons_res c r = Inr (x, rest) \<longleftrightarrow> (\<exists>y. r = Inr (y, rest) \<and> x = c # y)"
  by (auto simp: cons_res_def split: sum.splits prod.splits)

lemma parse_str_shorter: "parse_str s = Inr (x, r) \<Longrightarrow> length r < length s"
proof (induction s arbitrary: x rule: parse_str.induct)
  case 1
  then show ?case by simp
next
  case (2 c cs)
  then show ?case
    by (force simp: cons_res_Inr split: if_splits list.splits option.splits)
qed

lemma parse_num_shorter: "parse_num s = Inr (v, r) \<Longrightarrow> length r < length s"
  unfolding parse_num_def Let_def
  by (cases s) (auto simp: length_dropWhile_le le_less_trans[OF length_dropWhile_le] 
      dropWhile_eq_Cons_conv split: if_splits)

lemma length_tl_skip_ws: "skip_ws s \<noteq> [] \<Longrightarrow> length (tl (skip_ws s)) < length s"
  using length_skip_ws [of s] by (cases "skip_ws s") auto

lemma parse_shorter:
  "parse_value n s = Inr (v, rest) \<Longrightarrow> length rest < length s"
  "parse_elems n acc s = Inr (v, rest) \<Longrightarrow> length rest < length s"
  "parse_members n acc' s = Inr (v, rest) \<Longrightarrow> length rest < length s"
proof (induction n s and n acc s and n acc' s arbitrary: v rest and v rest and v rest
    rule: parse_value_parse_elems_parse_members.induct)
  case (2 n s0)
  let ?s = "skip_ws s0"
  have ls: "length ?s \<le> length s0" by (rule length_skip_ws)
  show ?case
  proof (cases ?s)
    case Nil
    with "2.prems" show ?thesis by (simp add: Let_def)
  next
    case (Cons c t)
    have lt: "length t < length s0" using ls Cons by simp
    have m: "length rest' < length t"
      if "c = CHR ''{''" "\<not> (skip_ws t \<noteq> [] \<and> hd (skip_ws t) = CHR ''}'')"
        "parse_members n [] t = Inr (v', rest')" for v' rest'
      by (rule "2.IH"(1)) (use Cons that in auto)
    have e: "length rest' < length t"
      if "c = CHR ''[''" "\<not> (skip_ws t \<noteq> [] \<and> hd (skip_ws t) = CHR '']'')"
        "parse_elems n [] t = Inr (v', rest')" for v' rest'
      by (rule "2.IH"(2)) (use Cons that in auto)
    have w: "skip_ws t \<noteq> [] \<Longrightarrow> length (tl (skip_ws t)) < length s0"
      using length_tl_skip_ws [of t] lt by simp
    from "2.prems" Cons show ?thesis
      using m e w lt parse_num_shorter [of "c # t" v rest] parse_str_shorter [of t]
      by (auto simp: Let_def split: if_split_asm sum.splits)
  qed
next
  case (4 n acc s)
  show ?case
  proof (cases "parse_value n s")
    case (Inl e)
    with "4.prems" show ?thesis by simp
  next
    case (Inr p)
    obtain v1 r where p: "p = (v1, r)" by fastforce
    have l1: "length r < length s" using "4.IH"(1) Inr p by blast
    have l2: "skip_ws r \<noteq> [] \<Longrightarrow> length (tl (skip_ws r)) < length r"
      by (rule length_tl_skip_ws)
    have ih: "length rest' < length (tl (skip_ws r))"
      if "skip_ws r \<noteq> [] \<and> hd (skip_ws r) = CHR '',''"
        "parse_elems n (acc @ [v1]) (tl (skip_ws r)) = Inr (v', rest')" for v' rest'
      by (rule "4.IH"(2)) (use Inr p that in auto)
    from "4.prems" Inr p l1 l2 ih show ?thesis
      by (fastforce simp: Let_def split: if_split_asm)
  qed
next
  case (6 n acc s0)
  let ?s = "skip_ws s0"
  from "6.prems" have ne: "?s \<noteq> []" and q: "hd ?s = dq"
    by (auto simp: Let_def split: if_split_asm)
  from ne have ls: "length (tl ?s) < length s0" by (rule length_tl_skip_ws)
  from "6.prems" ne q obtain k r1 where k: "parse_str (tl ?s) = Inr (k, r1)"
    by (auto simp: Let_def split: sum.splits)
  have l1: "length r1 < length (tl ?s)" using parse_str_shorter [OF k] .
  let ?r2 = "skip_ws r1"
  from "6.prems" ne q k have ne2: "?r2 \<noteq> []" and c2: "hd ?r2 = CHR '':''"
    by (auto simp: Let_def split: if_split_asm)
  from ne2 have l2: "length (tl ?r2) < length r1" by (rule length_tl_skip_ws)
  from "6.prems" ne q k ne2 c2 obtain v1 r3 where p: "parse_value n (tl ?r2) = Inr (v1, r3)"
    by (auto simp: Let_def split: sum.splits)
  have l3: "length r3 < length (tl ?r2)"
    by (rule "6.IH"(1)) (use ne q k ne2 c2 p in auto)
  have l4: "skip_ws r3 \<noteq> [] \<Longrightarrow> length (tl (skip_ws r3)) < length r3"
    by (rule length_tl_skip_ws)
  have ih: "length rest' < length (tl (skip_ws r3))"
    if "skip_ws r3 \<noteq> [] \<and> hd (skip_ws r3) = CHR '',''"
      "parse_members n (acc @ [(k, v1)]) (tl (skip_ws r3)) = Inr (v', rest')" for v' rest'
    by (rule "6.IH"(2)) (use ne q k ne2 c2 p that in auto)
  from "6.prems" ne q k ne2 c2 p ls l1 l2 l3 l4 ih show ?case
    by (fastforce simp: Let_def split: if_split_asm)
qed simp_all

lemma cons_res_fuel: "r \<noteq> Inl OutOfFuel \<Longrightarrow> cons_res c r \<noteq> Inl OutOfFuel"
  by (auto simp: cons_res_def split: sum.splits)

lemma parse_str_fuel: "parse_str s \<noteq> Inl OutOfFuel"
  by (induction s rule: parse_str.induct) (simp_all add: cons_res_fuel split: list.split option.split)

lemma parse_num_fuel: "parse_num s \<noteq> Inl OutOfFuel"
  by (simp add: parse_num_def Let_def)


lemma parse_fuel_enough:
  "2 * length s < n \<Longrightarrow> parse_value n s \<noteq> Inl OutOfFuel"
  "2 * length s + 1 < n \<Longrightarrow> parse_elems n acc s \<noteq> Inl OutOfFuel"
  "2 * length s + 1 < n \<Longrightarrow> parse_members n acc' s \<noteq> Inl OutOfFuel"
proof (induction n s and n acc s and n acc' s rule: parse_value_parse_elems_parse_members.induct)
  case (2 n s0)
  let ?s = "skip_ws s0"
  have ls: "length ?s \<le> length s0" by (rule length_skip_ws)
  show ?case
  proof (cases ?s)
    case Nil
    then show ?thesis by (simp add: Let_def)
  next
    case (Cons c t)
    have fuel: "2 * length t + 1 < n" using "2.prems" ls Cons by simp
    have m: "parse_members n [] t \<noteq> Inl OutOfFuel"
      if "c = CHR ''{''" "\<not> (skip_ws t \<noteq> [] \<and> hd (skip_ws t) = CHR ''}'')"
      by (rule "2.IH"(1)) (use Cons that fuel in auto)
    have e: "parse_elems n [] t \<noteq> Inl OutOfFuel"
      if "c = CHR ''[''" "\<not> (skip_ws t \<noteq> [] \<and> hd (skip_ws t) = CHR '']'')"
      by (rule "2.IH"(2)) (use Cons that fuel in auto)
    from Cons m e parse_num_fuel [of "c # t"] parse_str_fuel [of t] show ?thesis
      by (auto simp: Let_def split: sum.splits)
  qed
next
  case (4 n acc s)
  have f1: "2 * length s < n" using "4.prems" by simp
  show ?case
  proof (cases "parse_value n s")
    case (Inl e)
    with "4.IH"(1) [OF f1] show ?thesis by simp
  next
    case (Inr p)
    obtain v1 r where p: "p = (v1, r)" by fastforce
    have l1: "length r < length s" using parse_shorter(1) Inr p by blast
    have ih: "parse_elems n (acc @ [v1]) (tl (skip_ws r)) \<noteq> Inl OutOfFuel"
      if "skip_ws r \<noteq> [] \<and> hd (skip_ws r) = CHR '',''"
    proof (rule "4.IH"(2))
      show "2 * length (tl (skip_ws r)) + 1 < n"
        using length_tl_skip_ws [of r] that l1 f1 by simp
    qed (use Inr p that in auto)
    from Inr p ih show ?thesis by (auto simp: Let_def)
  qed
next
  case (6 n acc s0)
  let ?s = "skip_ws s0"
  have f1: "2 * length s0 < n" using "6.prems" by simp
  show ?case
  proof (cases "?s \<noteq> [] \<and> hd ?s = dq")
    case False
    then show ?thesis by (auto simp: Let_def)
  next
    case True
    then have ne: "?s \<noteq> []" and q: "hd ?s = dq" by auto
    from ne have ls: "length (tl ?s) < length s0" by (rule length_tl_skip_ws)
    show ?thesis
    proof (cases "parse_str (tl ?s)")
      case (Inl e)
      with ne q parse_str_fuel [of "tl ?s"] show ?thesis by (simp add: Let_def)
    next
      case (Inr p1)
      obtain k r1 where k: "parse_str (tl ?s) = Inr (k, r1)" using Inr by (cases p1) auto
      have l1: "length r1 < length (tl ?s)" using parse_str_shorter [OF k] .
      let ?r2 = "skip_ws r1"
      show ?thesis
      proof (cases "?r2 \<noteq> [] \<and> hd ?r2 = CHR '':''")
        case False
        with ne q k show ?thesis by (auto simp: Let_def)
      next
        case True
        then have ne2: "?r2 \<noteq> []" and c2: "hd ?r2 = CHR '':''" by auto
        from ne2 have l2: "length (tl ?r2) < length r1" by (rule length_tl_skip_ws)
        have v: "parse_value n (tl ?r2) \<noteq> Inl OutOfFuel"
        proof (rule "6.IH"(1))
          show "2 * length (tl ?r2) < n" using ls l1 l2 f1 by simp
        qed (use ne q k ne2 c2 in auto)
        show ?thesis
        proof (cases "parse_value n (tl ?r2)")
          case (Inl e)
          with ne q k ne2 c2 v show ?thesis by (simp add: Let_def)
        next
          case (Inr p3)
          obtain v1 r3 where p: "parse_value n (tl ?r2) = Inr (v1, r3)" using Inr by (cases p3) auto
          have l3: "length r3 < length (tl ?r2)" using parse_shorter(1) [OF p] .
          have ih: "parse_members n (acc @ [(k, v1)]) (tl (skip_ws r3)) \<noteq> Inl OutOfFuel"
            if "skip_ws r3 \<noteq> [] \<and> hd (skip_ws r3) = CHR '',''"
          proof (rule "6.IH"(2))
            show "2 * length (tl (skip_ws r3)) + 1 < n"
              using length_tl_skip_ws [of r3] that ls l1 l2 l3 f1 by simp
          qed (use ne q k ne2 c2 p that in auto)
          from ne q k ne2 c2 p ih show ?thesis by (auto simp: Let_def)
        qed
      qed
    qed
  qed
qed simp_all

subsection \<open>Round trip\<close>

lemma hex_val_hex_digit: "k < 16 \<Longrightarrow> hex_val (hex_digit k) = Some k"
  by (auto simp: hex_val_def hex_digit_def Let_def)

lemma esc_ctrl: "of_char c < (32::nat) \<Longrightarrow>
    hex4 (CHR ''0'' # CHR ''0'' # hex_digit (of_char c div 16) # hex_digit (of_char c mod 16) # t)
      = Some (of_char c)"
proof -
  assume "of_char c < (32::nat)"
  then have a: "of_char c div 16 < (16::nat)" "of_char c mod 16 < (16::nat)" by auto
  have "hex_val (CHR ''0'') = Some 0" by (simp add: hex_val_def)
  moreover have "(of_char c div 16) * 16 + of_char c mod 16 = (of_char c :: nat)" by simp
  ultimately show ?thesis using a by (simp add: hex_val_hex_digit)
qed

lemma short_escape_inv:
  assumes "map_of short_escapes c = Some e"
  shows "unescape e = Some c \<and> e \<noteq> CHR ''u''"
proof -
  from map_of_SomeD [OF assms] have "(c, e) \<in> set short_escapes" .
  then show ?thesis by (auto simp: short_escapes_def unescape_def)
qed

lemma short_escape_None: "map_of short_escapes c = None \<Longrightarrow> c \<noteq> dq \<and> c \<noteq> bsl"
  by (auto simp: short_escapes_def split: if_splits)

lemma parse_str_escape_char: "parse_str (escape_char c @ t) = cons_res c (parse_str t)"
proof (cases "map_of short_escapes c")
  case None
  then have "c \<noteq> dq" "c \<noteq> bsl" using short_escape_None by auto
  show ?thesis
  proof (cases "of_char c < (32::nat)")
    case True
    with None \<open>c \<noteq> bsl\<close> show ?thesis by (simp add: escape_char_def esc_ctrl del: hex4.simps)
  next
    case False
    with None \<open>c \<noteq> dq\<close> \<open>c \<noteq> bsl\<close> show ?thesis by (simp add: escape_char_def)
  qed
next
  case (Some e)
  with short_escape_inv [OF Some] show ?thesis by (simp add: escape_char_def)
qed

lemma parse_str_quote: "parse_str (concat (map escape_char s) @ dq # rest) = Inr (s, rest)"
  by (induction s) (simp_all add: parse_str_escape_char cons_res_def)

lemma of_char_digit: "k < 10 \<Longrightarrow> of_char (char_of (48 + k)) = (48 + k :: nat)"
  by (simp add: of_char_of)

lemma nat_str_digits: "c \<in> set (nat_str n) \<Longrightarrow> is_digit c"
proof (induction n rule: nat_str.induct)
  case (1 n)
  show ?case
  proof (cases "n < 10")
    case True
    with "1.prems" show ?thesis by (simp add: nat_str.simps is_digit_def of_char_digit)
  next
    case False
    with "1.prems" have "c \<in> set (nat_str (n div 10)) \<or> c = char_of (48 + n mod 10)"
      by (auto simp: nat_str.simps [of n])
    then show ?thesis using "1.IH" False by (auto simp: is_digit_def of_char_digit)
  qed
qed

lemma nat_str_ne: "nat_str n \<noteq> []"
  by (simp add: nat_str.simps [of n])

lemma digits_val_nat_str: "digits_val (nat_str n) = n"
proof (induction n rule: nat_str.induct)
  case (1 n)
  then show ?case
    by (cases "n < 10") (simp_all add: nat_str.simps [of n] digits_val_def of_char_digit)
qed

lemma hd_nat_str: "0 < n \<Longrightarrow> hd (nat_str n) \<noteq> CHR ''0''"
proof (induction n rule: nat_str.induct)
  case (1 n)
  show ?case
  proof (cases "n < 10")
    case True
    have "of_char (char_of (48 + n)) \<noteq> (of_char (CHR ''0'') :: nat)"
      using True "1.prems" by (simp add: of_char_digit)
    then have "char_of (48 + n) \<noteq> CHR ''0''" by metis
    with True show ?thesis by (simp add: nat_str.simps [of n])
  next
    case False
    then have "0 < n div 10" by simp
    with "1.IH" False show ?thesis by (simp add: nat_str.simps [of n] nat_str_ne)
  qed
qed

lemma json_stop_not_digit: "json_stop r \<Longrightarrow> r \<noteq> [] \<Longrightarrow> \<not> is_digit (hd r)"
  by (auto simp: json_stop_def is_digit_def)

lemma span_nat_str:
  assumes "json_stop rest"
  shows "takeWhile is_digit (nat_str n @ rest) = nat_str n"
    and "dropWhile is_digit (nat_str n @ rest) = rest"
proof -
  have d: "\<forall>c\<in>set (nat_str n). is_digit c" using nat_str_digits by blast
  have r: "takeWhile is_digit rest = [] \<and> dropWhile is_digit rest = rest"
    using json_stop_not_digit [OF assms] by (cases rest) auto
  show "takeWhile is_digit (nat_str n @ rest) = nat_str n"
    using d r by (simp add: takeWhile_append2)
  show "dropWhile is_digit (nat_str n @ rest) = rest"
    using d r by (simp add: dropWhile_append2)
qed

lemma char_of_48: "char_of (48::nat) = CHR ''0''"
proof -
  have "(of_char (CHR ''0'') :: nat) = 48" by simp
  then show ?thesis by (metis char_of_char)
qed

lemma nat_str_zero: "nat_str 0 = [CHR ''0'']"
  by (simp add: nat_str.simps char_of_48)

lemma nat_str_leading: "hd (nat_str n) = CHR ''0'' \<Longrightarrow> \<not> 1 < length (nat_str n)"
  using hd_nat_str [of n] by (cases "n = 0") (auto simp: nat_str_zero)

lemma hd_nat_str_minus: "hd (nat_str n @ rest) \<noteq> CHR ''-''"
proof -
  have "is_digit (hd (nat_str n))" using nat_str_digits nat_str_ne hd_in_set by blast
  then show ?thesis using nat_str_ne by (auto simp: is_digit_def)
qed

lemma parse_num_int_str:
  assumes "json_stop rest"
  shows "parse_num (int_str i @ rest) = Inr (JNum i, rest)"
proof -
  have fr: "\<not> (rest \<noteq> [] \<and> (hd rest = CHR ''.'' \<or> hd rest = CHR ''e'' \<or> hd rest = CHR ''E''))"
    using assms by (auto simp: json_stop_def)
  show ?thesis
  proof (cases "i < 0")
    case True
    then have "0 < nat (- i)" by simp
    with True fr show ?thesis
      using span_nat_str [OF assms, of "nat (- i)"] nat_str_ne [of "nat (- i)"]
        nat_str_leading [of "nat (- i)"]
      by (simp add: parse_num_def int_str_def digits_val_nat_str Let_def)
  next
    case False
    with fr show ?thesis
      using span_nat_str [OF assms, of "nat i"] nat_str_ne [of "nat i"] nat_str_leading [of "nat i"]
        hd_nat_str_minus [of "nat i" rest]
      by (simp add: parse_num_def int_str_def digits_val_nat_str Let_def)
  qed
qed

lemma commas_Cons: "commas (x # xs) = (if xs = [] then x else x @ CHR '','' # commas xs)"
  by (cases xs) auto

lemma hd_int_str: "int_str i \<noteq> [] \<and> (hd (int_str i) = CHR ''-'' \<or> is_digit (hd (int_str i)))"
  using nat_str_digits nat_str_ne hd_in_set by (auto simp: int_str_def)

lemma json_start_stringify: "json_start (json_stringify v)"
proof (cases v)
  case (JNum i)
  then show ?thesis
    using hd_int_str [of i] by (auto simp: json_start_def is_ws_def is_digit_def)
qed (auto simp: json_start_def is_ws_def quote_def)

lemma skip_ws_start: "json_start x \<Longrightarrow> skip_ws (x @ r) = x @ r"
  by (cases x) (auto simp: json_start_def skip_ws_def)

lemma skip_ws_sep: "c \<in> {CHR '','', CHR '']'', CHR ''}'', CHR '':''} \<Longrightarrow> skip_ws (c # r) = c # r"
  by (auto simp: skip_ws_def is_ws_def)

lemma parse_elems_commas:
  "vs \<noteq> [] \<Longrightarrow> \<forall>v\<in>set vs. json_rt v \<Longrightarrow>
   2 * length (commas (map json_stringify vs) @ CHR '']'' # rest) + 1 < m \<Longrightarrow>
   parse_elems m acc (commas (map json_stringify vs) @ CHR '']'' # rest) = Inr (JArr (acc @ vs), rest)"
proof (induction vs arbitrary: acc m)
  case Nil
  then show ?case by simp
next
  case (Cons v vs)
  obtain n where m: "m = Suc n" using Cons.prems(3) by (cases m) auto
  let ?x = "json_stringify v"
  let ?t = "if vs = [] then CHR '']'' # rest else CHR '','' # commas (map json_stringify vs) @ CHR '']'' # rest"
  have eq: "commas (map json_stringify (v # vs)) @ CHR '']'' # rest = ?x @ ?t"
    by (simp add: commas_Cons)
  have st: "json_stop ?t" by (simp add: json_stop_def)
  have "length (?x @ ?t) = length (commas (map json_stringify (v # vs)) @ CHR '']'' # rest)"
    by (simp only: eq)
  then have fuel: "2 * length (?x @ ?t) < n" using Cons.prems(3) m by linarith
  have pv: "parse_value n (?x @ ?t) = Inr (v, ?t)"
    using Cons.prems(2) st fuel by simp
  show ?case
  proof (cases "vs = []")
    case True
    with pv m show ?thesis by (simp add: commas_Cons skip_ws_sep)
  next
    case False
    have ne: "?x \<noteq> []" using json_start_stringify [of v] by (simp add: json_start_def)
    have "2 * length (commas (map json_stringify vs) @ CHR '']'' # rest) + 1 < n"
      using fuel False ne by simp
    then have "parse_elems n (acc @ [v]) (commas (map json_stringify vs) @ CHR '']'' # rest)
        = Inr (JArr (acc @ v # vs), rest)"
      using Cons.IH [OF False] Cons.prems(2) by simp
    with pv m False show ?thesis by (simp add: commas_Cons skip_ws_sep)
  qed
qed

lemma skip_ws_quote: "skip_ws (quote k @ r) = quote k @ r"
  by (simp add: quote_def skip_ws_def is_ws_def)

lemma parse_members_commas:
  "ms \<noteq> [] \<Longrightarrow> \<forall>(k, v)\<in>set ms. json_rt v \<Longrightarrow>
   2 * length (commas (map (\<lambda>(k, v). quote k @ CHR '':'' # json_stringify v) ms) @ CHR ''}'' # rest) + 1 < m \<Longrightarrow>
   parse_members m acc (commas (map (\<lambda>(k, v). quote k @ CHR '':'' # json_stringify v) ms) @ CHR ''}'' # rest)
     = Inr (JObj (acc @ ms), rest)"
proof (induction ms arbitrary: acc m)
  case Nil
  then show ?case by simp
next
  case (Cons kv ms)
  obtain k v where kv: "kv = (k, v)" by fastforce
  obtain n where m: "m = Suc n" using Cons.prems(3) by (cases m) auto
  let ?f = "\<lambda>(k, v). quote k @ CHR '':'' # json_stringify v"
  let ?sv = "json_stringify v"
  let ?t = "if ms = [] then CHR ''}'' # rest else CHR '','' # commas (map ?f ms) @ CHR ''}'' # rest"
  have eq: "commas (map ?f (kv # ms)) @ CHR ''}'' # rest = quote k @ CHR '':'' # ?sv @ ?t"
    by (simp add: commas_Cons kv)
  have st: "json_stop ?t" by (simp add: json_stop_def)
  have "length (quote k @ CHR '':'' # ?sv @ ?t) = length (commas (map ?f (kv # ms)) @ CHR ''}'' # rest)"
    by (simp only: eq)
  then have fuel: "2 * length (quote k @ CHR '':'' # ?sv @ ?t) + 1 < Suc n"
    using Cons.prems(3) m by linarith
  then have fv: "2 * length (?sv @ ?t) < n" by simp
  have pv: "parse_value n (?sv @ ?t) = Inr (v, ?t)"
    using Cons.prems(2) kv st fv by auto
  have ps: "parse_str (tl (quote k @ CHR '':'' # ?sv @ ?t)) = Inr (k, CHR '':'' # ?sv @ ?t)"
    using parse_str_quote [of k "CHR '':'' # ?sv @ ?t"] by (simp add: quote_def)
  have hq: "hd (quote k @ r) = dq" for r by (simp add: quote_def)
  have pm: "parse_members (Suc n) acc (quote k @ CHR '':'' # ?sv @ ?t)
      = (let r4 = skip_ws ?t in
         if r4 \<noteq> [] \<and> hd r4 = CHR '','' then parse_members n (acc @ [(k, v)]) (tl r4)
         else if r4 \<noteq> [] \<and> hd r4 = CHR ''}'' then Inr (JObj (acc @ [(k, v)]), tl r4)
         else Inl Syntax)"
  proof -
    have s: "skip_ws (quote k @ CHR '':'' # ?sv @ ?t) = quote k @ CHR '':'' # ?sv @ ?t"
      by (rule skip_ws_quote)
    have ne: "quote k @ CHR '':'' # ?sv @ ?t \<noteq> []" by (simp add: quote_def)
    show ?thesis
      using ps pv ne by (simp only: parse_members.simps s hq Let_def) (simp add: skip_ws_sep)
  qed
  show ?case
  proof (cases "ms = []")
    case True
    with pm m eq show ?thesis by (simp add: skip_ws_sep kv)
  next
    case False
    have "2 * length (commas (map ?f ms) @ CHR ''}'' # rest) + 1 < n"
      using fuel False by (simp add: quote_def)
    then have "parse_members n (acc @ [(k, v)]) (commas (map ?f ms) @ CHR ''}'' # rest)
        = Inr (JObj (acc @ (k, v) # ms), rest)"
      using Cons.IH [OF False] Cons.prems(2) by simp
    with pm m eq False show ?thesis by (simp add: skip_ws_sep kv)
  qed
qed

lemma json_start_commas:
  "xs \<noteq> [] \<Longrightarrow> json_start (hd xs) \<Longrightarrow> json_start (commas xs)"
  by (cases xs) (auto simp: commas_Cons json_start_def)

lemma parse_value_stringify: "json_rt v"
proof (induction v)
  case JNull
  show ?case
  proof (intro allI impI)
    fix rest m assume "json_stop rest" "2 * length (json_stringify JNull @ rest) < m"
    then obtain n where "m = Suc n" by (cases m) auto
    then show "parse_value m (json_stringify JNull @ rest) = Inr (JNull, rest)"
      by (simp add: skip_ws_def is_ws_def is_digit_def)
  qed
next
  case (JBool b)
  show ?case
  proof (intro allI impI)
    fix rest m assume "json_stop rest" "2 * length (json_stringify (JBool b) @ rest) < m"
    then obtain n where "m = Suc n" by (cases m) auto
    then show "parse_value m (json_stringify (JBool b) @ rest) = Inr (JBool b, rest)"
      by (cases b) (simp_all add: skip_ws_def is_ws_def is_digit_def)
  qed
next
  case (JNum i)
  show ?case
  proof (intro allI impI)
    fix rest m assume st: "json_stop rest" and "2 * length (json_stringify (JNum i) @ rest) < m"
    then obtain n where m: "m = Suc n" by (cases m) auto
    have sk: "skip_ws (int_str i @ rest) = int_str i @ rest"
      using skip_ws_start json_start_stringify [of "JNum i"] by simp
    have h: "int_str i \<noteq> []" "hd (int_str i) = CHR ''-'' \<or> is_digit (hd (int_str i))"
      using hd_int_str by auto
    then have "hd (int_str i) \<noteq> CHR ''{''" "hd (int_str i) \<noteq> CHR ''[''" "hd (int_str i) \<noteq> dq"
      by (auto simp: is_digit_def)
    with h m sk show "parse_value m (json_stringify (JNum i) @ rest) = Inr (JNum i, rest)"
      by (simp add: parse_num_int_str [OF st] Let_def)
  qed
next
  case (JStr x)
  show ?case
  proof (intro allI impI)
    fix rest m assume "json_stop rest" "2 * length (json_stringify (JStr x) @ rest) < m"
    then obtain n where "m = Suc n" by (cases m) auto
    then show "parse_value m (json_stringify (JStr x) @ rest) = Inr (JStr x, rest)"
      by (simp add: quote_def skip_ws_def is_ws_def parse_str_quote [of x rest, simplified])
  qed
next
  case (JArr vs)
  show ?case
  proof (intro allI impI)
    fix rest m assume st: "json_stop rest" and f: "2 * length (json_stringify (JArr vs) @ rest) < m"
    then obtain n where m: "m = Suc n" by (cases m) auto
    show "parse_value m (json_stringify (JArr vs) @ rest) = Inr (JArr vs, rest)"
    proof (cases "vs = []")
      case True
      with m show ?thesis by (simp add: skip_ws_def is_ws_def)
    next
      case False
      let ?r = "commas (map json_stringify vs) @ CHR '']'' # rest"
      have js: "json_start (commas (map json_stringify vs))"
        using False json_start_stringify [of "hd vs"] by (intro json_start_commas) (auto simp: hd_map)
      then have sk: "skip_ws ?r = ?r" by (rule skip_ws_start)
      have hr: "?r \<noteq> [] \<and> hd ?r \<noteq> CHR '']''" using js by (simp add: json_start_def)
      have "2 * length ?r + 1 < n" using f m by simp
      then have pe: "parse_elems n [] ?r = Inr (JArr vs, rest)"
        using parse_elems_commas [OF False] JArr.IH by simp
      from m sk hr pe show ?thesis by (simp add: skip_ws_def is_ws_def)
    qed
  qed
next
  case (JObj ms)
  let ?f = "\<lambda>(k, v). quote k @ CHR '':'' # json_stringify v"
  have ih: "\<forall>(k, v)\<in>set ms. json_rt v" using JObj.IH by fastforce
  show ?case
  proof (intro allI impI)
    fix rest m assume st: "json_stop rest" and f: "2 * length (json_stringify (JObj ms) @ rest) < m"
    then obtain n where m: "m = Suc n" by (cases m) auto
    show "parse_value m (json_stringify (JObj ms) @ rest) = Inr (JObj ms, rest)"
    proof (cases "ms = []")
      case True
      with m show ?thesis by (simp add: skip_ws_def is_ws_def)
    next
      case False
      let ?r = "commas (map ?f ms) @ CHR ''}'' # rest"
      have js: "json_start (commas (map ?f ms))"
        using False by (intro json_start_commas) (auto simp: hd_map json_start_def quote_def is_ws_def split: prod.splits)
      then have sk: "skip_ws ?r = ?r" by (rule skip_ws_start)
      have hr: "?r \<noteq> [] \<and> hd ?r \<noteq> CHR ''}''" using js by (simp add: json_start_def)
      have "2 * length ?r + 1 < n" using f m by simp
      then have pe: "parse_members n [] ?r = Inr (JObj ms, rest)"
        using parse_members_commas [OF False ih] by simp
      from m sk hr pe show ?thesis by (simp add: skip_ws_def is_ws_def)
    qed
  qed
qed

lemma json_parse_stringify: "json_parse (json_stringify v) = Inr v"
proof -
  have st: "json_stop []" by (simp add: json_stop_def)
  have f: "2 * length (json_stringify v @ []) < 2 * length (json_stringify v) + 1" by simp
  from parse_value_stringify [of v] st f
  have "parse_value (2 * length (json_stringify v) + 1) (json_stringify v @ []) = Inr (v, [])"
    by blast
  then have "parse_value (2 * length (json_stringify v) + 1) (json_stringify v) = Inr (v, [])"
    by (simp only: append_Nil2)
  then show ?thesis by (simp add: json_parse_def skip_ws_def del: parse_value.simps)
qed

subsection \<open>Termination\<close>

text \<open>
  \<open>JSON.parse\<close> as modelled always comes back: on every input string the parser
  answers a value or a parse error, and never runs out of the fuel
  \<open>2 * length s + 1\<close> it is given, because each call consumes input or hands it to
  a call that does.
\<close>

lemma json_parse_never_out_of_fuel: "json_parse s \<noteq> Inl OutOfFuel"
proof -
  have "parse_value (2 * length s + 1) s \<noteq> Inl OutOfFuel" by (rule parse_fuel_enough(1)) simp
  then show ?thesis by (auto simp: json_parse_def split: sum.splits prod.splits)
qed

end
