(* ===== verification/Money.thy ===== *)
theory Money
  imports Json
begin

text \<open>
  How the client prints amounts: \<open>Number.prototype.toFixed(2)\<close> and the
  conversion of a number to a string in a template literal
  (\<open>Number.prototype.toString\<close>), on amounts of whole cents. The amounts of the
  pages are below \<open>10^21\<close>, where \<open>toFixed\<close> never switches to exponent
  notation; a number parsed from a two-decimal string prints as the shortest
  decimal that reads back as it, which for whole cents drops trailing zeros.
  The \<open>DECIMAL(10,2)\<close> columns reach the client as strings with two decimals
  (the driver's default), which print as \<open>fixed2\<close> of their value.
\<close>

definition two_digits :: "nat \<Rightarrow> string" where
  "two_digits n = [char_of (48 + n div 10), char_of (48 + n mod 10)]"

definition fixed2 :: "cents \<Rightarrow> string" where
  "fixed2 c =
     (if c < 0 then ''-'' else []) @ nat_str (nat \<bar>c\<bar> div 100) @ ''.'' @ two_digits (nat \<bar>c\<bar> mod 100)"

definition num_str :: "cents \<Rightarrow> string" where
  "num_str c =
     (let a = nat \<bar>c\<bar>; f = a mod 100 in
      (if c < 0 then ''-'' else []) @ nat_str (a div 100) @
      (if f = 0 then [] else if f mod 10 = 0 then [CHR ''.'', char_of (48 + f div 10)]
       else ''.'' @ two_digits f))"

text \<open>
  A number prints with two decimals exactly when its last cent digit is not 0:
  \<open>1.25\<close> prints as \<open>1.25\<close>, but \<open>1.50\<close> as \<open>1.5\<close> and \<open>2.00\<close> as \<open>2\<close>.
\<close>

lemma num_str_eq_fixed2: "num_str c = fixed2 c \<longleftrightarrow> nat \<bar>c\<bar> mod 10 \<noteq> 0"
proof -
  define a where "a = nat \<bar>c\<bar>"
  have f10: "a mod 100 mod 10 = a mod 10" by (simp add: mod_mod_cancel)
  have "num_str c = fixed2 c \<longleftrightarrow>
        (if a mod 100 = 0 then [] else if a mod 100 mod 10 = 0 then [CHR ''.'', char_of (48 + a mod 100 div 10)]
         else ''.'' @ two_digits (a mod 100)) = ''.'' @ two_digits (a mod 100)"
    by (simp add: num_str_def fixed2_def a_def Let_def)
  also have "\<dots> \<longleftrightarrow> a mod 10 \<noteq> 0"
    using f10 by (auto simp: two_digits_def dest: arg_cong [where f = length])
  finally show ?thesis by (simp add: a_def)
qed

end
