(* ===== verification/CartPage.thy ===== *)
theory CartPage
  imports Forms Client Money
begin

text \<open>
  The cart page, \<open>src/client/src/components/cart.jsx\<close>: what each button sends
  to the server (\<open>increaseQty\<close>, \<open>decreaseQty\<close>, \<open>removeItem\<close>,
  \<open>clearCart\<close>), run through the server's step function with the session's
  header, and the amounts the summary shows. The page reloads the cart after each
  action, so its rows are those of \<open>GET /api/cart\<close>.
\<close>

datatype cart_click = Increase cart_key int | Decrease cart_key int | Remove cart_key | ClearAll

text \<open>
  \<open>decreaseQty(id, currentQty)\<close> removes the line when the shown quantity is at
  most 1 and otherwise writes one less; \<open>clearCart\<close> deletes every shown line
  (the deletes run concurrently with \<open>Promise.all\<close>; deletes of distinct ids
  commute, so they run here in the order of the rows).
\<close>

fun click_requests :: "cart_view list \<Rightarrow> cart_click \<Rightarrow> request list" where
  "click_requests vs (Increase i q) = [UpdateCart i (q + 1)]"
| "click_requests vs (Decrease i q) = (if q \<le> 1 then [DeleteCart i] else [UpdateCart i (q - 1)])"
| "click_requests vs (Remove i) = [DeleteCart i]"
| "click_requests vs ClearAll = map (\<lambda>v. DeleteCart (cv_id v)) vs"

fun serve_all ::
  "libs \<Rightarrow> faults \<Rightarrow> timestamp \<Rightarrow> string option \<Rightarrow> request list \<Rightarrow> db \<Rightarrow> outcome list \<times> db" where
  "serve_all L flt now h [] d = ([], d)"
| "serve_all L flt now h (rq # rqs) d =
     (let (res, d1) = serve L flt now h rq d;
          (ress, d2) = serve_all L flt now h rqs d1
      in (res # ress, d2))"

text \<open>The summary: subtotal, tax and total of the shown rows, as on the checkout page.\<close>

definition page_totals :: "cart_view list \<Rightarrow> cents \<times> cents \<times> cents" where
  "page_totals vs =
     (let its = checkout_items (FromCart vs)
      in (subtotal its, tax (subtotal its), checkout_total its))"

subsection \<open>Properties\<close>

definition pos_cart :: "db \<Rightarrow> bool" where
  "pos_cart d \<longleftrightarrow> (\<forall>r\<in>set (cart (tbl d)). 1 \<le> cart_qty r)"

fun keeps_pos :: "request \<Rightarrow> bool" where
  "keeps_pos (UpdateCart i q) = (1 \<le> q)"
| "keeps_pos (DeleteCart i) = True"
| "keeps_pos _ = False"

fun click_ok :: "cart_click \<Rightarrow> bool" where
  "click_ok (Increase i q) = (0 \<le> q)"
| "click_ok _ = True"

lemma serve_keeps_pos:
  assumes "pos_cart d" and "keeps_pos rq" and "serve L flt now h rq d = (res, d')"
  shows "pos_cart d'"
proof (cases rq)
  case (UpdateCart i q)
  with assms show ?thesis
    by (auto simp: with_auth_def update_cart_def set_cart_qty_def pos_cart_def
        dest!: set_update_where_mem split: sum.splits if_splits)
next
  case (DeleteCart i)
  with assms show ?thesis
    by (auto simp: with_auth_def delete_cart_def delete_cart_line_def pos_cart_def
        split: sum.splits if_splits)
qed (use assms in auto)

lemma serve_all_keeps_pos:
  "pos_cart d \<Longrightarrow> \<forall>rq\<in>set rqs. keeps_pos rq \<Longrightarrow> serve_all L flt now h rqs d = (ress, d') \<Longrightarrow>
   pos_cart d'"
proof (induction rqs arbitrary: d ress)
  case Nil
  then show ?case by simp
next
  case (Cons rq rqs)
  obtain res1 d1 where e1: "serve L flt now h rq d = (res1, d1)" by fastforce
  obtain ress2 d2 where e2: "serve_all L flt now h rqs d1 = (ress2, d2)" by fastforce
  from Cons.prems(3) e1 e2 have d': "d' = d2" by simp
  have p1: "pos_cart d1" using serve_keeps_pos [OF Cons.prems(1) _ e1] Cons.prems(2) by simp
  from e2 d' have e2': "serve_all L flt now h rqs d1 = (ress2, d')" by simp
  from Cons.IH [OF p1 _ e2'] Cons.prems(2) show ?case by simp
qed

text \<open>
  C28: the buttons of the cart page never make a quantity zero or negative: from a
  cart whose lines all have quantity at least 1, any click on a shown row (a shown
  quantity is never negative) leaves every line at quantity at least 1, whichever
  requests fail. The positivity the specification asks of the ledger is kept by
  the page, not by the server.
\<close>

theorem clicks_keep_positive:
  assumes "pos_cart d" and "click_ok k"
    and "serve_all L flt now h (click_requests vs k) d = (ress, d')"
  shows "pos_cart d'"
proof (rule serve_all_keeps_pos [OF assms(1) _ assms(3)])
  show "\<forall>rq\<in>set (click_requests vs k). keeps_pos rq"
    using assms(2) by (cases k) auto
qed

theorem clicks_keep_positive_witness:
  "pos_cart (snd (serve_all demo_libs no_faults 0 (Some ''Bearer tok'')
      (click_requests [] (Decrease 1 2)) demo_cart_db))"
proof -
  obtain ress d' where e: "serve_all demo_libs no_faults 0 (Some ''Bearer tok'')
      (click_requests [] (Decrease 1 2)) demo_cart_db = (ress, d')" by fastforce
  have "pos_cart demo_cart_db" by (simp add: pos_cart_def demo_cart_simps)
  from clicks_keep_positive [OF this _ e] e show ?thesis by simp
qed

lemma serve_delete_ids:
  assumes "authenticate_token L now h = Inr c" and "\<not> flt CartDelete"
  shows "serve L flt now h (DeleteCart i) d =
         (Reply (reply 200 (PMsg ''Item removed from cart'')), delete_cart_line i d)"
  using assms by (simp add: with_auth_def delete_cart_def)

text \<open>
  "Clear Cart" deletes exactly the shown lines: the ids left in the cart table
  are the previous ones without the ids of the shown rows.
\<close>

theorem clear_all_deletes_shown:
  assumes "authenticate_token L now h = Inr c" and "\<not> flt CartDelete"
    and "serve_all L flt now h (click_requests vs ClearAll) d = (ress, d')"
  shows "map cart_id (cart (tbl d')) =
         filter (\<lambda>k. k \<notin> set (map cv_id vs)) (map cart_id (cart (tbl d)))"
  using assms(3)
proof (induction vs arbitrary: d ress)
  case Nil
  then show ?case by (simp add: filter_id_conv)
next
  case (Cons v vs)
  let ?d1 = "delete_cart_line (cv_id v) d"
  obtain ress2 d2 where e2: "serve_all L flt now h (click_requests vs ClearAll) ?d1 = (ress2, d2)"
    by fastforce
  from Cons.prems e2 serve_delete_ids [of L now h c flt "cv_id v" d, OF assms(1,2)] have d': "d' = d2"
    by simp
  from e2 d' have e2': "serve_all L flt now h (click_requests vs ClearAll) ?d1 = (ress2, d')" by simp
  from Cons.IH [OF e2'] show ?case
    by (simp add: delete_cart_line_def delete_where_def filter_map comp_def)
qed

theorem clear_all_deletes_shown_witness:
  "map cart_id (cart (tbl (snd (serve_all demo_libs no_faults 0 (Some ''Bearer tok'')
      (click_requests [cart_view_of demo_line demo_book] ClearAll) demo_cart_db)))) = []"
proof -
  obtain ress d' where e: "serve_all demo_libs no_faults 0 (Some ''Bearer tok'')
      (click_requests [cart_view_of demo_line demo_book] ClearAll) demo_cart_db = (ress, d')"
    by fastforce
  have "authenticate_token demo_libs 0 (Some ''Bearer tok'') = Inr claims1"
    by (simp add: authenticate_token_def token_of_header_def js_split_def demo_libs_def claims1_def)
  from clear_all_deletes_shown [OF this _ e] e show ?thesis
    by (simp add: cart_view_of_def demo_cart_simps)
qed

subsection \<open>The page as a component\<close>

record cart_page_state =
  cp_items :: "cart_view list"
  cp_loading :: bool

definition cart_page_init :: cart_page_state where
  "cart_page_init = \<lparr>cp_items = [], cp_loading = True\<rparr>"

definition ok_outcome :: "outcome \<Rightarrow> bool" where
  "ok_outcome res = (case res of Reply r \<Rightarrow> ok_status r | Crash _ \<Rightarrow> False)"

text \<open>\<open>loadCart\<close> (lines 18-28): the rows of a 2xx answer; a failure only clears the loading flag.\<close>

definition load_cart :: "cart_page_state \<Rightarrow> outcome \<Rightarrow> cart_page_state" where
  "load_cart st res =
     (case res of
        Reply r \<Rightarrow>
          if ok_status r then
            (case payload r of
               PCart vs \<Rightarrow> st\<lparr>cp_items := vs, cp_loading := False\<rparr>
             | _ \<Rightarrow> st\<lparr>cp_loading := False\<rparr>)
          else st\<lparr>cp_loading := False\<rparr>
      | Crash _ \<Rightarrow> st\<lparr>cp_loading := False\<rparr>)"

text \<open>The mount (lines 14-16): \<open>loadCart\<close> with the session's header.\<close>

definition cart_mount :: "libs \<Rightarrow> faults \<Rightarrow> timestamp \<Rightarrow> session \<Rightarrow> db \<Rightarrow> cart_page_state" where
  "cart_mount L flt now s d = load_cart cart_page_init (fst (serve L flt now (s_header s) GetCart d))"

text \<open>\<open>handleCheckout\<close> (lines 92-94): the checkout page, without \<open>location.state\<close>.\<close>

definition cart_checkout_target :: string where
  "cart_checkout_target = ''/checkout''"

text \<open>
  One click (lines 38-91): the requests of \<open>click_requests\<close>. When they all
  succeed, a row button reloads the cart and refreshes the count, and "Clear Cart"
  empties the list and refreshes the count; when one fails the \<open>catch\<close> only
  logs, and the page keeps its rows (the requests that succeeded have still
  written).
\<close>

definition cart_click_effect ::
  "libs \<Rightarrow> faults \<Rightarrow> timestamp \<Rightarrow> session \<Rightarrow> cart_page_state \<Rightarrow> cart_click \<Rightarrow> db \<Rightarrow>
   cart_page_state \<times> session \<times> db" where
  "cart_click_effect L flt now s st k d =
     (let (ress, d') = serve_all L flt now (s_header s) (click_requests (cp_items st) k) d in
      if list_all ok_outcome ress then
        (case k of
           ClearAll \<Rightarrow> (st\<lparr>cp_items := []\<rparr>, fetch_count_call L flt now s d', d')
         | _ \<Rightarrow> (load_cart st (fst (serve L flt now (s_header s) GetCart d')),
                 fetch_count_call L flt now s d', d'))
      else (st, s, d'))"

text \<open>
  A press of "-" on the row of line \<open>i\<close> (line 132,
  \<open>decreaseQty(item.id, item.quantity)\<close>): the quantity passed is the one the
  row shows; a line the page does not show has no button.
\<close>

definition minus_press ::
  "libs \<Rightarrow> faults \<Rightarrow> timestamp \<Rightarrow> cart_key \<Rightarrow> cart_page_state \<times> session \<times> db \<Rightarrow>
   cart_page_state \<times> session \<times> db" where
  "minus_press L flt now i p =
     (case p of (st, s, d) \<Rightarrow>
        (case find (\<lambda>v. cv_id v = i) (cp_items st) of
           None \<Rightarrow> (st, s, d)
         | Some v \<Rightarrow> cart_click_effect L flt now s st (Decrease i (cv_qty v)) d))"

record cart_line_view =
  cl_image :: string
  cl_title :: string
  cl_author :: string
  cl_qty :: int
  cl_each :: string
  cl_amount :: string

datatype cart_page = CartLoading | CartEmpty | CartShown "cart_line_view list" "string \<times> string \<times> string"

text \<open>
  The render (lines 97-194): the rows with their price (the \<open>DECIMAL\<close> string)
  and amount (\<open>toFixed(2)\<close>), and the summary of \<open>page_totals\<close>: subtotal and
  total with \<open>toFixed(2)\<close>, the tax as the number it is (\<open>${tax}\<close>); an empty
  image URL falls back to \<open>/assets/Book.jpg\<close>.
\<close>

definition cart_render :: "cart_page_state \<Rightarrow> cart_page" where
  "cart_render st =
     (if cp_loading st then CartLoading
      else if cp_items st = [] then CartEmpty
      else CartShown
        (map (\<lambda>v. \<lparr>cl_image = (if cv_image v = [] then ''/assets/Book.jpg'' else cv_image v),
                    cl_title = cv_title v, cl_author = cv_author v, cl_qty = cv_qty v,
                    cl_each = fixed2 (cv_price v), cl_amount = fixed2 (cv_price v * cv_qty v)\<rparr>) (cp_items st))
        (case page_totals (cp_items st) of (sub, tx, tot) \<Rightarrow> (fixed2 sub, num_str tx, fixed2 tot)))"

subsection \<open>Properties of the page\<close>

text \<open>
  After a row button whose request succeeded, the navigation count is the sum of
  the quantities the page shows: the reload and the count read the same table.
\<close>

lemma cart_click_count_matches:
  assumes "cart_click_effect L flt now s st k d = (st', s', d')" and "k \<noteq> ClearAll"
    and "\<not> flt CartList" and "authenticate_token L now (s_header s) = Inr c" and "s_token s \<noteq> None"
    and "list_all ok_outcome (fst (serve_all L flt now (s_header s) (click_requests (cp_items st) k) d))"
  shows "s_cart_count s' = foldl (\<lambda>n v. n + cv_qty v) 0 (cp_items st')"
proof -
  obtain ress d1 where e: "serve_all L flt now (s_header s) (click_requests (cp_items st) k) d = (ress, d1)"
    by fastforce
  with assms(6) have ok: "list_all ok_outcome ress" by simp
  have g: "fst (serve L flt now (s_header s) GetCart d1) =
           Reply (reply 200 (PCart (cart_rows (claim_user c) (tbl d1))))"
    using assms(3,4) by (simp add: with_auth_def get_cart_def)
  from assms(1,2) e ok have st': "st' = load_cart st (fst (serve L flt now (s_header s) GetCart d1))"
    and s': "s' = fetch_count_call L flt now s d1"
    by (auto simp: cart_click_effect_def split: cart_click.splits)
  have "cp_items st' = cart_rows (claim_user c) (tbl d1)"
    using st' g by (simp add: load_cart_def ok_status_def reply_def)
  with s' fetch_count_call_sum [of s L now c flt d1, OF assms(5,4,3)] show ?thesis by simp
qed

text \<open>
  Mounted with an accepted session and a working query, the page shows the
  current cart: the precondition of the liveness property below.
\<close>

lemma cart_mount_current:
  assumes "authenticate_token L now (s_header s) = Inr c" and "\<not> flt CartList"
  shows "cp_items (cart_mount L flt now s d) = cart_rows (claim_user c) (tbl d) \<and>
         \<not> cp_loading (cart_mount L flt now s d)"
  using assms by (simp add: cart_mount_def with_auth_def get_cart_def load_cart_def ok_status_def)

lemma find_map_same:
  assumes "\<And>v. P (h v) = P v"
  shows "find P (map h xs) = map_option h (find P xs)"
  using assms by (induction xs) auto

lemma s_header_fetch_count_call [simp]: "s_header (fetch_count_call L flt now s d) = s_header s"
  by (simp add: fetch_count_call_def fetch_cart_count_def split: outcome.split payload.split)

text \<open>The rows of \<open>GET /api/cart\<close> after \<open>PUT\<close> and \<open>DELETE\<close> of one line.\<close>

lemma cart_rows_set_cart_qty:
  "cart_rows u (tbl (set_cart_qty i q d)) =
   map (\<lambda>v. if cv_id v = i then v\<lparr>cv_qty := q\<rparr> else v) (cart_rows u (tbl d))"
proof -
  have "cart_rows u (t\<lparr>cart := update_where (\<lambda>r. cart_id r = i) (\<lambda>r. r\<lparr>cart_qty := q\<rparr>) rs\<rparr>) =
        map (\<lambda>v. if cv_id v = i then v\<lparr>cv_qty := q\<rparr> else v) (cart_rows u (t\<lparr>cart := rs\<rparr>))"
    for t rs by (induction rs) (auto simp: cart_rows_def cart_view_of_def)
  from this [where t = "tbl d" and rs = "cart (tbl d)"] show ?thesis by (simp add: set_cart_qty_def)
qed

lemma cart_rows_delete_cart_line:
  "cart_rows u (tbl (delete_cart_line i d)) = filter (\<lambda>v. cv_id v \<noteq> i) (cart_rows u (tbl d))"
proof -
  have "cart_rows u (t\<lparr>cart := delete_where (\<lambda>r. cart_id r = i) rs\<rparr>) =
        filter (\<lambda>v. cv_id v \<noteq> i) (cart_rows u (t\<lparr>cart := rs\<rparr>))"
    for t rs by (induction rs) (auto simp: cart_rows_def cart_view_of_def filter_concat comp_def)
  from this [where t = "tbl d" and rs = "cart (tbl d)"] show ?thesis by (simp add: delete_cart_line_def)
qed

text \<open>
  One press of "-" with the page showing the current cart and no failing
  statement: the line is deleted (shown quantity at most 1) or its quantity
  lowered by one, and the page reloads the cart.
\<close>

lemma minus_press_step:
  assumes auth: "authenticate_token L now (s_header s) = Inr c"
    and nf: "\<not> flt CartSet" "\<not> flt CartDelete" "\<not> flt CartList"
    and v: "find (\<lambda>v. cv_id v = i) (cp_items st) = Some v" and ok: "int_col_ok (cv_qty v)"
    and e: "minus_press L flt now i (st, s, d) = (st', s', d')"
  shows "d' = (if cv_qty v \<le> 1 then delete_cart_line i d else set_cart_qty i (cv_qty v - 1) d) \<and>
         cp_items st' = cart_rows (claim_user c) (tbl d') \<and> s_header s' = s_header s"
proof -
  have ok1: "1 < cv_qty v \<Longrightarrow> int_col_ok (cv_qty v - 1)"
    using ok by (simp add: int_col_ok_def)
  have get: "fst (serve L flt now (s_header s) GetCart d0) =
             Reply (reply 200 (PCart (cart_rows (claim_user c) (tbl d0))))" for d0
    using auth nf by (simp add: with_auth_def get_cart_def)
  show ?thesis
    using e v auth nf ok1 get [of "delete_cart_line i d"] get [of "set_cart_qty i (cv_qty v - 1) d"]
    by (auto simp: minus_press_def cart_click_effect_def with_auth_def update_cart_def delete_cart_def
        ok_outcome_def ok_status_def load_cart_def split: if_splits)
qed

lemma minus_press_absent:
  "find (\<lambda>v. cv_id v = i) (cp_items st) = None \<Longrightarrow> (minus_press L flt now i ^^ n) (st, s, d) = (st, s, d)"
  by (induction n) (simp_all add: minus_press_def)

lemma minus_presses_Suc:
  assumes auth: "authenticate_token L now (s_header s) = Inr c"
    and nf: "\<not> flt CartSet" "\<not> flt CartDelete" "\<not> flt CartList"
    and shown: "cp_items st = cart_rows (claim_user c) (tbl d)"
    and v: "find (\<lambda>v. cv_id v = i) (cp_items st) = Some v" and ok: "int_col_ok (cv_qty v)"
    and q: "cv_qty v \<le> int (Suc n)"
    and e: "(minus_press L flt now i ^^ Suc n) (st, s, d) = (st', s', d')"
  shows "i \<notin> set (map cart_id (cart (tbl d'))) \<and> i \<notin> set (map cv_id (cp_items st'))"
  using assms
proof (induction n arbitrary: st s d v)
  case 0
  obtain st1 s1 d1 where e1: "minus_press L flt now i (st, s, d) = (st1, s1, d1)"
    by (metis prod.exhaust)
  from minus_press_step [OF "0.prems"(1-4,6,7) e1] "0.prems"(8)
  have d1: "d1 = delete_cart_line i d" and st1: "cp_items st1 = cart_rows (claim_user c) (tbl d1)"
    by auto
  from "0.prems"(9) e1 have "st' = st1" "d' = d1" by simp_all
  with d1 st1 show ?case
    by (simp add: cart_rows_delete_cart_line) (auto simp: delete_cart_line_def delete_where_def)
next
  case (Suc n)
  obtain st1 s1 d1 where e1: "minus_press L flt now i (st, s, d) = (st1, s1, d1)"
    by (metis prod.exhaust)
  note step = minus_press_step [OF Suc.prems(1-4,6,7) e1]
  have rest: "(minus_press L flt now i ^^ Suc n) (st1, s1, d1) = (st', s', d')"
    using Suc.prems(9) e1 by (simp only: funpow_Suc_right comp_def)
  show ?case
  proof (cases "cv_qty v \<le> 1")
    case True
    with step have st1: "cp_items st1 = filter (\<lambda>v. cv_id v \<noteq> i) (cart_rows (claim_user c) (tbl d))"
      and d1: "d1 = delete_cart_line i d"
      by (simp_all add: cart_rows_delete_cart_line)
    then have "find (\<lambda>v. cv_id v = i) (cp_items st1) = None" by (simp add: find_None_iff)
    then have "(st1, s1, d1) = (st', s', d')" using rest by (simp only: minus_press_absent)
    then have "st' = st1" "d' = d1" by simp_all
    with st1 d1 show ?thesis
      by (auto simp: delete_cart_line_def delete_where_def)
  next
    case False
    let ?w = "v\<lparr>cv_qty := cv_qty v - 1\<rparr>"
    from step False have d1: "d1 = set_cart_qty i (cv_qty v - 1) d"
      and st1: "cp_items st1 = cart_rows (claim_user c) (tbl d1)" and h1: "s_header s1 = s_header s"
      by simp_all
    have "cv_id v = i" using Suc.prems(6) by (auto simp: find_Some_iff)
    then have v1: "find (\<lambda>v. cv_id v = i) (cp_items st1) = Some ?w"
      using Suc.prems(5,6) st1 d1 by (simp add: cart_rows_set_cart_qty find_map_same)
    have ok1: "int_col_ok (cv_qty ?w)" using Suc.prems(7) False by (simp add: int_col_ok_def)
    have q1: "cv_qty ?w \<le> int (Suc n)" using Suc.prems(8) by simp
    from Suc.IH [OF Suc.prems(1) [folded h1] Suc.prems(2-4) st1 v1 ok1 q1 rest] show ?thesis .
  qed
qed

text \<open>
  C29 (liveness): pressing "-" on a shown line as often as its quantity says (once
  for a quantity of 1 or less) removes it from the table and from the page, when
  the page shows the current cart and the session is accepted; the failures of
  the statements are the only way to keep the line.
\<close>

theorem minus_presses_remove:
  assumes "authenticate_token L now (s_header s) = Inr c"
    and "\<not> flt CartSet" "\<not> flt CartDelete" "\<not> flt CartList"
    and "cp_items st = cart_rows (claim_user c) (tbl d)"
    and "find (\<lambda>v. cv_id v = i) (cp_items st) = Some v" and "int_col_ok (cv_qty v)"
    and "(minus_press L flt now i ^^ nat (max 1 (cv_qty v))) (st, s, d) = (st', s', d')"
  shows "i \<notin> set (map cart_id (cart (tbl d'))) \<and> i \<notin> set (map cv_id (cp_items st'))"
proof -
  obtain n where n: "nat (max 1 (cv_qty v)) = Suc n" by (metis gr0_conv_Suc nat_0_less_mult_iff
        max.strict_coboundedI1 zero_less_one nat_mult_1 zero_less_nat_eq)
  have "cv_qty v \<le> int (Suc n)" using n by linarith
  from minus_presses_Suc [OF assms(1-7) this assms(8) [unfolded n]] show ?thesis .
qed

definition demo_cart_page :: cart_page_state where
  "demo_cart_page = \<lparr>cp_items = cart_rows 1 (tbl demo_cart_db), cp_loading = False\<rparr>"

theorem minus_presses_remove_witness:
  "1 \<notin> set (map cart_id (cart (tbl (snd (snd ((minus_press demo_libs no_faults 0 1 ^^ 2)
      (demo_cart_page, (session_init (Some ''tok''))\<lparr>s_header := Some ''Bearer tok''\<rparr>, demo_cart_db)))))))"
proof -
  let ?s = "(session_init (Some ''tok''))\<lparr>s_header := Some ''Bearer tok''\<rparr>"
  obtain st' s' d' where e: "(minus_press demo_libs no_faults 0 1 ^^ 2) (demo_cart_page, ?s, demo_cart_db) =
      (st', s', d')" by (metis prod.exhaust)
  have auth: "authenticate_token demo_libs 0 (s_header ?s) = Inr claims1"
    by (simp add: authenticate_token_def token_of_header_def js_split_def demo_libs_def claims1_def)
  have shown: "cp_items demo_cart_page = cart_rows (claim_user claims1) (tbl demo_cart_db)"
    by (simp add: demo_cart_page_def claims1_def)
  have v: "find (\<lambda>v. cv_id v = 1) (cp_items demo_cart_page) = Some (cart_view_of demo_line demo_book)"
    by (simp add: demo_cart_page_def cart_rows_def demo_cart_simps cart_view_of_def)
  have q: "nat (max 1 (cv_qty (cart_view_of demo_line demo_book))) = 2"
    by (simp add: cart_view_of_def demo_line_def)
  have ok: "int_col_ok (cv_qty (cart_view_of demo_line demo_book))"
    by (simp add: cart_view_of_def demo_line_def int_col_ok_def)
  from minus_presses_remove [OF auth _ _ _ shown v ok e [folded q]] e show ?thesis by simp
qed

end
