(* ===== verification/JsSort.thy ===== *)
theory JsSort
  imports Prelude "HOL-Library.Multiset"
begin

text \<open>
  \<open>Array.prototype.sort(comparefn)\<close> of the JavaScript engine the client runs
  on. Since ECMAScript 2019 the sort must be stable, and for a consistent
  comparator its result is then determined; engines implement it as a merge sort
  (TimSort in V8). The model is a top-down merge sort driven by the comparator's
  sign: an element of the right run goes first only when the comparator says the
  left one is greater. The lemmas show that for a comparator of the form
  \<open>f a - f b\<close> the result is HOL's stable insertion sort \<open>sort_key f\<close>, the
  reference the properties of the pages are stated with.
\<close>

fun js_merge :: "('a \<Rightarrow> 'a \<Rightarrow> int) \<Rightarrow> 'a list \<Rightarrow> 'a list \<Rightarrow> 'a list" where
  "js_merge cmp [] ys = ys"
| "js_merge cmp xs [] = xs"
| "js_merge cmp (x # xs) (y # ys) =
     (if 0 < cmp x y then y # js_merge cmp (x # xs) ys else x # js_merge cmp xs (y # ys))"

function js_sort :: "('a \<Rightarrow> 'a \<Rightarrow> int) \<Rightarrow> 'a list \<Rightarrow> 'a list" where
  "js_sort cmp xs =
     (if length xs \<le> 1 then xs
      else js_merge cmp (js_sort cmp (take (length xs div 2) xs)) (js_sort cmp (drop (length xs div 2) xs)))"
  by pat_completeness auto
termination
  by (relation "measure (\<lambda>(cmp, xs). length xs)") auto

declare js_sort.simps [simp del]

subsection \<open>Merging\<close>

lemma mset_js_merge [simp]: "mset (js_merge cmp xs ys) = mset xs + mset ys"
  by (induction cmp xs ys rule: js_merge.induct) auto

lemma set_js_merge [simp]: "set (js_merge cmp xs ys) = set xs \<union> set ys"
  by (metis mset_js_merge set_mset_mset set_mset_union)

text \<open>For a key comparator, merging two runs sorted by the key gives a run sorted by it.\<close>

lemma sorted_js_merge:
  "sorted (map f xs) \<Longrightarrow> sorted (map f ys) \<Longrightarrow> sorted (map f (js_merge (\<lambda>a b. f a - f b) xs ys))"
  by (induction "\<lambda>a b. f a - f b" xs ys rule: js_merge.induct) auto

text \<open>
  Merging is stable: within one key, the elements of the left run come first, in
  their order, then those of the right run.
\<close>

lemma filter_js_merge:
  "sorted (map f xs) \<Longrightarrow> sorted (map f ys) \<Longrightarrow>
   filter (\<lambda>z. f z = k) (js_merge (\<lambda>a b. f a - f b) xs ys) =
   filter (\<lambda>z. f z = k) xs @ filter (\<lambda>z. f z = k) ys"
proof (induction "\<lambda>a b. f a - f b" xs ys rule: js_merge.induct)
  case (3 x xs y ys)
  show ?case
  proof (cases "f y < f x")
    case True
    then have "filter (\<lambda>z. f z = f y) (x # xs) = []"
      using "3.prems"(1) by (auto simp: filter_empty_conv)
    with True "3.hyps"(1) "3.prems" show ?thesis by auto
  next
    case False
    with "3.hyps"(2) "3.prems" show ?thesis by auto
  qed
qed simp_all

subsection \<open>Sorting\<close>

lemma mset_js_sort [simp]: "mset (js_sort cmp xs) = mset xs"
proof (induction cmp xs rule: js_sort.induct)
  case (1 cmp xs)
  then show ?case
    by (subst js_sort.simps) (simp del: mset_append add: mset_append [symmetric])
qed

lemma sorted_js_sort: "sorted (map f (js_sort (\<lambda>a b. f a - f b) xs))"
proof (induction "\<lambda>a b. f a - f b" xs rule: js_sort.induct)
  case (1 xs)
  then show ?case
    by (subst js_sort.simps) (auto intro: sorted_js_merge simp: le_Suc_eq length_Suc_conv)
qed

lemma filter_js_sort:
  "filter (\<lambda>z. f z = k) (js_sort (\<lambda>a b. f a - f b) xs) = filter (\<lambda>z. f z = k) xs"
proof (induction "\<lambda>a b. f a - f b" xs rule: js_sort.induct)
  case (1 xs)
  show ?case
  proof (cases "length xs \<le> 1")
    case True
    then show ?thesis by (subst js_sort.simps) simp
  next
    case False
    let ?n = "length xs div 2"
    have "filter (\<lambda>z. f z = k) (js_sort (\<lambda>a b. f a - f b) xs) =
          filter (\<lambda>z. f z = k) (take ?n xs) @ filter (\<lambda>z. f z = k) (drop ?n xs)"
      using False "1.hyps" by (subst js_sort.simps) (simp add: filter_js_merge sorted_js_sort)
    then show ?thesis by (simp flip: filter_append)
  qed
qed

text \<open>
  The engine's merge sort with the comparator \<open>f a - f b\<close> is the stable sort by
  \<open>f\<close>.
\<close>

lemma js_sort_key: "js_sort (\<lambda>a b. f a - f b) xs = sort_key f xs"
proof (rule properties_for_sort_key [symmetric])
  show "mset (js_sort (\<lambda>a b. f a - f b) xs) = mset xs" by simp
  show "sorted (map f (js_sort (\<lambda>a b. f a - f b) xs))" by (rule sorted_js_sort)
  fix k
  show "filter (\<lambda>x. f k = f x) (js_sort (\<lambda>a b. f a - f b) xs) = filter (\<lambda>x. f k = f x) xs"
    using filter_js_sort [of f "f k" xs] by (simp add: eq_commute)
qed

text \<open>A comparator that returns 0 for every pair leaves the array as it is.\<close>

lemma js_sort_zero: "js_sort (\<lambda>a b. 0) xs = xs"
  using js_sort_key [of "\<lambda>_. 0::int" xs] sort_key_stable [of "\<lambda>_. 0::int" 0 xs] by simp

end
