(* ===== verification/Browse.thy ===== *)
theory Browse
  imports Db JsSort "HOL-Library.Sublist"
begin

text \<open>
  The catalog page, \<open>src/client/src/components/Browse.jsx\<close>: the search box and
  the category buttons filter the books of \<open>GET /api/books\<close>, and the sort
  buttons order the result with \<open>Array.prototype.sort\<close>, which is stable. The
  comparators \<open>a.price - b.price\<close>, \<open>b.price - a.price\<close> and
  \<open>b.rating - a.rating\<close> order by a key; "Newest" returns 0 for every pair and
  so keeps the server's order. \<open>toLowerCase\<close> is modelled on ASCII letters.
\<close>

definition lower_char :: "char \<Rightarrow> char" where
  "lower_char c = (if 65 \<le> (of_char c :: nat) \<and> (of_char c :: nat) \<le> 90
                   then char_of (of_char c + (32::nat)) else c)"

definition to_lower :: "string \<Rightarrow> string" where
  "to_lower s = map lower_char s"

text \<open>\<open>String.prototype.includes\<close>: the needle occurs at some position.\<close>

definition js_includes :: "string \<Rightarrow> string \<Rightarrow> bool" where
  "js_includes hay needle \<longleftrightarrow>
     list_ex (\<lambda>i. take (length needle) (drop i hay) = needle) [0..<Suc (length hay)]"

definition matches :: "string \<Rightarrow> string \<Rightarrow> book_row \<Rightarrow> bool" where
  "matches search category b \<longleftrightarrow>
     (js_includes (to_lower (book_title b)) (to_lower search) \<or>
      js_includes (to_lower (book_author b)) (to_lower search)) \<and>
     (category = ''All'' \<or> book_category b = category)"

datatype sort_mode = Newest | PriceLow | PriceHigh | Rating

text \<open>
  The comparator of lines 40-51: the price difference either way, the rating
  difference (descending), and 0 for any other sort, "Newest" included.
\<close>

definition book_cmp :: "sort_mode \<Rightarrow> book_row \<Rightarrow> book_row \<Rightarrow> int" where
  "book_cmp mode a b =
     (if mode = PriceLow then book_price a - book_price b
      else if mode = PriceHigh then book_price b - book_price a
      else if mode = Rating then book_rating b - book_rating a
      else 0)"

text \<open>The effect of lines 28-54: filter, then \<open>result.sort\<close> with the comparator.\<close>

definition browse_view :: "string \<Rightarrow> string \<Rightarrow> sort_mode \<Rightarrow> book_row list \<Rightarrow> book_row list" where
  "browse_view search category mode bs = js_sort (book_cmp mode) (filter (matches search category) bs)"

text \<open>
  The reference the properties are stated with: the stable sort by the key each
  mode orders by (ascending), and the server's order for "Newest".
\<close>

fun sort_key_of :: "sort_mode \<Rightarrow> (book_row \<Rightarrow> int) option" where
  "sort_key_of Newest = None"
| "sort_key_of PriceLow = Some book_price"
| "sort_key_of PriceHigh = Some (\<lambda>b. - book_price b)"
| "sort_key_of Rating = Some (\<lambda>b. - book_rating b)"

definition sort_books :: "sort_mode \<Rightarrow> book_row list \<Rightarrow> book_row list" where
  "sort_books mode bs = (case sort_key_of mode of None \<Rightarrow> bs | Some f \<Rightarrow> sort_key f bs)"

subsection \<open>Properties\<close>

lemma mset_sort_books [simp]: "mset (sort_books mode bs) = mset bs"
  by (cases mode) (simp_all add: sort_books_def)

text \<open>Each comparator is the difference of the mode's key, or 0.\<close>

lemma book_cmp_key:
  "book_cmp mode = (case sort_key_of mode of None \<Rightarrow> (\<lambda>a b. 0) | Some f \<Rightarrow> (\<lambda>a b. f a - f b))"
  by (cases mode) (auto simp: book_cmp_def fun_eq_iff)

lemma js_sort_sort_key_of:
  "js_sort (case sort_key_of mode of None \<Rightarrow> (\<lambda>a b. 0) | Some f \<Rightarrow> (\<lambda>a b. f a - f b)) bs =
   sort_books mode bs"
  by (simp add: sort_books_def js_sort_key js_sort_zero split: option.split)

lemma browse_view_sort_books: "browse_view s cat mode bs = sort_books mode (filter (matches s cat) bs)"
  by (simp only: browse_view_def book_cmp_key js_sort_sort_key_of)

text \<open>
  \<open>String.prototype.includes\<close> is containment as a contiguous piece: the
  needle is found at some position exactly when the haystack is some text, the
  needle, and some more text.
\<close>

lemma js_includes_sublist: "js_includes hay needle \<longleftrightarrow> sublist needle hay"
proof
  assume "js_includes hay needle"
  then obtain i where "take (length needle) (drop i hay) = needle"
    unfolding js_includes_def list_ex_iff by blast
  then have "hay = take i hay @ needle @ drop (length needle) (drop i hay)"
    by (metis append_take_drop_id)
  then show "sublist needle hay" by (metis sublist_appendI)
next
  assume "sublist needle hay"
  then obtain ps ss where h: "hay = ps @ needle @ ss" by (auto simp: sublist_def)
  then have "take (length needle) (drop (length ps) hay) = needle" by simp
  moreover have "length ps \<in> set [0..<Suc (length hay)]" using h by simp
  ultimately show "js_includes hay needle" unfolding js_includes_def list_ex_iff by blast
qed

text \<open>
  C31: the catalog page shows a book exactly when the lowercased search text
  occurs in its lowercased title or in its lowercased author (the empty search
  occurs everywhere), and the category is "All" or the book's own; a shown book
  appears as often as the server sent it, whatever the sort.
\<close>

theorem browse_view_search:
  "count (mset (browse_view s cat mode bs)) b =
   (if (sublist (to_lower s) (to_lower (book_title b)) \<or> sublist (to_lower s) (to_lower (book_author b))) \<and>
       (cat = ''All'' \<or> book_category b = cat)
    then count (mset bs) b else 0)"
  by (simp add: browse_view_def matches_def js_includes_sublist)

text \<open>
  Sorting by price is stable: books of equal price keep the relative order in
  which the server sent them.
\<close>

lemma browse_price_low_stable:
  "filter (\<lambda>b. book_price b = p) (browse_view s cat PriceLow bs) =
   filter (\<lambda>b. book_price b = p \<and> matches s cat b) bs"
  by (simp add: browse_view_sort_books sort_books_def sort_key_stable filter_filter conj_commute)

text \<open>
  C33: the engine's merge sort driven by the page's comparator orders the books
  exactly as the stable sort by the mode's key (ascending price, descending
  price, descending rating), and keeps the server's order for "Newest".
\<close>

theorem browse_sort_equiv: "js_sort (book_cmp mode) bs = sort_books mode bs"
  unfolding book_cmp_key by (rule js_sort_sort_key_of)

end
