(* ===== verification/CheckoutPage.thy ===== *)
theory CheckoutPage
  imports Server Client Session Money
begin

text \<open>
  The checkout page \<open>src/client/src/components/Checkout.jsx\<close> as a whole: its
  state (the items, the shipping form prefilled from the session's user, the
  payment form), the mount effect that loads the items, the input handler, the
  browser's \<open>required\<close> check on the ten fields, and \<open>handleSubmit\<close> run
  against the server's step function and the session. The amounts and the body
  of the request are those of \<open>Client\<close>.
\<close>

record payment =
  pay_card_name :: string
  pay_card_number :: string
  pay_expiry :: string
  pay_cvv :: string

record checkout_page =
  ck_items :: "checkout_item list"
  ck_ship :: shipping
  ck_pay :: payment

text \<open>Lines 13-26: name and email from \<open>user?.name || ""\<close>, the rest empty.\<close>

definition checkout_ship_init :: "session \<Rightarrow> shipping" where
  "checkout_ship_init s =
     \<lparr>ship_name = (case s_user s of Some u \<Rightarrow> pub_name u | None \<Rightarrow> []),
      ship_email = (case s_user s of Some u \<Rightarrow> pub_email u | None \<Rightarrow> []),
      ship_address = [], ship_city = [], ship_zip = [], ship_phone = []\<rparr>"

definition payment_init :: payment where
  "payment_init = \<lparr>pay_card_name = [], pay_card_number = [], pay_expiry = [], pay_cvv = []\<rparr>"

datatype checkout_location = WithBook book_row int | NoBook

text \<open>
  The effect of lines 28-39: the book and quantity of \<open>location.state\<close>, or the
  rows of \<open>GET /api/cart\<close>; a failed request leaves the list empty.
\<close>

definition checkout_load ::
  "libs \<Rightarrow> faults \<Rightarrow> timestamp \<Rightarrow> session \<Rightarrow> checkout_location \<Rightarrow> db \<Rightarrow> checkout_item list" where
  "checkout_load L flt now s loc d =
     (case loc of
        WithBook b q \<Rightarrow> checkout_items (BuyNow b q)
      | NoBook \<Rightarrow>
          (case fst (serve L flt now (s_header s) GetCart d) of
             Reply r \<Rightarrow>
               if ok_status r then (case payload r of PCart vs \<Rightarrow> checkout_items (FromCart vs) | _ \<Rightarrow> [])
               else []
           | Crash _ \<Rightarrow> []))"

definition checkout_mount ::
  "libs \<Rightarrow> faults \<Rightarrow> timestamp \<Rightarrow> session \<Rightarrow> checkout_location \<Rightarrow> db \<Rightarrow> checkout_page" where
  "checkout_mount L flt now s loc d =
     \<lparr>ck_items = checkout_load L flt now s loc d, ck_ship = checkout_ship_init s, ck_pay = payment_init\<rparr>"

text \<open>\<open>handleInputChange\<close> (lines 70-72), one constructor per named input.\<close>

datatype checkout_input =
    InName string | InEmail string | InPhone string | InAddress string | InCity string | InZip string
  | InCardName string | InCardNumber string | InExpiry string | InCvv string

fun input_change :: "checkout_page \<Rightarrow> checkout_input \<Rightarrow> checkout_page" where
  "input_change p (InName v) = p\<lparr>ck_ship := (ck_ship p)\<lparr>ship_name := v\<rparr>\<rparr>"
| "input_change p (InEmail v) = p\<lparr>ck_ship := (ck_ship p)\<lparr>ship_email := v\<rparr>\<rparr>"
| "input_change p (InPhone v) = p\<lparr>ck_ship := (ck_ship p)\<lparr>ship_phone := v\<rparr>\<rparr>"
| "input_change p (InAddress v) = p\<lparr>ck_ship := (ck_ship p)\<lparr>ship_address := v\<rparr>\<rparr>"
| "input_change p (InCity v) = p\<lparr>ck_ship := (ck_ship p)\<lparr>ship_city := v\<rparr>\<rparr>"
| "input_change p (InZip v) = p\<lparr>ck_ship := (ck_ship p)\<lparr>ship_zip := v\<rparr>\<rparr>"
| "input_change p (InCardName v) = p\<lparr>ck_pay := (ck_pay p)\<lparr>pay_card_name := v\<rparr>\<rparr>"
| "input_change p (InCardNumber v) = p\<lparr>ck_pay := (ck_pay p)\<lparr>pay_card_number := v\<rparr>\<rparr>"
| "input_change p (InExpiry v) = p\<lparr>ck_pay := (ck_pay p)\<lparr>pay_expiry := v\<rparr>\<rparr>"
| "input_change p (InCvv v) = p\<lparr>ck_pay := (ck_pay p)\<lparr>pay_cvv := v\<rparr>\<rparr>"

text \<open>
  Every input of the form (lines 91-203) is \<open>required\<close>: the browser submits
  only when all ten are non-empty. The payment fields are checked for presence
  only and are never sent.
\<close>

definition form_filled :: "checkout_page \<Rightarrow> bool" where
  "form_filled p \<longleftrightarrow>
     ship_name (ck_ship p) \<noteq> [] \<and> ship_email (ck_ship p) \<noteq> [] \<and> ship_phone (ck_ship p) \<noteq> [] \<and>
     ship_address (ck_ship p) \<noteq> [] \<and> ship_city (ck_ship p) \<noteq> [] \<and> ship_zip (ck_ship p) \<noteq> [] \<and>
     pay_card_name (ck_pay p) \<noteq> [] \<and> pay_card_number (ck_pay p) \<noteq> [] \<and>
     pay_expiry (ck_pay p) \<noteq> [] \<and> pay_cvv (ck_pay p) \<noteq> []"

datatype checkout_result = EmptyCartPage | FormBlocked | OrderPlaced | OrderFailed

text \<open>
  A press of "Pay": with no items the page shows "Your cart is empty" and has no
  form (lines 74-81); with an empty field the browser blocks the submission;
  otherwise \<open>handleSubmit\<close> (lines 46-68) posts the order with the session's
  header, and on success resets the cart count and goes to \<open>/my-orders\<close>, on
  failure alerts and stays.
\<close>

definition checkout_submit ::
  "libs \<Rightarrow> faults \<Rightarrow> timestamp \<Rightarrow> session \<Rightarrow> checkout_page \<Rightarrow> db \<Rightarrow> checkout_result \<times> session \<times> db" where
  "checkout_submit L flt now s p d =
     (if ck_items p = [] then (EmptyCartPage, s, d)
      else if \<not> form_filled p then (FormBlocked, s, d)
      else
        (case serve L flt now (s_header s)
                (PlaceOrder (order_body_items (ck_items p)) (checkout_total (ck_items p)) (ck_ship p)) d of
           (Reply r, d') \<Rightarrow> if ok_status r then (OrderPlaced, reset_cart_count s, d') else (OrderFailed, s, d')
         | (Crash _, d') \<Rightarrow> (OrderFailed, s, d')))"

text \<open>
  The order summary beside the form (lines 206-234): one line per item with its
  amount, the subtotal, the tax as the number it is (\<open>${tax}\<close>), the total,
  and the same total on the "Pay" button.
\<close>

record summary_view =
  sm_lines :: "(string \<times> int \<times> string) list"
  sm_subtotal :: string
  sm_tax :: string
  sm_total :: string
  sm_pay :: string

definition checkout_summary :: "checkout_item list \<Rightarrow> summary_view" where
  "checkout_summary its =
     \<lparr>sm_lines = map (\<lambda>it. (ci_title it, ci_qty it, fixed2 (ci_price it * ci_qty it))) its,
      sm_subtotal = fixed2 (subtotal its), sm_tax = num_str (tax (subtotal its)),
      sm_total = fixed2 (checkout_total its), sm_pay = ''Pay $'' @ fixed2 (checkout_total its)\<rparr>"

section \<open>Properties\<close>

lemma place_order_ok:
  assumes "serve L flt now h (PlaceOrder its amt sh) d = (Reply r, d')" and "ok_status r"
    and "snapshot d = None"
  shows "\<exists>c. authenticate_token L now h = Inr c \<and>
           tbl d' = placed (claim_user c) (next_order d) its amt sh now (tbl d)"
proof (cases "authenticate_token L now h")
  case (Inl r0)
  with assms(1) have "r0 = r" by (simp add: with_auth_def)
  with Inl guard_reply_not_ok assms(2) show ?thesis by blast
next
  case (Inr c)
  with assms(1) have co: "create_order flt now c its amt sh d = (Reply r, d')" by (simp add: with_auth_def)
  from create_order_shape [OF co assms(3)] assms(2) Inr show ?thesis
    by (auto simp: ok_status_def reply_def)
qed

text \<open>
  What a reported success means for the page, the server and the session.
\<close>

lemma checkout_submit_placed:
  assumes "snapshot d = None" and "checkout_submit L flt now s p d = (OrderPlaced, s', d')"
  shows "\<exists>c. authenticate_token L now (s_header s) = Inr c \<and> ck_items p \<noteq> [] \<and> form_filled p \<and>
           tbl d' = placed (claim_user c) (next_order d) (order_body_items (ck_items p))
                      (checkout_total (ck_items p)) (ck_ship p) now (tbl d) \<and>
           s' = reset_cart_count s"
proof -
  obtain res d1 where e: "serve L flt now (s_header s)
      (PlaceOrder (order_body_items (ck_items p)) (checkout_total (ck_items p)) (ck_ship p)) d = (res, d1)"
    by fastforce
  from assms(2) have ne: "ck_items p \<noteq> []" and ff: "form_filled p"
    by (auto simp: checkout_submit_def split: if_splits)
  from assms(2) ne ff e obtain r where r: "res = Reply r" "ok_status r" "d' = d1" "s' = reset_cart_count s"
    by (auto simp: checkout_submit_def split: outcome.splits if_splits)
  from place_order_ok [OF e [unfolded r(1)] r(2) assms(1)] ne ff r(3,4) show ?thesis by auto
qed

text \<open>
  C40: when the checkout page reports success, the server holds exactly what the
  page showed: the caller's token was accepted, the page had items, the tables are
  those of a placed order with the page's items, its total (subtotal plus tax)
  and the shipping form as filled, the user's cart is cleared, and the session's
  cart count is 0.
\<close>

theorem checkout_placed_effect:
  assumes "snapshot d = None" and "checkout_submit L flt now s p d = (OrderPlaced, s', d')"
  shows "\<exists>c. authenticate_token L now (s_header s) = Inr c \<and> ck_items p \<noteq> [] \<and> form_filled p \<and>
           tbl d' = placed (claim_user c) (next_order d) (order_body_items (ck_items p))
                      (checkout_total (ck_items p)) (ck_ship p) now (tbl d) \<and>
           s_cart_count s' = 0"
  using checkout_submit_placed [OF assms] by (auto simp: reset_cart_count_def)

definition demo_checkout :: checkout_page where
  "demo_checkout =
     \<lparr>ck_items = checkout_items (BuyNow demo_book 1),
      ck_ship = demo_ship,
      ck_pay = \<lparr>pay_card_name = ''A'', pay_card_number = ''4111'', pay_expiry = ''12/30'', pay_cvv = ''123''\<rparr>\<rparr>"

lemma demo_checkout_placed:
  assumes "s_header s = Some ''Bearer tok''"
  shows "fst (checkout_submit demo_libs no_faults 0 s demo_checkout demo_cart_db) = OrderPlaced"
  using assms
  by (simp add: checkout_submit_def demo_checkout_def form_filled_def demo_ship_def
      with_auth_def authenticate_token_def token_of_header_def js_split_def demo_libs_def
      create_order_def demo_cart_simps checkout_items.simps demo_book_def
      ok_status_def order_body_items_def items_insert_ok_def int_col_ok_def item_rows_def Let_def)

theorem checkout_placed_effect_witness:
  "s_cart_count (fst (snd (checkout_submit demo_libs no_faults 0
      ((session_init (Some ''tok''))\<lparr>s_header := Some ''Bearer tok'', s_cart_count := 3\<rparr>)
      demo_checkout demo_cart_db))) = 0"
proof -
  obtain r s' d' where e: "checkout_submit demo_libs no_faults 0
      ((session_init (Some ''tok''))\<lparr>s_header := Some ''Bearer tok'', s_cart_count := 3\<rparr>)
      demo_checkout demo_cart_db = (r, s', d')"
    by (metis prod.exhaust)
  have placed: "r = OrderPlaced" using demo_checkout_placed [of
      "(session_init (Some ''tok''))\<lparr>s_header := Some ''Bearer tok'', s_cart_count := 3\<rparr>"] e by simp
  have sn: "snapshot demo_cart_db = None" by (simp add: demo_cart_simps)
  from checkout_placed_effect [OF sn e [unfolded placed]] e show ?thesis by auto
qed

end
