(* ===== verification/BrowsePage.thy ===== *)
theory BrowsePage
  imports Browse Server Session Json
begin

text \<open>
  The catalog page \<open>src/client/src/components/Browse.jsx\<close> as a component: its
  six React states, the mount effect that loads \<open>GET /api/books\<close>, the search
  box, the category and sort buttons, the effect that recomputes the shown list
  from them (\<open>browse_view\<close>), and the rendered cards of \<open>BookCard.jsx\<close>, each a
  link to the book's page. Ratings are whole numbers here, so
  \<open>Math.round(book.rating)\<close> is the rating itself.
\<close>

record browse_state =
  br_books :: "book_row list"
  br_filtered :: "book_row list"
  br_search :: string
  br_category :: string
  br_sort :: sort_mode
  br_loading :: bool

definition browse_init :: browse_state where
  "browse_init =
     \<lparr>br_books = [], br_filtered = [], br_search = [], br_category = ''All'', br_sort = Newest,
      br_loading = True\<rparr>"

text \<open>The effect of lines 28-54, run whenever books, search, category or sort change.\<close>

definition browse_effect :: "browse_state \<Rightarrow> browse_state" where
  "browse_effect st =
     st\<lparr>br_filtered := browse_view (br_search st) (br_category st) (br_sort st) (br_books st)\<rparr>"

text \<open>
  The mount effect (lines 15-26): on an answer store the books in both lists; on a
  failure only clear the loading flag.
\<close>

definition browse_load :: "browse_state \<Rightarrow> outcome \<Rightarrow> browse_state" where
  "browse_load st res =
     (case res of
        Reply r \<Rightarrow>
          if ok_status r then
            (case payload r of
               PBooks bs \<Rightarrow> browse_effect (st\<lparr>br_books := bs, br_filtered := bs, br_loading := False\<rparr>)
             | _ \<Rightarrow> st\<lparr>br_loading := False\<rparr>)
          else st\<lparr>br_loading := False\<rparr>
      | Crash _ \<Rightarrow> st\<lparr>br_loading := False\<rparr>)"

text \<open>The categories of the buttons (line 80).\<close>

definition browse_categories :: "string list" where
  "browse_categories = [''All'', ''Fiction'', ''Science Fiction'', ''Romance'', ''Fantasy'', ''Self-Help'']"

datatype browse_event = SetSearch string | SetCategory string | SetSort sort_mode

text \<open>The search box (lines 70-75), the category buttons (79-89), the sort buttons (91-116).\<close>

fun browse_step :: "browse_state \<Rightarrow> browse_event \<Rightarrow> browse_state" where
  "browse_step st (SetSearch s) = browse_effect (st\<lparr>br_search := s\<rparr>)"
| "browse_step st (SetCategory c) = browse_effect (st\<lparr>br_category := c\<rparr>)"
| "browse_step st (SetSort m) = browse_effect (st\<lparr>br_sort := m\<rparr>)"

subsection \<open>Cards\<close>

text \<open>Five stars, the first \<open>rating\<close> of them filled.\<close>

definition star_row :: "int \<Rightarrow> bool list" where
  "star_row r = map (\<lambda>i. int i < r) [0..<5]"

record book_card_view =
  bc_link :: "string list"
  bc_image :: string
  bc_title :: string
  bc_category :: string
  bc_author :: string
  bc_stars :: "bool list"
  bc_reviews :: int
  bc_description :: string
  bc_price :: cents

text \<open>
  \<open>BookCard\<close> (lines 3-40) inside its \<open>Link to={`/book/${book.id}`}\<close> (Browse
  lines 120-126); an empty image URL falls back to \<open>/images/Book.jpg\<close>.
\<close>

definition book_card :: "book_row \<Rightarrow> book_card_view" where
  "book_card b =
     \<lparr>bc_link = [''book'', nat_str (book_id b)],
      bc_image = (if book_image b = [] then ''/images/Book.jpg'' else book_image b),
      bc_title = book_title b, bc_category = book_category b, bc_author = book_author b,
      bc_stars = star_row (book_rating b), bc_reviews = book_reviews b,
      bc_description = book_description b, bc_price = book_price b\<rparr>"

datatype browse_page = BrowseLoading | BrowseList "book_card_view list"

definition browse_render :: "browse_state \<Rightarrow> browse_page" where
  "browse_render st = (if br_loading st then BrowseLoading else BrowseList (map book_card (br_filtered st)))"

text \<open>A visit: the mount, the request, then the events in order.\<close>

definition browse_visit ::
  "libs \<Rightarrow> faults \<Rightarrow> timestamp \<Rightarrow> session \<Rightarrow> browse_event list \<Rightarrow> db \<Rightarrow> browse_page" where
  "browse_visit L flt now s evs d =
     browse_render (foldl browse_step (browse_load browse_init (fst (serve L flt now (s_header s) GetBooks d))) evs)"

subsection \<open>Properties\<close>

lemma browse_step_filtered:
  "br_filtered (browse_step st e) =
     browse_view (br_search (browse_step st e)) (br_category (browse_step st e)) (br_sort (browse_step st e))
       (br_books st)"
  by (cases e) (simp_all add: browse_effect_def)

lemma foldl_browse_step_books: "br_books (foldl browse_step st evs) = br_books st"
proof (induction evs arbitrary: st)
  case Nil
  then show ?case by simp
next
  case (Cons e evs)
  have "br_books (browse_step st e) = br_books st" by (cases e) (simp_all add: browse_effect_def)
  with Cons.IH show ?case by simp
qed

lemma foldl_browse_step_loading: "br_loading (foldl browse_step st evs) = br_loading st"
proof (induction evs arbitrary: st)
  case Nil
  then show ?case by simp
next
  case (Cons e evs)
  have "br_loading (browse_step st e) = br_loading st" by (cases e) (simp_all add: browse_effect_def)
  with Cons.IH show ?case by simp
qed

text \<open>
  After any non-empty sequence of searches, category and sort clicks, the shown
  list is \<open>browse_view\<close> of the loaded books with the values last set: the page
  never shows a stale list.
\<close>

lemma browse_steps_view:
  assumes "evs \<noteq> []"
  shows "br_filtered (foldl browse_step st evs) =
     browse_view (br_search (foldl browse_step st evs)) (br_category (foldl browse_step st evs))
       (br_sort (foldl browse_step st evs)) (br_books st)"
proof -
  obtain es e where evs: "evs = es @ [e]" using assms by (metis rev_exhaust)
  show ?thesis
    using browse_step_filtered [of "foldl browse_step st es" e] foldl_browse_step_books [of st es]
    by (simp add: evs)
qed

end
