(* ===== verification/BookDetail.thy ===== *)
theory BookDetail
  imports CheckoutPage BrowsePage Forms
begin

text \<open>
  The book page, \<open>src/client/src/components/BookDetail.jsx\<close>: the quantity
  control (starting at 1; "-" is \<open>Math.max(1, quantity - 1)\<close>, "+" adds one),
  "Add to Cart", which posts the book's id with the quantity, and "Buy Now", which
  opens the checkout with the book and the quantity; the page's states, the
  effect that loads \<open>GET /api/books/:id\<close>, the two handlers run against the
  server and the session, and the rendered page.
\<close>

datatype qty_click = QtyDec | QtyInc

fun qty_step :: "int \<Rightarrow> qty_click \<Rightarrow> int" where
  "qty_step q QtyDec = max 1 (q - 1)"
| "qty_step q QtyInc = q + 1"

definition detail_qty :: "qty_click list \<Rightarrow> int" where
  "detail_qty cs = foldl qty_step 1 cs"

definition add_to_cart_request :: "book_row \<Rightarrow> int \<Rightarrow> request" where
  "add_to_cart_request b q = AddCart (book_id b) q"

definition buy_now :: "book_row \<Rightarrow> int \<Rightarrow> checkout_source" where
  "buy_now b q = BuyNow b q"

subsection \<open>Properties\<close>

lemma foldl_qty_step_pos: "1 \<le> q \<Longrightarrow> 1 \<le> foldl qty_step q cs"
proof (induction cs arbitrary: q)
  case Nil
  then show ?case by simp
next
  case (Cons c cs)
  have "1 \<le> qty_step q c" using Cons.prems by (cases c) auto
  then show ?case by (simp add: Cons.IH)
qed

text \<open>
  Whatever the clicks, the quantity on the book page is at least 1, so "Add to
  Cart" and "Buy Now" always send a positive quantity.
\<close>

lemma detail_qty_pos: "1 \<le> detail_qty cs"
  unfolding detail_qty_def by (rule foldl_qty_step_pos) simp

subsection \<open>The page\<close>

record detail_state =
  dt_book :: "book_row option"
  dt_loading :: bool
  dt_qty :: int

definition detail_init :: detail_state where
  "detail_init = \<lparr>dt_book = None, dt_loading = True, dt_qty = 1\<rparr>"

text \<open>
  The effect of lines 16-26: the book of a 2xx answer; any failure, a 404
  included, only clears the loading flag and leaves the book \<open>null\<close>.
\<close>

definition detail_load :: "detail_state \<Rightarrow> outcome \<Rightarrow> detail_state" where
  "detail_load st res =
     (case res of
        Reply r \<Rightarrow>
          if ok_status r then
            (case payload r of
               PBook b \<Rightarrow> st\<lparr>dt_book := Some b, dt_loading := False\<rparr>
             | _ \<Rightarrow> st\<lparr>dt_loading := False\<rparr>)
          else st\<lparr>dt_loading := False\<rparr>
      | Crash _ \<Rightarrow> st\<lparr>dt_loading := False\<rparr>)"

datatype detail_action = GoLogin | AddedToCart | AddFailed | GoCheckout checkout_location

text \<open>
  \<open>handleAddToCart\<close> (lines 28-44): without a token go to the login page;
  otherwise post the book and the quantity, and on success refresh the count; a
  failure alerts.
\<close>

definition handle_add_to_cart ::
  "libs \<Rightarrow> faults \<Rightarrow> timestamp \<Rightarrow> session \<Rightarrow> book_row \<Rightarrow> int \<Rightarrow> db \<Rightarrow> detail_action \<times> session \<times> db" where
  "handle_add_to_cart L flt now s b q d =
     (if \<not> is_authenticated s then (GoLogin, s, d)
      else case serve L flt now (s_header s) (add_to_cart_request b q) d of
        (Reply r, d') \<Rightarrow>
          if ok_status r then (AddedToCart, fetch_count_call L flt now s d', d') else (AddFailed, s, d')
      | (Crash _, d') \<Rightarrow> (AddFailed, s, d'))"

text \<open>\<open>handlePurchase\<close> (lines 46-58).\<close>

definition handle_purchase :: "session \<Rightarrow> book_row \<Rightarrow> int \<Rightarrow> detail_action" where
  "handle_purchase s b q = (if \<not> is_authenticated s then GoLogin else GoCheckout (WithBook b q))"

record detail_view =
  dv_image :: string
  dv_title :: string
  dv_author :: string
  dv_stars :: "bool list"
  dv_reviews :: int
  dv_category :: string
  dv_price :: cents
  dv_stock :: int
  dv_qty :: int
  dv_button_amount :: cents
  dv_description :: string

datatype detail_page = DetailLoading | BookNotFound | DetailShown detail_view

text \<open>The render (lines 60-115); both buttons show \<open>book.price * quantity\<close>.\<close>

definition detail_render :: "detail_state \<Rightarrow> detail_page" where
  "detail_render st =
     (if dt_loading st then DetailLoading
      else case dt_book st of
        None \<Rightarrow> BookNotFound
      | Some b \<Rightarrow> DetailShown
          \<lparr>dv_image = (if book_image b = [] then ''/images/Book.jpg'' else book_image b),
           dv_title = book_title b, dv_author = book_author b, dv_stars = star_row (book_rating b),
           dv_reviews = book_reviews b, dv_category = book_category b, dv_price = book_price b,
           dv_stock = book_stock b, dv_qty = dt_qty st, dv_button_amount = book_price b * dt_qty st,
           dv_description = book_description b\<rparr>)"

text \<open>A visit to \<open>/book/:id\<close>: the load, then the quantity clicks.\<close>

definition detail_visit ::
  "libs \<Rightarrow> faults \<Rightarrow> timestamp \<Rightarrow> session \<Rightarrow> book_key \<Rightarrow> qty_click list \<Rightarrow> db \<Rightarrow> detail_state" where
  "detail_visit L flt now s i cs d =
     (let st = detail_load detail_init (fst (serve L flt now (s_header s) (GetBook i) d)) in
      st\<lparr>dt_qty := foldl qty_step (dt_qty st) cs\<rparr>)"

subsection \<open>Properties of the page\<close>

text \<open>An unknown id shows "Book not found".\<close>

lemma detail_visit_missing:
  assumes "\<not> flt BookSelect" and "i \<notin> book_id ` set (books (tbl d))"
  shows "detail_render (detail_visit L flt now s i cs d) = BookNotFound"
  using get_book_missing [of flt i d, OF assms]
  by (simp add: detail_visit_def detail_load_def detail_init_def detail_render_def ok_status_def reply_def)

text \<open>The quantity shown after any clicks equals \<open>detail_qty\<close>, so it is at least 1.\<close>

lemma detail_visit_qty: "dt_qty (detail_visit L flt now s i cs d) = detail_qty cs"
  by (simp add: detail_visit_def detail_qty_def detail_load_def detail_init_def Let_def
      split: outcome.splits payload.splits)

text \<open>
  "Add to Cart" that succeeds leaves the navigation count equal to the sum of the
  quantities of the user's cart lines (with their books), read after the write.
\<close>

lemma add_to_cart_count:
  assumes "handle_add_to_cart L flt now s b q d = (AddedToCart, s', d')"
    and "authenticate_token L now (s_header s) = Inr c" and "\<not> flt CartList"
  shows "s_cart_count s' = foldl (\<lambda>n v. n + cv_qty v) 0 (cart_rows (claim_user c) (tbl d'))"
proof -
  from assms(1) have a: "is_authenticated s" by (auto simp: handle_add_to_cart_def split: if_splits)
  from assms(1) a obtain r where "serve L flt now (s_header s) (add_to_cart_request b q) d = (Reply r, d')"
    and "s' = fetch_count_call L flt now s d'"
    by (auto simp: handle_add_to_cart_def split: prod.splits outcome.splits if_splits)
  with a assms(2,3) show ?thesis
    by (simp add: fetch_count_call_sum is_authenticated_def)
qed

end
