(* ===== verification/MyOrders.thy ===== *)
theory MyOrders
  imports Json Server Session Money
begin

text \<open>
  The order history page, \<open>src/client/src/components/MyOrders.jsx\<close>, and the
  path of the shipping address from the checkout to it: \<open>POST /api/orders\<close>
  stores \<open>JSON.stringify(shipping_address)\<close> in a text column, \<open>GET /api/orders\<close>
  returns the column as a string, and the page parses it back with
  \<open>JSON.parse\<close>. The item list arrives already parsed: it is a
  \<open>JSON_ARRAYAGG\<close>, a JSON-typed column, which the \<open>mysql2\<close> driver decodes,
  so the page takes its \<open>Array.isArray\<close> branch. The page's state is its three
  React states; one visit is the mount effect (redirect, or one fetch with the
  session's header) followed by the render.
\<close>

section \<open>The stored shipping address\<close>

text \<open>
  The \<open>shipping\<close> state of \<open>Checkout.jsx\<close> (lines 13-20) is an object of six
  strings, in this key order; \<open>handleInputChange\<close> overwrites a key in place and
  keeps the order.
\<close>

definition shipping_json :: "shipping \<Rightarrow> json" where
  "shipping_json sh =
     JObj [(''name'', JStr (ship_name sh)), (''email'', JStr (ship_email sh)),
           (''address'', JStr (ship_address sh)), (''city'', JStr (ship_city sh)),
           (''zipCode'', JStr (ship_zip sh)), (''phone'', JStr (ship_phone sh))]"

definition ship_column :: "shipping \<Rightarrow> string" where
  "ship_column sh = json_stringify (shipping_json sh)"

section \<open>Processing the response\<close>

record order_card =
  card_order :: order_row
  card_items :: "item_view list"
  card_ship :: json

text \<open>
  \<open>typeof order.shipping_address === 'string'\<close>: \<open>JSON.parse\<close> inside
  \<open>try\<close>; a parse error leaves the empty object \<open>{}\<close>.
\<close>

definition parse_ship :: "string \<Rightarrow> json" where
  "parse_ship s = (case json_parse s of Inr j \<Rightarrow> j | Inl _ \<Rightarrow> JObj [])"

definition process_order :: "order_view \<Rightarrow> order_card" where
  "process_order ov =
     \<lparr>card_order = ov_order ov, card_items = ov_items ov,
      card_ship = parse_ship (ship_column (order_ship (ov_order ov)))\<rparr>"

section \<open>JavaScript conversions the template uses\<close>

text \<open>
  Truthiness and \<open>String(v)\<close> of a JSON value: an array prints its elements
  joined by commas, \<open>null\<close> elements as nothing; an object prints
  \<open>[object Object]\<close>.
\<close>

fun js_falsy :: "json \<Rightarrow> bool" where
  "js_falsy JNull = True"
| "js_falsy (JBool b) = (\<not> b)"
| "js_falsy (JNum i) = (i = 0)"
| "js_falsy (JStr s) = (s = [])"
| "js_falsy (JArr vs) = False"
| "js_falsy (JObj ms) = False"

fun js_to_string :: "json \<Rightarrow> string" where
  "js_to_string JNull = ''null''"
| "js_to_string (JBool b) = (if b then ''true'' else ''false'')"
| "js_to_string (JNum i) = int_str i"
| "js_to_string (JStr s) = s"
| "js_to_string (JArr vs) = commas (map (\<lambda>v. if v = JNull then [] else js_to_string v) vs)"
| "js_to_string (JObj ms) = ''[object Object]''"

text \<open>A property read: the last occurrence of a key wins, as in \<open>JSON.parse\<close>.\<close>

fun js_get :: "string \<Rightarrow> json \<Rightarrow> json option" where
  "js_get k (JObj ms) = map_of (rev ms) k"
| "js_get k _ = None"

text \<open>\<open>`${x || ''}`\<close>.\<close>

definition or_empty :: "json option \<Rightarrow> string" where
  "or_empty x = (case x of None \<Rightarrow> [] | Some v \<Rightarrow> if js_falsy v then [] else js_to_string v)"

section \<open>Rendering\<close>

text \<open>
  Lines 142-144: an object (arrays are objects) shows
  \<open>name - address, city\<close>, anything else \<open>No address provided\<close>.
\<close>

definition address_line :: "json \<Rightarrow> string" where
  "address_line j =
     (case j of
        JObj _ \<Rightarrow> or_empty (js_get ''name'' j) @ '' - '' @ or_empty (js_get ''address'' j) @ '', ''
                  @ or_empty (js_get ''city'' j)
      | JArr _ \<Rightarrow> '' - , ''
      | _ \<Rightarrow> ''No address provided'')"

text \<open>Line 128: \<open>(item.price || 0) * (item.quantity || 1)\<close>.\<close>

definition line_amount :: "item_view \<Rightarrow> cents" where
  "line_amount it = iv_price it * (if iv_qty it = 0 then 1 else iv_qty it)"

text \<open>
  \<open>formatDate\<close> (lines 73-86): \<open>"N/A"\<close> for an empty or missing date,
  otherwise \<open>new Date(dateString).toLocaleDateString('en-US', {...})\<close>, whose
  output depends on the browser's locale data and time zone and is a parameter
  here (\<open>None\<close> when it throws); the \<open>catch\<close> shows the string as it came.
\<close>

definition format_date :: "(string \<Rightarrow> string option) \<Rightarrow> string \<Rightarrow> string" where
  "format_date to_locale ds =
     (if ds = [] then ''N/A'' else case to_locale ds of Some s \<Rightarrow> s | None \<Rightarrow> ds)"

datatype card_items_view = ItemLines "(string \<times> int \<times> string) list" | NoItemsFound

text \<open>
  A card (lines 106-151): the amounts printed with \<open>toFixed(2)\<close>, and the total
  as the \<open>DECIMAL\<close> string of the row (never empty, so \<open>|| 0\<close> never applies).
\<close>

record order_card_view =
  oc_id :: order_key
  oc_date :: timestamp
  oc_items :: card_items_view
  oc_address :: string
  oc_total :: string

definition card_view :: "order_card \<Rightarrow> order_card_view" where
  "card_view c =
     \<lparr>oc_id = order_id (card_order c), oc_date = order_date (card_order c),
      oc_items = (if card_items c \<noteq> []
                  then ItemLines (map (\<lambda>it. (iv_title it, iv_qty it, fixed2 (line_amount it))) (card_items c))
                  else NoItemsFound),
      oc_address = address_line (card_ship c),
      oc_total = fixed2 (order_total (card_order c))\<rparr>"

section \<open>The page\<close>

record orders_state =
  os_orders :: "order_card list"
  os_loading :: bool
  os_error :: string

definition orders_init :: orders_state where
  "orders_init = \<lparr>os_orders = [], os_loading = True, os_error = []\<rparr>"

text \<open>
  \<open>fetchOrders\<close> (lines 23-71): clear the error, request the history; on a 2xx
  answer whose body is a list, store the processed orders; on any other outcome
  the \<open>catch\<close> only logs. \<open>finally\<close> clears the loading flag. Nothing ever
  sets the error.
\<close>

definition fetch_orders :: "orders_state \<Rightarrow> outcome \<Rightarrow> orders_state" where
  "fetch_orders st res =
     (let st1 = st\<lparr>os_loading := True, os_error := []\<rparr> in
      (case res of
         Reply r \<Rightarrow>
           if ok_status r then
             (case payload r of
                POrders vs \<Rightarrow> st1\<lparr>os_orders := map process_order vs\<rparr>
              | _ \<Rightarrow> st1)
           else st1
       | Crash _ \<Rightarrow> st1)\<lparr>os_loading := False\<rparr>)"

datatype orders_page = ToLogin | LoadingOrders | OrdersError string | NoOrders
  | OrderCards "order_card_view list"

definition render_orders :: "bool \<Rightarrow> orders_state \<Rightarrow> orders_page" where
  "render_orders auth st =
     (if \<not> auth then ToLogin
      else if os_loading st then LoadingOrders
      else if os_error st \<noteq> [] then OrdersError (os_error st)
      else if os_orders st = [] then NoOrders
      else OrderCards (map card_view (os_orders st)))"

text \<open>
  A visit: without a token the effect navigates to \<open>/login\<close> and renders
  nothing; with one it fetches \<open>GET /api/orders\<close> with the session's header.
\<close>

definition my_orders_visit :: "libs \<Rightarrow> faults \<Rightarrow> timestamp \<Rightarrow> session \<Rightarrow> db \<Rightarrow> orders_page" where
  "my_orders_visit L flt now s d =
     (if \<not> is_authenticated s then ToLogin
      else render_orders True (fetch_orders orders_init (fst (serve L flt now (s_header s) GetOrders d))))"

section \<open>Properties\<close>

lemma or_empty_str [simp]: "or_empty (Some (JStr x)) = x"
  by (simp add: or_empty_def)

lemma parse_ship_column: "parse_ship (ship_column sh) = shipping_json sh"
  by (simp add: parse_ship_def ship_column_def json_parse_stringify)

lemma card_view_sel [simp]:
  "oc_id (card_view c) = order_id (card_order c)"
  "oc_total (card_view c) = fixed2 (order_total (card_order c))"
  by (simp_all add: card_view_def)

text \<open>
  A page of cards comes from an accepted token and a successful query: the cards
  are those of the caller's order views, in the order of the answer.
\<close>

text \<open>
  \<open>toLocaleDateString\<close> with these options does not throw (an invalid date
  prints as \<open>"Invalid Date"\<close>): for such a formatter the \<open>catch\<close> is
  unreachable and a date the server sent is always shown formatted.
\<close>

lemma format_date_shown:
  "ds \<noteq> [] \<Longrightarrow> to_locale ds = Some s \<Longrightarrow> format_date to_locale ds = s"
  by (simp add: format_date_def)

lemma my_orders_visit_cards:
  assumes "my_orders_visit L flt now s d = OrderCards cs"
  shows "\<exists>c. authenticate_token L now (s_header s) = Inr c \<and>
           cs = map (card_view \<circ> process_order) (order_views (claim_user c) (tbl d))"
proof (cases "authenticate_token L now (s_header s)")
  case (Inl r)
  with assms guard_reply_not_ok [OF Inl] show ?thesis
    by (auto simp: my_orders_visit_def with_auth_def fetch_orders_def render_orders_def orders_init_def
        split: if_splits)
next
  case (Inr c)
  with assms show ?thesis
    by (auto simp: my_orders_visit_def with_auth_def list_orders_def fetch_orders_def render_orders_def
        orders_init_def ok_status_def split: if_splits)
qed

text \<open>
  A failed request leaves the page as it was before the fetch, apart from the
  loading flag: the first visit shows the empty history.
\<close>

lemma fetch_orders_failed:
  "(\<And>r. res = Reply r \<Longrightarrow> \<not> ok_status r) \<Longrightarrow>
   fetch_orders st res = st\<lparr>os_loading := False, os_error := []\<rparr>"
  by (cases res) (auto simp: fetch_orders_def)

text \<open>
  C36: the address a card of \<open>My Orders\<close> shows is the one entered at checkout:
  whatever the strings (quotes, backslashes, control characters included), the
  shipping object stored by \<open>JSON.stringify\<close> in the text column and read back
  by \<open>JSON.parse\<close> gives the line \<open>name - address, city\<close> of the order's shipping
  fields.
\<close>

theorem my_orders_shows_address:
  "oc_address (card_view (process_order ov)) =
     ship_name (order_ship (ov_order ov)) @ '' - '' @ ship_address (order_ship (ov_order ov)) @ '', ''
       @ ship_city (order_ship (ov_order ov))"
  by (simp add: card_view_def process_order_def parse_ship_column address_line_def shipping_json_def)

text \<open>
  C38: when the history query fails, \<open>My Orders\<close> shows "You haven't placed
  any orders yet." and no error: \<open>fetchOrders\<close> never sets the error state, so
  a storage failure reads as an empty history. The specification asks for a
  failure message on any non-2xx response.
\<close>

theorem my_orders_db_error_shows_no_orders:
  assumes "is_authenticated s" and "flt OrdersSelect"
  shows "my_orders_visit L flt now s d = NoOrders"
proof -
  have "\<And>r. fst (serve L flt now (s_header s) GetOrders d) = Reply r \<Longrightarrow> \<not> ok_status r"
    using assms(2) guard_reply_not_ok [of L now "s_header s"]
    by (auto simp: with_auth_def list_orders_def ok_status_def reply_def split: sum.splits)
  then show ?thesis
    using assms(1) by (simp add: my_orders_visit_def fetch_orders_failed orders_init_def render_orders_def)
qed

theorem my_orders_db_error_shows_no_orders_witness:
  "my_orders_visit demo_libs (\<lambda>x. x = OrdersSelect) 0
     ((session_init (Some ''tok''))\<lparr>s_header := Some ''Bearer tok''\<rparr>) demo_cart_db = NoOrders"
proof -
  have "is_authenticated ((session_init (Some ''tok''))\<lparr>s_header := Some ''Bearer tok''\<rparr>)"
    by (simp add: is_authenticated_def session_init_def)
  from my_orders_db_error_shows_no_orders [OF this, of "\<lambda>x. x = OrdersSelect"] show ?thesis
    by simp
qed

end
