(* ===== verification/Api.thy ===== *)
theory Api
  imports Server Session
begin

text \<open>
  The interface of the server as the client relies on it: the table of section 6
  of the specification (each route's success status and body) and the error
  taxonomy of section 7 (an error body \<open>{error}\<close> with 400, 401/403, 404 or
  500), written as a typing of responses. The pages of the client read a body by
  the shape their route promises (\<open>res.data.token\<close>, \<open>response.data\<close> as
  an array, \<open>error.response?.data?.error\<close>); the theorem below shows which
  answers of \<open>serve\<close> have that shape.
\<close>

text \<open>Routes behind \<open>authenticateToken\<close>.\<close>

fun protected :: "request \<Rightarrow> bool" where
  "protected (Register n e p) = False"
| "protected (Login e p) = False"
| "protected GetBooks = False"
| "protected (GetBook i) = False"
| "protected _ = True"

definition success_status :: "request \<Rightarrow> nat" where
  "success_status rq = (case rq of Register _ _ _ \<Rightarrow> 201 | _ \<Rightarrow> 200)"

text \<open>
  The body of a success, by route: the new id, the token and the user whose email
  was given, the book asked for, a message, the rows.
\<close>

definition success_payload :: "request \<Rightarrow> payload \<Rightarrow> bool" where
  "success_payload rq p =
     (case (rq, p) of
        (Register _ _ _, PRegistered _ _) \<Rightarrow> True
      | (Login e _, PLogin _ _ u) \<Rightarrow> pub_email u = e
      | (GetBooks, PBooks _) \<Rightarrow> True
      | (GetBook i, PBook b) \<Rightarrow> book_id b = i
      | (AddCart _ _, PMsg _) \<Rightarrow> True
      | (GetCart, PCart _) \<Rightarrow> True
      | (UpdateCart _ _, PMsg _) \<Rightarrow> True
      | (DeleteCart _, PMsg _) \<Rightarrow> True
      | (PlaceOrder _ _ _, POrderPlaced _ _) \<Rightarrow> True
      | (GetOrders, POrders _) \<Rightarrow> True
      | (ChangePassword _ _, PMsg _) \<Rightarrow> True
      | (GetProfile, PProfile _) \<Rightarrow> True
      | _ \<Rightarrow> False)"

text \<open>
  The error statuses a route may answer: 401/403 from the guard, 500 for a failed
  statement, and the route's own (a conflict 400, a bad password 401, an unknown
  book 404).
\<close>

definition error_statuses :: "request \<Rightarrow> nat set" where
  "error_statuses rq =
     (if protected rq then {401, 403} else {}) \<union> {500} \<union>
     (case rq of Register _ _ _ \<Rightarrow> {400} | Login _ _ \<Rightarrow> {401} | GetBook _ \<Rightarrow> {404}
               | ChangePassword _ _ \<Rightarrow> {401} | _ \<Rightarrow> {})"

definition is_error_payload :: "payload \<Rightarrow> bool" where
  "is_error_payload p = (case p of PErr _ \<Rightarrow> True | _ \<Rightarrow> False)"

definition api_typed :: "request \<Rightarrow> response \<Rightarrow> bool" where
  "api_typed rq r \<longleftrightarrow>
     (if ok_status r then status r = success_status rq \<and> success_payload rq (payload r)
      else status r \<in> error_statuses rq \<and> is_error_payload (payload r))"

lemmas api_simps = api_typed_def success_status_def success_payload_def error_statuses_def
  is_error_payload_def ok_status_def

subsection \<open>Each handler answers in its type\<close>

lemma error_statuses_ge: "s \<in> error_statuses rq \<Longrightarrow> 300 \<le> s"
  by (auto simp: error_statuses_def split: if_splits request.splits)

lemma error_typed [simp]:
  "s \<in> error_statuses rq \<Longrightarrow> api_typed rq (reply s (PErr e))"
  by (auto simp: api_typed_def ok_status_def is_error_payload_def dest: error_statuses_ge)

lemma guard_typed:
  "authenticate_token L now h = Inl r \<Longrightarrow> protected rq \<Longrightarrow> api_typed rq r"
  by (auto simp: authenticate_token_def api_simps split: option.splits)

lemma with_auth_typed:
  assumes "with_auth L now h d k = (Reply r, d')" and "protected rq"
    and "\<And>c. k c = (Reply r, d') \<Longrightarrow> api_typed rq r"
  shows "api_typed rq r"
  using assms guard_typed [of L now h r rq] by (auto simp: with_auth_def split: sum.splits)

lemma register_typed: "register L flt now n e p d = (Reply r, d') \<Longrightarrow> api_typed (Register n e p) r"
  by (auto simp: register_def api_simps Let_def split: if_splits)

lemma login_typed: "login L flt now e p d = Reply r \<Longrightarrow> api_typed (Login e p) r"
  by (auto simp: login_def login_response_def api_simps users_with_email_def
      dest!: first_row_Some_mem split: if_splits option.splits)

lemma get_books_typed: "get_books flt d = Reply r \<Longrightarrow> api_typed GetBooks r"
  by (auto simp: get_books_def api_simps split: if_splits)

lemma get_book_typed: "get_book flt i d = Reply r \<Longrightarrow> api_typed (GetBook i) r"
  by (auto simp: get_book_def api_simps dest!: first_row_Some_mem split: if_splits option.splits)

lemma cart_typed:
  "add_to_cart flt c b q d = (Reply r, d') \<Longrightarrow> api_typed (AddCart b q) r"
  "get_cart flt c d = Reply r \<Longrightarrow> api_typed GetCart r"
  "update_cart flt c i q d = (Reply r, d') \<Longrightarrow> api_typed (UpdateCart i q) r"
  "delete_cart flt c i d = (Reply r, d') \<Longrightarrow> api_typed (DeleteCart i) r"
  by (auto simp: add_to_cart_def get_cart_def update_cart_def delete_cart_def api_simps Let_def
      split: if_splits option.splits)

lemma orders_typed:
  "create_order flt now c its amt sh d = (Reply r, d') \<Longrightarrow> api_typed (PlaceOrder its amt sh) r"
  "list_orders flt c d = Reply r \<Longrightarrow> api_typed GetOrders r"
  by (auto simp: create_order_def list_orders_def api_simps Let_def split: if_splits)

lemma change_password_typed:
  "change_password L flt c cur new d = (Reply r, d') \<Longrightarrow> api_typed (ChangePassword cur new) r"
  by (auto simp: change_password_def api_simps Let_def split: if_splits option.splits)

lemma profile_get_typed:
  "profile_get flt c d = Reply r \<Longrightarrow> api_typed GetProfile r \<or> r = reply 200 PUndefined"
  by (auto simp: profile_get_def api_simps split: if_splits option.splits)

subsection \<open>The server\<close>

text \<open>
  C34 (type): every answer of the server has the type of its route, with one
  exception: \<open>GET /api/users/profile\<close> answers 200 with an empty body when no
  user has the token's id (\<open>res.json(results[0])\<close> of an empty result).
\<close>

theorem serve_api_typed:
  assumes "serve L flt now h rq d = (Reply r, d')"
  shows "api_typed rq r \<or> (rq = GetProfile \<and> r = reply 200 PUndefined)"
proof (cases rq)
  case (Register n e p)
  with assms register_typed show ?thesis by auto
next
  case (Login e p)
  with assms login_typed show ?thesis by auto
next
  case GetBooks
  with assms get_books_typed show ?thesis by auto
next
  case (GetBook i)
  with assms get_book_typed show ?thesis by auto
next
  case GetProfile
  with assms show ?thesis
    using guard_typed [of L now h r GetProfile] profile_get_typed
    by (auto simp: with_auth_def split: sum.splits)
qed (use assms in \<open>auto intro: with_auth_typed cart_typed orders_typed change_password_typed\<close>)

theorem serve_api_typed_witness:
  "api_typed (GetBook 7) (reply 200 (PBook demo_book))"
proof -
  have "serve demo_libs no_faults 0 None (GetBook 7) demo_cart_db =
        (Reply (reply 200 (PBook demo_book)), demo_cart_db)"
    by (simp add: get_book_def demo_cart_simps)
  from serve_api_typed [OF this] show ?thesis by simp
qed

end
