(* ===== verification/Spec2Isabelle.thy ===== *)
theory Spec2Isabelle
  imports CartPage Session Browse BookDetail MyOrders Forms CheckoutPage Api Concurrency
begin

text \<open>
  \<^bold>\<open>A verified model of the BookStore web shop.\<close>

  The program has two parts. The server, \<open>src/server/index.js\<close> with the MySQL
  connection of \<open>src/server/db.js\<close>, is an Express application with twelve
  routes over five tables (\<open>users\<close>, \<open>books\<close>, \<open>cart\<close>, \<open>orders\<close>,
  \<open>order_items\<close>). The React client, \<open>src/client/src\<close>, keeps a session in
  \<open>context/AuthContext.jsx\<close>, routes in \<open>App.jsx\<close>, and calls the server from
  its pages (\<open>Browse\<close>, \<open>BookDetail\<close>, \<open>cart\<close>, \<open>Checkout\<close>, \<open>MyOrders\<close>,
  \<open>login\<close>, \<open>signup\<close>) and its navigation bar. The client reaches the server
  only through HTTP requests carrying the session's \<open>Authorization\<close> header;
  the model joins the two through the datatype \<open>request\<close> and the step function
  \<open>serve\<close>: every page function that sends a request calls \<open>serve\<close> with the
  session's header and continues with its outcome. The shipping address travels
  as JSON text (\<open>JSON.stringify\<close> on the server, \<open>JSON.parse\<close> in
  \<open>MyOrders\<close>), modelled in \<open>Json\<close>.

  \<^bold>\<open>Theories and what they model.\<close>
  \<^item> \<open>Prelude\<close>: key and money types, \<open>update_where\<close>/\<open>delete_where\<close> (the
    translation of \<open>UPDATE ... WHERE\<close> and \<open>DELETE ... WHERE\<close>), \<open>first_row\<close>
    (\<open>results[0]\<close>) and their lemmas.
  \<^item> \<open>Db\<close>: the rows as records, the record \<open>tables\<close>, the connection state
    \<open>db\<close> (tables, auto-increment counters, transaction snapshot; \<open>begin_tx\<close>,
    \<open>commit\<close>, \<open>rollback\<close>), the engine's checks (\<open>int_col_ok\<close> for strict-mode
    \<open>INT\<close>, \<open>items_insert_ok\<close> for a bulk insert), the fault oracle \<open>faults\<close>
    (one \<open>site\<close> per \<open>db.query\<close> call of the server: a faulty site answers
    \<open>err\<close>, which stands for lost connections, lock timeouts, foreign keys), the
    libraries \<open>bcrypt\<close>/\<open>jsonwebtoken\<close> as the record \<open>libs\<close> with their
    contract \<open>bcrypt_ok\<close> (bcrypt compares the first 72 bytes), and the
    response payloads.
  \<^item> \<open>Auth\<close>: \<open>authenticateToken\<close> as \<open>token_of_header\<close> and
    \<open>authenticate_token\<close>, \<open>register\<close>, \<open>login\<close>, \<open>change_password\<close>,
    \<open>profile_get\<close>; invariant \<open>users_inv\<close>.
  \<^item> \<open>Catalog\<close>: \<open>get_books\<close>, \<open>get_book\<close>.
  \<^item> \<open>Cart\<close>: \<open>add_to_cart\<close>, \<open>get_cart\<close>, \<open>update_cart\<close>, \<open>delete_cart\<close>,
    invariant \<open>cart_inv\<close>, and the abstraction \<open>cart_abs\<close> of the table to a map
    (user, book) to quantity with the abstract operation \<open>spec_add\<close>.
  \<^item> \<open>Orders\<close>: \<open>create_order\<close> as its chain of callbacks (begin, insert
    order, insert items, clear cart, commit, a rollback on each error), its
    abstract effect \<open>placed\<close>, \<open>list_orders\<close> with the inner join and the
    newest-first order, invariant \<open>orders_inv\<close>.
  \<^item> \<open>Server\<close>: \<open>request\<close>, \<open>with_auth\<close>, \<open>serve\<close>, \<open>initial_db\<close>, the inductive
    \<open>reachable\<close> (any sequence of requests under any faults) and \<open>db_inv\<close>.
  \<^item> \<open>Api\<close>: the interface table and error taxonomy of the specification as a
    typing \<open>api_typed\<close> of the answers, and the proof that \<open>serve\<close> answers in
    it.
  \<^item> \<open>Concurrency\<close>: the requests in flight on the one connection of
    \<open>db.js\<close>. Each handler that writes is split at its callbacks: \<open>POST
    /api/cart\<close> (\<open>add_read\<close>, \<open>add_write\<close>), \<open>POST /api/register\<close>
    (\<open>reg_select\<close>, \<open>reg_insert\<close>), \<open>PUT /api/users/password\<close>
    (\<open>pw_select\<close>, \<open>pw_update\<close>) and \<open>POST /api/orders\<close> (begin, order
    insert, items insert, cart clear, commit, rollback); a handler of one
    statement is one callback. The datatype \<open>pending\<close> is the callback a
    request waits for, \<open>req_step\<close> runs it, and the inductive \<open>cstep\<close>
    runs the next callback of any request in flight (\<open>run_sched\<close> runs a
    given schedule, \<open>run_req\<close> one request alone); the concurrent deletes of
    "Clear Cart" in any order.
  \<^item> \<open>Json\<close>, \<open>JsSort\<close>, \<open>Money\<close>: the parts of the JavaScript runtime the code
    relies on, from the ECMAScript specification: \<open>JSON.stringify\<close> and the
    recursive-descent \<open>JSON.parse\<close> (\<open>parse_value\<close>/\<open>parse_elems\<close>/
    \<open>parse_members\<close>, with fuel), \<open>Array.prototype.sort\<close> as a stable merge
    sort driven by the comparator (\<open>js_sort\<close>), and the printing of amounts
    (\<open>fixed2\<close> for \<open>toFixed(2)\<close>, \<open>num_str\<close> for a number in a template).
  \<^item> \<open>Session\<close>: \<open>AuthContext.jsx\<close> as the record \<open>session\<close> and the
    transition \<open>session_step\<close>.
  \<^item> \<open>Forms\<close>: the context's \<open>login\<close>, \<open>signup\<close>, \<open>changePassword\<close> and
    \<open>fetchCartCount\<close> run against \<open>serve\<close>; \<open>login.jsx\<close> and \<open>signup.jsx\<close>
    (states, change handlers, \<open>handleSubmit\<close>, render); \<open>navbar.jsx\<close>
    (\<open>nav_render\<close> and its handlers); the route table of \<open>App.jsx\<close>.
  \<^item> \<open>Client\<close> and \<open>CheckoutPage\<close>: \<open>Checkout.jsx\<close>: the items, the amounts,
    the request body, the page's states, the mount effect, the input handler, the
    browser's \<open>required\<close> check, \<open>checkout_submit\<close> and the order summary.
  \<^item> \<open>CartPage\<close>: \<open>cart.jsx\<close>: the mount, the buttons as request lists
    (\<open>click_requests\<close>, run by \<open>serve_all\<close>), \<open>loadCart\<close>, the reload and count
    refresh after a click (\<open>cart_click_effect\<close>), a press of "-" on a shown
    line (\<open>minus_press\<close>), the render.
  \<^item> \<open>Browse\<close> and \<open>BrowsePage\<close>: \<open>Browse.jsx\<close> and \<open>BookCard.jsx\<close>: the
    filter and the comparator sort of the effect (\<open>book_cmp\<close>,
    \<open>browse_view\<close>), with the stable key sort \<open>sort_books\<close> as the reference;
    the page's states and effects, the controls, the cards.
  \<^item> \<open>BookDetail\<close>: \<open>BookDetail.jsx\<close>: the quantity control, the load, the two
    handlers against \<open>serve\<close> and the session, the render.
  \<^item> \<open>MyOrders\<close>: \<open>MyOrders.jsx\<close>: the stored address (\<open>ship_column\<close>), the
    processing of each order, the cards, \<open>formatDate\<close>, \<open>fetchOrders\<close> and
    the render.
  \<^item> this theory: properties that span the checkout, the server, the session
    and the order history.

  \<^bold>\<open>What is proved.\<close> The placement of an order is atomic: on every branch it
  either commits exactly \<open>placed\<close> or leaves the tables as they were (C1, C2,
  C23). Adding to the cart refines \<open>spec_add\<close> and accumulates (C6, C7); every
  handler keeps its table's invariant, and every reachable state satisfies
  \<open>db_inv\<close>, by rule induction on \<open>reachable\<close> with one frame lemma per handler
  (C8). With requests in flight, a request run alone is exactly its handler
  (C20: the sequential model is the interleaving semantics with one request),
  and no interleaving runs forever: it stops exactly when every request is
  answered (C37, by the total number of callbacks left). But the shared connection breaks the
  specification's guarantees: two adds of one (user, book) pair whose callbacks
  interleave both succeed and duplicate a line (C32), while any interleaving of
  adds of distinct pairs keeps the invariant (\<open>distinct_adds_keep_cart_inv\<close>,
  by rule induction on \<open>cstep\<close>); when two checkouts overlap, the one that
  fails leaves its order row although it answered 500, and the one answered 200
  loses its order row and leaves items of no order (C25); a rolled-back checkout
  erases a cart add that was answered 200 (C30); two registrations of one email
  both succeed and store it twice (C17). The guard, registration, login and
  password change behave as the routes say on every branch, under the bcrypt
  contract (C13-C16, C18, C19, and \<open>login_wrong_password\<close>: an ideal bcrypt
  refuses a wrong password). Every answer of the server has the type of its
  route, except an empty profile (C34). The
  order history shows the caller's orders newest first, with prices as stored
  at purchase (C4, C5, C22). On the client, the session stays consistent
  through any event sequence (C24), the cart buttons keep quantities
  positive (C28), pressing "-" as often as a line's quantity removes it
  (C29, liveness), the catalog shows a book exactly when the search text occurs
  in its title or author, ignoring case, and its category is chosen (C31,
  with \<open>String.prototype.includes\<close> proved to be containment), the engine's comparator sort equals the stable key
  sort (C33), the address on a My Orders card is the one entered at checkout,
  through \<open>JSON.stringify\<close> and \<open>JSON.parse\<close>, for any strings (C36), an account is created through
  the signup form only with a confirmed password of six or more characters
  (C39), a checkout the page reports as successful stored exactly the page's
  items, total and address and reset the count (C40), and the amount on its
  "Pay" button is the total the My Orders card shows (C10). Lemmas of the page
  theories show that the navigation count after a cart click equals the sum the
  cart page shows, that a successful login leaves the session authenticated,
  that the book page's quantity stays at least 1, and that the shown catalog
  always follows the last search, category and sort. C3, C5, C9, C12, C14,
  C17, C23, C25, C27, C30, C32, C34 and C38 prove behaviours that differ from what the
  specification or the code's intent states (the checkout sends cart line ids
  as book ids, the history drops orders without joined items, any user may
  update any cart line, quantities are not validated, the token scheme is not
  checked, an empty order fails, a failed login
  keeps the client authenticated, interleaved adds duplicate a line, a failed
  checkout interleaved with another keeps its order, a rollback erases another
  request's add, concurrent registrations duplicate an email, a missing
  user's profile is an empty 200, a failed history request reads as an empty
  history); they are listed as findings in the manifest, with the tax printed
  without its trailing zero (\<open>num_str_eq_fixed2\<close>).

  \<^bold>\<open>Bounds and fuel.\<close> Integers are unbounded \<open>int\<close>, as JavaScript numbers
  are integers far below \<open>2^53\<close> here; where MySQL bounds a column the bound is
  written out (\<open>int_col_ok\<close>: a value outside the signed 32-bit range makes the
  statement fail in strict mode). Money is in cents. The JSON parser runs on
  fuel \<open>2 * length s + 1\<close>, which \<open>json_parse_never_out_of_fuel\<close> shows is
  always enough (every call consumes a character or hands its input to a call
  that does, \<open>parse_shorter\<close>). The merge sort \<open>js_sort\<close> terminates by the
  length of its input. The liveness of C29 is bounded: \<open>max 1 q\<close> presses for
  a line shown with quantity \<open>q\<close>, each lowering the stored quantity by one.
  A request in flight runs at most \<open>rank\<close> more callbacks (six for an
  order: five statements and a rollback), so \<open>run_req\<close> with fuel \<open>rank\<close>
  always answers (\<open>run_req_enough\<close>) and fuel 6 serves every route.
  Every other function is structurally recursive or a list combinator.

  \<^bold>\<open>Not modelled.\<close> \<open>PrivateRoute\<close> and \<open>Footer\<close>, which \<open>App.jsx\<close> imports
  but the repository does not contain (the route guard is a constructor without
  behaviour); page layout and styling; the output of \<open>toLocaleDateString\<close>
  in \<open>formatDate\<close> (locale and time zone of the browser: a parameter of
  \<open>format_date\<close>), the status badges of
  \<open>MyOrders\<close> (their columns are not part of the model), the browser's
  \<open>type="email"\<close> check; string collation of MySQL (emails compare exactly);
  malformed request bodies and missing fields; JavaScript floating point (prices
  are whole cents, ratings whole numbers, JSON numbers integers: a fraction or an
  exponent is reported as outside the model; the checkout's tax
  \<open>+(subtotal * 0.1).toFixed(2)\<close> is computed on binary floats, which may
  round a half-cent tie down where \<open>tax\<close> rounds exact cents half up, e.g.
  one cent instead of two on a subtotal of 0.15; no property states a tax
  value); characters are bytes. In
  \<open>Concurrency\<close> the token check runs when a request arrives (it is
  synchronous) and a request enters with its caller's claims; a failing
  statement fails at every request (the fault oracle is one per run); \<open>cstep\<close>
  lets any request in flight run its next callback, while the connection runs
  statements in the order they were issued, which allows fewer orders (the
  schedules of C25, C30 and C32 are orders the queue produces); the
  \<open>UNIQUE\<close> index the specification implies on \<open>users.email\<close> is not in
  the repository and is not modelled.
\<close>

section \<open>Checkout end to end\<close>

lemma order_items_fresh:
  assumes "orders_inv d"
  shows "filter (\<lambda>i. item_order i = next_order d) (order_items (tbl d)) = []"
  using assms by (force simp: orders_inv_def filter_empty_conv)

lemma placed_items_of_order:
  assumes "db_inv d"
    and "create_order flt now c its amt sh d = (Reply (reply 200 (POrderPlaced m oid)), d')"
  shows "filter (\<lambda>i. item_order i = oid) (order_items (tbl d')) = item_rows oid its"
proof -
  from assms(1) have sn: "snapshot d = None" and oi: "orders_inv d" by (simp_all add: db_inv_def)
  from create_order_shape [OF assms(2) sn]
  have oid: "oid = next_order d" and t: "tbl d' = placed (claim_user c) oid its amt sh now (tbl d)"
    by (auto simp: reply_def)
  have "filter (\<lambda>i. item_order i = oid) (order_items (tbl d)) = []"
    using order_items_fresh [OF oi] oid by simp
  then show ?thesis
    by (simp add: t placed_def item_rows_def comp_def filter_id_conv)
qed

text \<open>
  C3: checking out the cart sends the cart line ids as book ids. When
  \<open>Checkout.jsx\<close> submits the rows of \<open>GET /api/cart\<close> and the order is
  placed, the stored items of the new order carry, as their \<open>book_id\<close>, the
  \<open>id\<close> of each cart line instead of its \<open>book_id\<close>.
\<close>

theorem checkout_from_cart_book_ids:
  assumes "db_inv d"
    and "checkout_body (FromCart vs) ship = (its, amt, sh)"
    and "create_order flt now c its amt sh d = (Reply (reply 200 (POrderPlaced m oid)), d')"
  shows "map item_book (filter (\<lambda>i. item_order i = oid) (order_items (tbl d'))) = map cv_id vs"
proof -
  from assms(2) have its: "its = order_body_items (checkout_items (FromCart vs))"
    by (simp add: checkout_body_def)
  show ?thesis
    by (simp add: placed_items_of_order [OF assms(1,3)] item_rows_def its order_body_items_def comp_def)
qed

theorem checkout_from_cart_book_ids_witness:
  "map item_book (filter (\<lambda>i. item_order i = 1) (order_items (tbl (snd
     (create_order no_faults 10 claims1 (order_body_items (checkout_items
        (FromCart [cart_view_of demo_line demo_book]))) 2198 demo_ship demo_cart_db))))) = [1] \<and>
   cart_book demo_line = 7"
proof -
  let ?its = "order_body_items (checkout_items (FromCart [cart_view_of demo_line demo_book]))"
  have inv: "db_inv demo_cart_db"
    by (simp add: db_inv_def users_inv_def cart_inv_def orders_inv_def demo_cart_simps)
  have b: "checkout_body (FromCart [cart_view_of demo_line demo_book]) demo_ship =
      (?its, checkout_total (checkout_items (FromCart [cart_view_of demo_line demo_book])), demo_ship)"
    by (simp add: checkout_body_def)
  have "create_order no_faults 10 claims1 ?its
      (checkout_total (checkout_items (FromCart [cart_view_of demo_line demo_book]))) demo_ship demo_cart_db =
    (Reply (reply 200 (POrderPlaced ''Order placed successfully'' 1)),
     snd (create_order no_faults 10 claims1 ?its
      (checkout_total (checkout_items (FromCart [cart_view_of demo_line demo_book]))) demo_ship demo_cart_db))"
    by (simp add: create_order_def Let_def items_insert_ok_def item_rows_def order_body_items_def
        cart_view_of_def int_col_ok_def demo_order_simps)
  from checkout_from_cart_book_ids [OF inv b this] show ?thesis
    by (simp add: cart_view_of_def demo_line_def create_order_def Let_def placed_def
        item_rows_def order_body_items_def items_insert_ok_def int_col_ok_def demo_order_simps
        begin_tx_def commit_def insert_order_def insert_items_def clear_cart_def)
qed

text \<open>
  The row of a placed order: in a state satisfying the invariant, the only order
  with the fresh id after the placement is the new one.
\<close>

lemma placed_order_row:
  assumes "orders_inv d" and "tbl d' = placed u (next_order d) its amt sh now (tbl d)"
    and "od \<in> set (orders (tbl d'))" and "order_id od = next_order d"
  shows "od = new_order (next_order d) u amt sh now"
  using assms by (auto simp: orders_inv_def placed_def)

text \<open>
  C10: the amount the checkout page shows on its "Pay" button is the total the
  My Orders page shows for the order it placed: the client's total travels as
  \<open>total_amount\<close> into the \<open>orders\<close> row and back through
  \<open>GET /api/orders\<close> as the \<open>DECIMAL\<close> string of the card.
\<close>

theorem checkout_total_shown_in_orders:
  assumes "db_inv d" and "checkout_submit L flt now s p d = (OrderPlaced, s', d')"
    and "my_orders_visit L' flt' now' s'' d' = OrderCards cs"
    and "cv \<in> set cs" and "oc_id cv = next_order d"
  shows "sm_pay (checkout_summary (ck_items p)) = ''Pay $'' @ oc_total cv"
proof -
  from assms(1) have sn: "snapshot d = None" and oi: "orders_inv d" by (simp_all add: db_inv_def)
  from checkout_submit_placed [OF sn assms(2)] obtain c :: claims where
    t: "tbl d' = placed (claim_user c) (next_order d) (order_body_items (ck_items p))
                  (checkout_total (ck_items p)) (ck_ship p) now (tbl d)"
    by blast
  from my_orders_visit_cards [OF assms(3)] assms(4) obtain c' :: claims and ov where
    ov: "ov \<in> set (order_views (claim_user c') (tbl d'))" and cv: "cv = card_view (process_order ov)"
    by auto
  from order_views_mem [OF ov] have "ov_order ov \<in> set (orders (tbl d'))" by simp
  from placed_order_row [OF oi t this] assms(5) cv
  have "ov_order ov = new_order (next_order d) (claim_user c) (checkout_total (ck_items p)) (ck_ship p) now"
    by (simp add: process_order_def)
  with cv show ?thesis by (simp add: checkout_summary_def process_order_def new_order_def)
qed

theorem checkout_total_shown_in_orders_witness:
  "case my_orders_visit demo_libs no_faults 0
      (fst (snd (checkout_submit demo_libs no_faults 0
         ((session_init (Some ''tok''))\<lparr>s_header := Some ''Bearer tok''\<rparr>) demo_checkout demo_cart_db)))
      (snd (snd (checkout_submit demo_libs no_faults 0
         ((session_init (Some ''tok''))\<lparr>s_header := Some ''Bearer tok''\<rparr>) demo_checkout demo_cart_db))) of
     OrderCards (cv # _) \<Rightarrow> sm_pay (checkout_summary (ck_items demo_checkout)) = ''Pay $'' @ oc_total cv
   | _ \<Rightarrow> False"
proof -
  let ?s = "(session_init (Some ''tok''))\<lparr>s_header := Some ''Bearer tok''\<rparr>"
  obtain r s' d' where e: "checkout_submit demo_libs no_faults 0 ?s demo_checkout demo_cart_db = (r, s', d')"
    by (metis prod.exhaust)
  have r: "r = OrderPlaced" using demo_checkout_placed [of ?s] e by simp
  have inv: "db_inv demo_cart_db"
    by (simp add: db_inv_def users_inv_def cart_inv_def orders_inv_def demo_cart_simps)
  have auth: "authenticate_token demo_libs 0 (Some ''Bearer tok'') = Inr claims1"
    by (simp add: authenticate_token_def token_of_header_def js_split_def demo_libs_def claims1_def)
  from checkout_submit_placed [OF _ e [unfolded r]] auth
  have t: "tbl d' = placed 1 1 (order_body_items (ck_items demo_checkout))
             (checkout_total (ck_items demo_checkout)) demo_ship 0 (tbl demo_cart_db)"
    and s': "s' = reset_cart_count ?s"
    by (auto simp: demo_cart_simps demo_checkout_def)
  let ?ov = "\<lparr>ov_order = new_order 1 1 (checkout_total (ck_items demo_checkout)) demo_ship 0,
              ov_items = [\<lparr>iv_title = ''Dune'', iv_qty = 1, iv_price = 999\<rparr>]\<rparr>"
  have v: "my_orders_visit demo_libs no_faults 0 s' d' = OrderCards [card_view (process_order ?ov)]"
    using auth
    by (simp add: s' t my_orders_visit_def is_authenticated_def reset_cart_count_def session_init_def
        with_auth_def list_orders_def fetch_orders_def render_orders_def orders_init_def ok_status_def
        order_views_def order_item_views_def newest_first_def placed_def demo_cart_simps
        demo_checkout_def order_body_items_def item_rows_def new_order_def claims1_def)
  have "sm_pay (checkout_summary (ck_items demo_checkout)) = ''Pay $'' @ oc_total (card_view (process_order ?ov))"
    by (rule checkout_total_shown_in_orders [OF inv e [unfolded r] v])
       (simp_all add: process_order_def new_order_def demo_cart_simps)
  with e v show ?thesis by simp
qed

section \<open>Client session against the server guard\<close>

text \<open>
  C26: after a successful login answer carrying a token without spaces, every later
  request of the client carries a header from which \<open>authenticateToken\<close> reads
  back exactly that token, so the request is authenticated exactly when
  \<open>jwt.verify\<close> accepts the token.
\<close>

theorem login_then_authenticated:
  assumes "login_ok r" and "payload r = PLogin m tok u"
    and "CHR '' '' \<notin> set tok" and "tok \<noteq> []"
  shows "authenticate_token L now (s_header (session_step s (LoginAnswer r))) =
           (case jwt_verify L tok now of
              None \<Rightarrow> Inl (reply 403 (PErr ''Invalid token''))
            | Some c \<Rightarrow> Inr c)"
proof -
  from assms(1,2) have "s_header (session_step s (LoginAnswer r)) = Some (bearer tok)"
    by (simp add: login_answer_def login_ok_def)
  moreover have "token_of_header (Some (bearer tok)) = Some tok"
    unfolding bearer_def by (rule token_of_header_bearer [OF assms(3,4)])
  ultimately show ?thesis by (simp add: authenticate_token_def)
qed

theorem login_then_authenticated_witness:
  "authenticate_token demo_libs 5 (s_header (session_step (session_init None) (LoginAnswer demo_login_answer)))
     = Inr \<lparr>claim_user = 1, claim_email = ''a@x''\<rparr>"
proof -
  have "login_ok demo_login_answer" "payload demo_login_answer = PLogin ''Login successful'' ''tok''
     \<lparr>pub_id = 1, pub_name = ''Ann'', pub_email = ''a@x''\<rparr>"
    by (simp_all add: login_ok_def demo_login_answer_def ok_status_def)
  from login_then_authenticated [OF this, of demo_libs 5 "session_init None"] show ?thesis
    by (simp add: demo_libs_def)
qed

text \<open>
  C27: a failed login while already logged in leaves the client believing it is
  authenticated (the token state is kept) while it removed the default header: every
  protected request the client then sends is rejected with 401.
\<close>

theorem failed_login_while_authenticated:
  assumes "consistent s" and "is_authenticated s" and "\<not> login_ok r"
  shows "is_authenticated (session_step s (LoginAnswer r)) \<and>
         \<not> consistent (session_step s (LoginAnswer r)) \<and>
         authenticate_token L now (s_header (session_step s (LoginAnswer r))) =
           Inl (reply 401 (PErr ''Access token required''))"
  using assms
  by (auto simp: login_answer_fail_state is_authenticated_def consistent_def
      authenticate_token_def token_of_header_def)

theorem failed_login_while_authenticated_witness:
  "is_authenticated (session_step (session_step (session_init None) (LoginAnswer demo_login_answer))
      (LoginAnswer (reply 401 (PErr ''Invalid credentials'')))) \<and>
   authenticate_token demo_libs 5 (s_header (session_step (session_step (session_init None)
      (LoginAnswer demo_login_answer)) (LoginAnswer (reply 401 (PErr ''Invalid credentials''))))) =
     Inl (reply 401 (PErr ''Access token required''))"
proof -
  let ?s = "session_step (session_init None) (LoginAnswer demo_login_answer)"
  have "consistent ?s" "is_authenticated ?s"
    by (simp_all add: consistent_def is_authenticated_def login_answer_def demo_login_answer_def
        ok_status_def session_init_def)
  moreover have "\<not> login_ok (reply 401 (PErr ''Invalid credentials''))"
    by (simp add: login_ok_def)
  ultimately show ?thesis using failed_login_while_authenticated by blast
qed

text \<open>
  C35: "Buy Now" orders the right book: when the checkout opened from a book page
  places its order, the order holds exactly one item, with that book's id, the
  chosen quantity and the book's price.
\<close>

theorem buy_now_book_ids:
  assumes "db_inv d"
    and "checkout_body (buy_now b q) ship = (its, amt, sh)"
    and "create_order flt now c its amt sh d = (Reply (reply 200 (POrderPlaced m oid)), d')"
  shows "filter (\<lambda>i. item_order i = oid) (order_items (tbl d')) =
           [\<lparr>item_order = oid, item_book = book_id b, item_qty = q, item_price = book_price b\<rparr>]"
proof -
  from assms(2) have its: "its = order_body_items (checkout_items (BuyNow b q))"
    by (simp add: checkout_body_def buy_now_def)
  show ?thesis
    by (simp add: placed_items_of_order [OF assms(1,3)] item_rows_def its order_body_items_def)
qed

theorem buy_now_book_ids_witness:
  "filter (\<lambda>i. item_order i = 1) (order_items (tbl (snd
     (create_order no_faults 10 claims1 (order_body_items (checkout_items (buy_now demo_book 2)))
        (checkout_total (checkout_items (buy_now demo_book 2))) demo_ship demo_cart_db)))) =
   [\<lparr>item_order = 1, item_book = 7, item_qty = 2, item_price = 999\<rparr>]"
proof -
  let ?its = "order_body_items (checkout_items (buy_now demo_book 2))"
  let ?amt = "checkout_total (checkout_items (buy_now demo_book 2))"
  have inv: "db_inv demo_cart_db"
    by (simp add: db_inv_def users_inv_def cart_inv_def orders_inv_def demo_cart_simps)
  have bd: "checkout_body (buy_now demo_book 2) demo_ship = (?its, ?amt, demo_ship)"
    by (simp add: checkout_body_def)
  have e: "create_order no_faults 10 claims1 ?its ?amt demo_ship demo_cart_db =
    (Reply (reply 200 (POrderPlaced ''Order placed successfully'' 1)),
     snd (create_order no_faults 10 claims1 ?its ?amt demo_ship demo_cart_db))"
    by (simp add: create_order_def Let_def items_insert_ok_def item_rows_def order_body_items_def
        buy_now_def int_col_ok_def demo_order_simps)
  from buy_now_book_ids [OF inv bd e] show ?thesis by (simp add: demo_book_def)
qed

end
